(* ===== verification/Prelude.thy ===== *)
theory Prelude
  imports
    Main
    "HOL-Library.Finite_Map"
    "HOL-Library.Word"
    "HOL-Library.Char_ord"
    "HOL-Library.List_Lexorder"
begin

text \<open>
  Shared vocabulary of the development: the finite maps that stand for Go maps, the
  order in which a Go \<open>range\<close> loop visits them, the byte and hexadecimal helpers, and
  the collections of rewrite rules the component theories extend.

  A Go map is a \<^typ>\<open>('k, 'v) fmap\<close>. A \<open>range\<close> loop visits the entries in an order the
  language leaves open, so every definition that loops takes the visited keys as a list;
  \<open>enumerates ks m\<close> says that the list is one of the orders Go may choose.
\<close>

section \<open>Rule collections\<close>

named_theorems handler_defs "definitions of the operations of the engine"
named_theorems wf_intros "rules that establish one part of an invariant"

section \<open>Range loops over maps\<close>

definition enumerates :: "'k list \<Rightarrow> ('k, 'v) fmap \<Rightarrow> bool" where
  "enumerates ks m \<longleftrightarrow> distinct ks \<and> fset_of_list ks = fmdom m"

definition range_pairs :: "('k, 'v) fmap \<Rightarrow> 'k list \<Rightarrow> ('k \<times> 'v) list" where
  "range_pairs m ks = List.map_filter (\<lambda>k. map_option (Pair k) (fmlookup m k)) ks"

definition range_values :: "('k, 'v) fmap \<Rightarrow> 'k list \<Rightarrow> 'v list" where
  "range_values m ks = List.map_filter (fmlookup m) ks"

lemma range_pairs_simps [simp]:
  "range_pairs m [] = []"
  "range_pairs m (k # ks) =
     (case fmlookup m k of None \<Rightarrow> range_pairs m ks | Some v \<Rightarrow> (k, v) # range_pairs m ks)"
  by (simp_all add: range_pairs_def List.map_filter_simps split: option.split)

lemma range_values_simps [simp]:
  "range_values m [] = []"
  "range_values m (k # ks) =
     (case fmlookup m k of None \<Rightarrow> range_values m ks | Some v \<Rightarrow> v # range_values m ks)"
  by (simp_all add: range_values_def List.map_filter_simps split: option.split)

lemma set_range_pairs: "(k, v) \<in> set (range_pairs m ks) \<longleftrightarrow> k \<in> set ks \<and> fmlookup m k = Some v"
  by (induction ks) (auto split: option.split)

lemma set_range_values: "v \<in> set (range_values m ks) \<longleftrightarrow> (\<exists>k\<in>set ks. fmlookup m k = Some v)"
  by (induction ks) (auto split: option.split)

lemma enumerates_dom: "enumerates ks m \<Longrightarrow> k \<in> set ks \<longleftrightarrow> (\<exists>v. fmlookup m k = Some v)"
  by (metis enumerates_def fmlookup_dom_iff fset_of_list_elem)

lemma enumerates_distinct: "enumerates ks m \<Longrightarrow> distinct ks"
  by (simp add: enumerates_def)

lemma enumerates_range_pairs:
  "enumerates ks m \<Longrightarrow> (k, v) \<in> set (range_pairs m ks) \<longleftrightarrow> fmlookup m k = Some v"
  by (auto simp: set_range_pairs enumerates_dom)

lemma enumerates_range_values:
  "enumerates ks m \<Longrightarrow> v \<in> set (range_values m ks) \<longleftrightarrow> (\<exists>k. fmlookup m k = Some v)"
  by (auto simp: set_range_values enumerates_dom)

lemma enumerates_empty [simp]: "enumerates [] fmempty"
  by (simp add: enumerates_def)

lemma enumerates_fmdom_cong: "fmdom m = fmdom n \<Longrightarrow> enumerates ks m \<longleftrightarrow> enumerates ks n"
  by (simp add: enumerates_def)

lemma ex_enumerates: "\<exists>ks. enumerates ks m"
proof -
  obtain ks where "set ks = fset (fmdom m)" and "distinct ks"
    using finite_distinct_list [of "fset (fmdom m)"] by auto
  then have "enumerates ks m"
    by (simp add: enumerates_def fset_of_list.rep_eq fset_inject [symmetric])
  then show ?thesis ..
qed

lemma find_range_values_Some:
  assumes "List.find Q (range_values m ks) = Some v"
  shows "Q v \<and> (\<exists>k. k \<in> set ks \<and> fmlookup m k = Some v)"
  using assms by (fastforce simp: find_Some_iff in_set_conv_nth [symmetric] set_range_values
      dest: nth_mem)

lemma find_range_pairs_Some:
  assumes "List.find Q (range_pairs m ks) = Some (k, v)"
  shows "Q (k, v) \<and> k \<in> set ks \<and> fmlookup m k = Some v"
  using assms by (metis find_Some_iff nth_mem set_range_pairs)

lemma find_range_values_None:
  "enumerates ks m \<Longrightarrow>
     List.find Q (range_values m ks) = None \<longleftrightarrow> (\<forall>k v. fmlookup m k = Some v \<longrightarrow> \<not> Q v)"
  by (auto simp: find_None_iff enumerates_range_values)

section \<open>Updating a present key\<close>

lemma fmdom_fmupd_present: "fmlookup m k = Some v \<Longrightarrow> fmdom (fmupd k v' m) = fmdom m"
  by (auto simp: fmlookup_dom_iff intro!: fset_eqI)

lemma fmupd_same [simp]: "fmlookup m k = Some v \<Longrightarrow> fmupd k v m = m"
  by (rule fmap_ext) auto

lemma fmdrop_absent [simp]: "fmlookup m k = None \<Longrightarrow> fmdrop k m = m"
  by (rule fmap_ext) auto

declare fmdrop_fmupd_same [simp]

lemma fmupd_not_empty [simp]: "fmupd k v m \<noteq> fmempty" "fmempty \<noteq> fmupd k v m"
  by (metis fmempty_lookup fmupd_lookup option.distinct(1))+

lemma fmap_empty_iff: "m = fmempty \<longleftrightarrow> (\<forall>k. fmlookup m k = None)"
  by (auto intro!: fmap_ext)

section \<open>Counters\<close>

lemma unat_increment: "unat (w :: 64 word) < 2 ^ 64 - 1 \<Longrightarrow> unat (w + 1) = Suc (unat w)"
  by (simp add: unat_plus_if')

section \<open>Hexadecimal text\<close>

text \<open>\<open>encoding/hex.EncodeToString\<close>: two lower-case digits for each byte, high nibble first.\<close>

definition hex_digits :: string where
  "hex_digits = ''0123456789abcdef''"

definition hex_digit :: "nat \<Rightarrow> char" where
  "hex_digit n = hex_digits ! (n mod 16)"

definition hex_encode :: "8 word list \<Rightarrow> string" where
  "hex_encode bs = concat (map (\<lambda>b. [hex_digit (unat b div 16), hex_digit (unat b mod 16)]) bs)"

lemma length_hex_encode [simp]: "length (hex_encode bs) = 2 * length bs"
  by (induction bs) (simp_all add: hex_encode_def)

lemma nat16_cases:
  "n < 16 \<Longrightarrow> n \<in> {0, 1, 2, 3, 4, 5, 6, 7, 8, 9, 10, 11, 12, 13, 14, 15 :: nat}"
  by (simp, presburger)

lemma hex_digit_inj: "m < 16 \<Longrightarrow> n < 16 \<Longrightarrow> hex_digit m = hex_digit n \<Longrightarrow> m = n"
  by (drule nat16_cases, drule nat16_cases) (auto simp: hex_digit_def hex_digits_def)

lemma hex_digit_mono: "m < n \<Longrightarrow> n < 16 \<Longrightarrow> hex_digit m < hex_digit n"
proof -
  assume "m < n" and "n < 16"
  then have "n \<in> {0..<16}" and "m \<in> {0..<16}" by auto
  moreover have "\<forall>n\<in>{0..<16::nat}. \<forall>m\<in>{0..<16}. m < n \<longrightarrow> hex_digit m < hex_digit n"
    by (simp add: atLeastLessThan_nat_numeral hex_digit_def hex_digits_def less_char_def)
  ultimately show ?thesis using \<open>m < n\<close> by blast
qed

end
