(* ===== verification/Model.thy ===== *)
theory Model
  imports Prelude
begin

text \<open>
  \<^verbatim>\<open>internal/model/model.go\<close>: the identifiers, the records every component exchanges and
  the errors. Go strings are byte sequences, here lists of 8-bit characters. The \<open>int64\<close>
  sizes are only compared and copied by the code that uses these records, so they are
  \<open>int\<close>; \<open>Generation\<close> is incremented, so it is a 64-bit word that wraps. Record
  selectors carry a one- or two-letter prefix because several Go structs share field names.
\<close>

section \<open>Identifiers\<close>

definition id_first_char :: "char \<Rightarrow> bool" where
  "id_first_char c \<longleftrightarrow>
     (CHR ''a'' \<le> c \<and> c \<le> CHR ''z'') \<or> (CHR ''A'' \<le> c \<and> c \<le> CHR ''Z'') \<or>
     (CHR ''0'' \<le> c \<and> c \<le> CHR ''9'')"

definition id_rest_char :: "char \<Rightarrow> bool" where
  "id_rest_char c \<longleftrightarrow> id_first_char c \<or> c \<in> {CHR ''.'', CHR ''_'', CHR ''-''}"

text \<open>The regular expression: one first character, then at most 127 more, anchored at both ends.\<close>

definition ValidID :: "string \<Rightarrow> bool" where
  "ValidID s \<longleftrightarrow>
     (case s of [] \<Rightarrow> False
      | c # cs \<Rightarrow> id_first_char c \<and> length cs \<le> 127 \<and> list_all id_rest_char cs)"

definition Driver :: string where
  "Driver = ''storage.example.cloud''"

definition RegionKey :: string where
  "RegionKey = ''topology.storage.example.cloud/region''"

definition ZoneKey :: string where
  "ZoneKey = ''topology.storage.example.cloud/zone''"

section \<open>Errors\<close>

text \<open>
  A Go \<open>error\<close> value: the service's own \<open>model.Error\<close>, the two context errors, an
  opaque error with a text (\<open>fmt.Errorf\<close>, \<open>errors.New\<close>, errors of the libraries), or an error
  that wraps another between two texts (\<open>fmt.Errorf\<close> with \<open>%w\<close>).
\<close>

datatype go_error =
    ModelError string string
  | ContextCanceled
  | DeadlineExceeded
  | PlainError string
  | WrappedError string go_error string

fun Error :: "go_error \<Rightarrow> string" where
  "Error (ModelError code message) = code @ '': '' @ message"
| "Error ContextCanceled = ''context canceled''"
| "Error DeadlineExceeded = ''context deadline exceeded''"
| "Error (PlainError text) = text"
| "Error (WrappedError pre e post) = pre @ Error e @ post"

definition Err :: "string \<Rightarrow> string \<Rightarrow> go_error option" where
  "Err code message = Some (ModelError code message)"

text \<open>\<open>errors.As\<close> for \<open>*model.Error\<close> and \<open>errors.Is\<close> walk the chain of wrapped errors.\<close>

fun errors_As_model :: "go_error \<Rightarrow> (string \<times> string) option" where
  "errors_As_model (ModelError code message) = Some (code, message)"
| "errors_As_model (WrappedError _ e _) = errors_As_model e"
| "errors_As_model _ = None"

fun errors_Is :: "go_error \<Rightarrow> go_error \<Rightarrow> bool" where
  "errors_Is e target \<longleftrightarrow> e = target \<or> (case e of WrappedError _ e' _ \<Rightarrow> errors_Is e' target | _ \<Rightarrow> False)"

declare errors_Is.simps [simp del]

section \<open>Records\<close>

record principal =
  pRole :: string
  pTenantID :: string
  pClusterID :: string
  pInstanceID :: string

record inst =
  iID :: string
  iTenantID :: string
  iClusterID :: string
  iRegion :: string
  iZone :: string
  iActive :: bool

record config =
  Principals :: "(string, principal) fmap"
  Instances :: "(string, inst) fmap"
  Zones :: "(string, string list) fmap"

record volume =
  vID :: string
  vTenantID :: string
  vClusterID :: string
  vName :: string
  vType :: string
  vRegion :: string
  vZone :: string
  vState :: string
  vMode :: string
  vFSType :: string
  vDeviceKey :: string
  vInitialSizeBytes :: int
  vSizeBytes :: int
  vDesiredSizeBytes :: int
  vGeneration :: "64 word"
  vAllowFormat :: bool
  vDeleteRequested :: bool
  vLastError :: string

record attachment =
  aID :: string
  aTenantID :: string
  aClusterID :: string
  aVolumeID :: string
  aInstanceID :: string
  aState :: string
  aGeneration :: "64 word"
  aDeleteRequested :: bool
  aUses :: "(string, bool) fmap"
  aLastError :: string

record request =
  rID :: string
  rName :: string
  rType :: string
  rRegion :: string
  rZone :: string
  rMode :: string
  rFSType :: string
  rVolumeID :: string
  rInstanceID :: string
  rAttachmentID :: string
  rUseID :: string
  rPodUID :: string
  rPodName :: string
  rNamespace :: string
  rServiceAccount :: string
  rSizeBytes :: int
  rGeneration :: "64 word"

record response =
  oVolume :: "volume option"
  oAttachment :: "attachment option"
  oInstance :: "inst option"

text \<open>Zero values, as Go's composite literals with missing fields and failed map lookups give them.\<close>

definition zero_instance :: inst where
  "zero_instance = \<lparr>iID = '''', iTenantID = '''', iClusterID = '''', iRegion = '''', iZone = '''',
     iActive = False\<rparr>"

definition zero_request :: request where
  "zero_request = \<lparr>rID = '''', rName = '''', rType = '''', rRegion = '''', rZone = '''', rMode = '''',
     rFSType = '''', rVolumeID = '''', rInstanceID = '''', rAttachmentID = '''', rUseID = '''',
     rPodUID = '''', rPodName = '''', rNamespace = '''', rServiceAccount = '''', rSizeBytes = 0,
     rGeneration = 0\<rparr>"

definition zero_response :: response where
  "zero_response = \<lparr>oVolume = None, oAttachment = None, oInstance = None\<rparr>"

definition zero_volume :: volume where
  "zero_volume = \<lparr>vID = '''', vTenantID = '''', vClusterID = '''', vName = '''', vType = '''',
     vRegion = '''', vZone = '''', vState = '''', vMode = '''', vFSType = '''', vDeviceKey = '''',
     vInitialSizeBytes = 0, vSizeBytes = 0, vDesiredSizeBytes = 0, vGeneration = 0,
     vAllowFormat = False, vDeleteRequested = False, vLastError = ''''\<rparr>"

lemma zero_response_simps [simp]:
  "oVolume zero_response = None" "oAttachment zero_response = None" "oInstance zero_response = None"
  by (simp_all add: zero_response_def)

lemma Err_simps [simp]: "Err c m \<noteq> None" "None \<noteq> Err c m"
  by (simp_all add: Err_def)

lemma Err_eq_Some [simp]: "Err c m = Some e \<longleftrightarrow> e = ModelError c m"
  by (auto simp: Err_def)

section \<open>What a valid identifier cannot contain\<close>

lemma id_first_char_not_special:
  "id_first_char c \<Longrightarrow> c \<notin> {CHR ''/'', CHR ''.'', CHR 0x00, CHR '' '', CHR ''-'', CHR ''_'', CHR '',''}"
  by (auto simp: id_first_char_def less_eq_char_def)

lemma id_rest_char_no_slash: "id_rest_char c \<Longrightarrow> c \<notin> {CHR ''/'', CHR 0x00, CHR '' '', CHR '',''}"
  using id_first_char_not_special by (auto simp: id_rest_char_def)

lemma ValidID_nonempty: "ValidID s \<Longrightarrow> s \<noteq> ''''"
  by (auto simp: ValidID_def)

lemma ValidID_length: "ValidID s \<Longrightarrow> length s \<le> 128"
  by (auto simp: ValidID_def split: list.splits)

text \<open>
  C27: an identifier the service accepts is one path component. It is never empty, \<open>.\<close> or \<open>..\<close>,
  holds no slash, blank, comma or NUL byte, and has at most 128 bytes, so joining it to the
  device root (as the Linux host does with the device key) cannot leave that directory.
\<close>

theorem ValidID_path_component:
  assumes "ValidID s"
  shows "s \<noteq> '''' \<and> s \<noteq> ''.'' \<and> s \<noteq> ''..'' \<and> length s \<le> 128
    \<and> set s \<inter> {CHR ''/'', CHR '' '', CHR '','', CHR 0x00} = {}"
proof -
  obtain c cs where s: "s = c # cs" and c: "id_first_char c" and cs: "list_all id_rest_char cs"
    using assms by (auto simp: ValidID_def split: list.splits)
  have "c \<notin> {CHR ''/'', CHR ''.'', CHR '' '', CHR '','', CHR 0x00}"
    using id_first_char_not_special [OF c] by auto
  moreover have "d \<notin> {CHR ''/'', CHR '' '', CHR '','', CHR 0x00}" if "d \<in> set cs" for d
    using id_rest_char_no_slash [of d] cs that by (auto simp: list_all_iff)
  ultimately show ?thesis
    using ValidID_length [OF assms] by (auto simp: s)
qed

theorem ValidID_path_component_witness:
  "ValidID ''platform-volume-0a'' \<and> ''platform-volume-0a'' \<noteq> ''..''"
proof -
  have v: "ValidID ''platform-volume-0a''"
    by (simp add: ValidID_def id_first_char_def id_rest_char_def less_eq_char_def)
  show ?thesis using ValidID_path_component [OF v] v by blast
qed

end
