(* ===== verification/Store.thy ===== *)
theory Store
  imports Model
begin

unbundle bit_operations_syntax

text \<open>
  \<^verbatim>\<open>internal/store/store.go\<close>: documents kept as encoded values under the keys of the bucket
  \<open>state\<close>, and an append-only bucket \<open>audit\<close>.

  bbolt and the wire encoding are arguments of the definitions. \<open>bolt\<close> holds the bucket
  operations of a transaction, \<open>codec\<close> the two directions of \<open>encoding/json\<close> for one type, and
  \<open>upd\<close> is \<open>DB.Update\<close>: it runs a function on the transaction, whose first argument is what the
  Go closure captures (it keeps its value when the transaction is rolled back). What the code
  relies on is stated by \<open>bolt_ok\<close>, \<open>codec_ok\<close> and \<open>atomic_update\<close>.
\<close>

section \<open>The database as a parameter\<close>

record ('tx, 'b) bolt =
  create_bucket :: "'tx \<Rightarrow> string \<Rightarrow> go_error + 'tx"
  bucket_get :: "'tx \<Rightarrow> string \<Rightarrow> string \<Rightarrow> 'b option"
  bucket_put :: "'tx \<Rightarrow> string \<Rightarrow> string \<Rightarrow> 'b \<Rightarrow> go_error + 'tx"
  next_sequence :: "'tx \<Rightarrow> string \<Rightarrow> go_error + 64 word \<times> 'tx"

record ('b, 'v) codec =
  marshal :: "'v \<Rightarrow> go_error + 'b"
  unmarshal :: "'b \<Rightarrow> 'v \<Rightarrow> go_error + 'v"

type_synonym ('c, 'tx) tx_fun = "'c \<Rightarrow> 'tx \<Rightarrow> go_error option \<times> 'c \<times> 'tx"

text \<open>A put is seen by later reads of its bucket and key and by no other; the sequence counter is
  kept apart from the entries.\<close>

definition bolt_ok :: "('tx, 'b) bolt \<Rightarrow> bool" where
  "bolt_ok B \<longleftrightarrow>
     (\<forall>tx b k v tx' b' k'. bucket_put B tx b k v = Inr tx' \<longrightarrow>
        bucket_get B tx' b' k' = (if b' = b \<and> k' = k then Some v else bucket_get B tx b' k')) \<and>
     (\<forall>tx b n tx' b' k'. next_sequence B tx b = Inr (n, tx') \<longrightarrow>
        bucket_get B tx' b' k' = bucket_get B tx b' k')"

text \<open>What is marshalled can be read back into the zero value the code passes to \<open>Unmarshal\<close>.\<close>

definition codec_ok :: "('b, 'v) codec \<Rightarrow> 'v \<Rightarrow> bool" where
  "codec_ok cd zero \<longleftrightarrow> (\<forall>v b. marshal cd v = Inr b \<longrightarrow> unmarshal cd b zero = Inr v)"

text \<open>
  \<open>Update\<close> commits when the function returns no error and rolls back when it does; it may also
  fail before the function runs or when it commits, and then nothing is stored.
\<close>

definition atomic_update :: "(('c, 'tx) tx_fun \<Rightarrow> ('c, 'tx) tx_fun) \<Rightarrow> bool" where
  "atomic_update upd \<longleftrightarrow>
     (\<forall>f c db.
        (case f c db of (e, c', db') \<Rightarrow>
           upd f c db = (e, c', if e = None then db' else db)
           \<or> (\<exists>x. upd f c db = (Some x, c', db)))
        \<or> (\<exists>x. upd f c db = (Some x, c, db)))"

text \<open>The cases of one update: committed, rolled back after the function ran, or never begun.\<close>

lemma atomic_update_cases:
  assumes "atomic_update upd" and "upd f c db = (e, c', db')"
  obtains
    (committed) "e = None" "f c db = (None, c', db')"
  | (rolled_back) e1 tx where "e \<noteq> None" "f c db = (e1, c', tx)" "db' = db"
  | (not_begun) "e \<noteq> None" "c' = c" "db' = db"
proof -
  obtain e1 c1 tx1 where f: "f c db = (e1, c1, tx1)" by (metis prod_cases3)
  have "upd f c db = (e1, c1, if e1 = None then tx1 else db)
      \<or> (\<exists>x. upd f c db = (Some x, c1, db)) \<or> (\<exists>x. upd f c db = (Some x, c, db))"
    using assms(1)[unfolded atomic_update_def, rule_format, of f c db] f by auto
  then consider "(e, c', db') = (e1, c1, if e1 = None then tx1 else db)"
    | x where "(e, c', db') = (Some x, c1, db)" | x where "(e, c', db') = (Some x, c, db)"
    using assms(2) by auto
  then show thesis
  proof cases
    case 1
    then show thesis using f committed rolled_back by (cases e1) auto
  next
    case 2
    then show thesis using f rolled_back by simp
  next
    case 3
    then show thesis using not_begun by simp
  qed
qed

lemma atomic_update_error:
  "atomic_update upd \<Longrightarrow> upd f c db = (Some e, c', db') \<Longrightarrow> db' = db"
  by (erule (1) atomic_update_cases) simp_all

section \<open>Read, Write, Audit\<close>

definition store_Read :: "('tx, 'b) bolt \<Rightarrow> ('b, 'v) codec \<Rightarrow> 'tx \<Rightarrow> string \<Rightarrow> 'v \<Rightarrow> go_error + 'v" where
  "store_Read B cd tx key out =
     (case bucket_get B tx ''state'' key of
        None \<Rightarrow> Inr out
      | Some b \<Rightarrow> unmarshal cd b out)"

definition store_Write :: "('tx, 'b) bolt \<Rightarrow> ('b, 'v) codec \<Rightarrow> 'tx \<Rightarrow> string \<Rightarrow> 'v \<Rightarrow> go_error + 'tx" where
  "store_Write B cd tx key v =
     (case marshal cd v of
        Inl e \<Rightarrow> Inl e
      | Inr b \<Rightarrow> bucket_put B tx ''state'' key b)"

text \<open>The loop of \<open>fmtSeq\<close>, from index 15 down to 0; the first argument is the next index plus one.\<close>

fun fmtSeq_loop :: "nat \<Rightarrow> 64 word \<Rightarrow> string \<Rightarrow> string" where
  "fmtSeq_loop 0 n b = b"
| "fmtSeq_loop (Suc i) n b =
     fmtSeq_loop i (drop_bit 4 n) (b[i := hex_digits ! unat (n AND 15)])"

definition fmtSeq :: "64 word \<Rightarrow> string" where
  "fmtSeq n = fmtSeq_loop 16 n (replicate 16 (CHR 0x00))"

definition audit_key :: "string \<Rightarrow> 64 word \<Rightarrow> string" where
  "audit_key now seq = now @ ''/'' @ fmtSeq seq"

definition store_Audit :: "('tx, 'b) bolt \<Rightarrow> ('b, 'v) codec \<Rightarrow> string \<Rightarrow> 'tx \<Rightarrow> 'v \<Rightarrow> go_error + 'tx" where
  "store_Audit B cd now tx v =
     (case marshal cd v of
        Inl e \<Rightarrow> Inl e
      | Inr b \<Rightarrow>
          (case next_sequence B tx ''audit'' of
             Inl e \<Rightarrow> Inl e
           | Inr (seq, tx) \<Rightarrow> bucket_put B tx ''audit'' (audit_key now seq) b))"

text \<open>
  \<open>Open\<close>: \<open>mkdir\<close> is the result of \<open>os.MkdirAll\<close>, \<open>opened\<close> that of \<open>bolt.Open\<close>. The second
  component of the result says whether the handle is closed again.
\<close>

fun create_buckets :: "('tx, 'b) bolt \<Rightarrow> string list \<Rightarrow> ('c, 'tx) tx_fun" where
  "create_buckets B [] c tx = (None, c, tx)"
| "create_buckets B (name # names) c tx =
     (case create_bucket B tx name of
        Inl e \<Rightarrow> (Some e, c, tx)
      | Inr tx \<Rightarrow> create_buckets B names c tx)"

definition store_Open ::
  "('tx, 'b) bolt \<Rightarrow> ((unit, 'tx) tx_fun \<Rightarrow> (unit, 'tx) tx_fun) \<Rightarrow> go_error option
     \<Rightarrow> go_error + 'tx \<Rightarrow> (go_error + 'tx) \<times> bool" where
  "store_Open B upd mkdir opened =
     (case mkdir of
        Some e \<Rightarrow> (Inl e, False)
      | None \<Rightarrow>
          (case opened of
             Inl e \<Rightarrow> (Inl e, False)
           | Inr db \<Rightarrow>
               (case upd (create_buckets B [''state'', ''audit'']) () db of
                  (Some e, _, db) \<Rightarrow> (Inl e, True)
                | (None, _, db) \<Rightarrow> (Inr db, False))))"

section \<open>Reading back what was written\<close>

lemma store_Write_get:
  assumes "bolt_ok B" and "store_Write B cd tx key v = Inr tx'"
  shows "\<exists>b. marshal cd v = Inr b
    \<and> bucket_get B tx' bk k = (if bk = ''state'' \<and> k = key then Some b else bucket_get B tx bk k)"
  using assms unfolding store_Write_def bolt_ok_def by (auto split: sum.splits)

lemma store_Read_Write:
  assumes "bolt_ok B" and "codec_ok cd zero" and "store_Write B cd tx key v = Inr tx'"
  shows "store_Read B cd tx' key zero = Inr v"
  using store_Write_get [OF assms(1,3), of "''state''" key] assms(2)
  by (auto simp: store_Read_def codec_ok_def)

lemma store_Audit_get_state:
  assumes "bolt_ok B" and "store_Audit B cd now tx v = Inr tx'"
  shows "bucket_get B tx' ''state'' k = bucket_get B tx ''state'' k"
  using assms unfolding store_Audit_def bolt_ok_def by (fastforce split: sum.splits prod.splits)

lemma store_Read_Audit:
  "bolt_ok B \<Longrightarrow> store_Audit B cda now tx v = Inr tx' \<Longrightarrow>
     store_Read B cd tx' key zero = store_Read B cd tx key zero"
  by (simp add: store_Read_def store_Audit_get_state)

section \<open>Transactions over one document\<close>

text \<open>
  The emulated cloud and the simulated host share one shape: read the document under a key, run
  a function on it, write it back unless the function failed.
\<close>

definition update_document ::
  "('tx, 'b) bolt \<Rightarrow> ('b, 'v) codec \<Rightarrow> (('c, 'tx) tx_fun \<Rightarrow> ('c, 'tx) tx_fun) \<Rightarrow> string \<Rightarrow> 'v
     \<Rightarrow> ('c, 'v) tx_fun \<Rightarrow> ('c, 'tx) tx_fun" where
  "update_document B cd upd key zero fn =
     upd (\<lambda>c tx.
       case store_Read B cd tx key zero of
         Inl e \<Rightarrow> (Some e, c, tx)
       | Inr m \<Rightarrow>
           (case fn c m of
              (Some e, c, _) \<Rightarrow> (Some e, c, tx)
            | (None, c, m) \<Rightarrow>
                (case store_Write B cd tx key m of
                   Inl e \<Rightarrow> (Some e, c, tx)
                 | Inr tx \<Rightarrow> (None, c, tx))))"

lemma update_document_cases:
  assumes B: "bolt_ok B" and cd: "codec_ok cd zero" and upd: "atomic_update upd"
    and run: "update_document B cd upd key zero fn c db = (e, c', db')"
  obtains (failed) "e \<noteq> None" "db' = db"
  | (completed) m m' where "e = None" "store_Read B cd db key zero = Inr m" "fn c m = (None, c', m')"
      "store_Read B cd db' key zero = Inr m'"
  using upd run[unfolded update_document_def]
proof (cases rule: atomic_update_cases)
  case committed
  then show thesis
    using store_Read_Write [OF B cd] completed by (auto split: sum.splits option.splits prod.splits)
qed (use failed in auto)

section \<open>A database in memory\<close>

text \<open>
  One database that satisfies the laws above: buckets in a finite map, sequence numbers counted
  per bucket, encoding the identity, every transaction committed. The concrete instances of
  the theorems run on it; no theorem depends on it.
\<close>

record 'b mem_db =
  mem_entries :: "(string \<times> string, 'b) fmap"
  mem_sequence :: "(string, 64 word) fmap"

definition mem_empty :: "'b mem_db" where
  "mem_empty = \<lparr>mem_entries = fmempty, mem_sequence = fmempty\<rparr>"

definition mem_bolt :: "('b mem_db, 'b) bolt" where
  "mem_bolt = \<lparr>
     create_bucket = (\<lambda>tx b. Inr tx),
     bucket_get = (\<lambda>tx b k. fmlookup (mem_entries tx) (b, k)),
     bucket_put = (\<lambda>tx b k v. Inr (tx\<lparr>mem_entries := fmupd (b, k) v (mem_entries tx)\<rparr>)),
     next_sequence = (\<lambda>tx b.
       let n = (case fmlookup (mem_sequence tx) b of None \<Rightarrow> 1 | Some n \<Rightarrow> n + 1)
       in Inr (n, tx\<lparr>mem_sequence := fmupd b n (mem_sequence tx)\<rparr>))\<rparr>"

definition mem_codec :: "('v \<Rightarrow> 'b) \<Rightarrow> ('b \<Rightarrow> 'v option) \<Rightarrow> ('b, 'v) codec" where
  "mem_codec to from = \<lparr>
     marshal = (\<lambda>v. Inr (to v)),
     unmarshal = (\<lambda>b v. case from b of
        None \<Rightarrow> Inl (PlainError ''json: cannot unmarshal'') | Some v \<Rightarrow> Inr v)\<rparr>"

definition mem_update :: "('c, 'tx) tx_fun \<Rightarrow> ('c, 'tx) tx_fun" where
  "mem_update f c db = (case f c db of (e, c', db') \<Rightarrow> (e, c', if e = None then db' else db))"

lemma bolt_ok_mem: "bolt_ok mem_bolt"
  by (auto simp: bolt_ok_def mem_bolt_def Let_def)

lemma codec_ok_mem: "(\<And>v. from (to v) = Some v) \<Longrightarrow> codec_ok (mem_codec to from) zero"
  by (auto simp: codec_ok_def mem_codec_def)

lemma atomic_update_mem: "atomic_update mem_update"
  by (auto simp: atomic_update_def mem_update_def split: prod.splits)

section \<open>The sequence text\<close>

text \<open>Fixed-width hexadecimal on \<open>nat\<close>, the reference for \<open>fmtSeq\<close>, and its value.\<close>

fun hex_width :: "nat \<Rightarrow> nat \<Rightarrow> string" where
  "hex_width 0 n = []"
| "hex_width (Suc w) n = hex_width w (n div 16) @ [hex_digit (n mod 16)]"

lemma length_hex_width [simp]: "length (hex_width w n) = w"
  by (induction w arbitrary: n) auto

lemma and_mask_digit: "unat (n AND 15) = unat (n :: 64 word) mod 16"
proof -
  have "n AND 15 = take_bit 4 n"
    by (simp add: take_bit_eq_mask mask_numeral)
  then show ?thesis
    by (simp add: take_bit_eq_mod unat_mod)
qed

lemma fmtSeq_loop_hex_width:
  "i \<le> length b \<Longrightarrow> fmtSeq_loop i n b = hex_width i (unat n) @ drop i b"
proof (induction i arbitrary: n b)
  case 0
  then show ?case by simp
next
  case (Suc i)
  have digit: "hex_digits ! unat (n AND 15) = hex_digit (unat n mod 16)"
    using and_mask_digit by (simp add: hex_digit_def)
  have shift: "unat (drop_bit 4 n) = unat n div 16"
    by (simp add: drop_bit_eq_div unat_div)
  have "fmtSeq_loop (Suc i) n b
      = hex_width i (unat n div 16) @ drop i (b[i := hex_digit (unat n mod 16)])"
    using Suc by (simp add: digit shift)
  also have "drop i (b[i := hex_digit (unat n mod 16)]) = hex_digit (unat n mod 16) # drop (Suc i) b"
    using Suc.prems by (simp add: Cons_nth_drop_Suc [symmetric])
  finally show ?case by simp
qed

lemma fmtSeq_hex_width: "fmtSeq n = hex_width 16 (unat n)"
  by (simp add: fmtSeq_def fmtSeq_loop_hex_width del: fmtSeq_loop.simps hex_width.simps)

lemma length_fmtSeq [simp]: "length (fmtSeq n) = 16"
  by (simp add: fmtSeq_hex_width del: hex_width.simps)

lemma snoc_less_iff:
  fixes xs ys :: string
  shows "length xs = length ys \<Longrightarrow> xs @ [a] < ys @ [b] \<longleftrightarrow> xs < ys \<or> xs = ys \<and> a < b"
  by (induction xs ys rule: list_induct2) auto

lemma hex_width_mono: "m < n \<Longrightarrow> n < 16 ^ w \<Longrightarrow> hex_width w m < hex_width w n"
proof (induction w arbitrary: m n)
  case 0
  then show ?case by simp
next
  case (Suc w)
  have n16: "n div 16 < 16 ^ w"
    using Suc.prems(2) by (simp add: less_mult_imp_div_less)
  consider "m div 16 < n div 16" | "m div 16 = n div 16" "m mod 16 < n mod 16"
    using Suc.prems(1) by (metis div_le_mono div_mult_mod_eq le_neq_implies_less less_imp_le
        nat_add_left_cancel_less)
  then show ?case
    by cases (auto simp: snoc_less_iff intro: Suc.IH n16 hex_digit_mono)
qed

lemma fmtSeq_strict_mono: "m < n \<Longrightarrow> fmtSeq m < fmtSeq n"
proof -
  assume "m < n"
  moreover have "unat n < 16 ^ 16"
    using unsigned_less [of n] by simp
  ultimately show ?thesis
    by (simp only: fmtSeq_hex_width word_less_nat_alt hex_width_mono)
qed

lemma fmtSeq_inj: "fmtSeq m = fmtSeq n \<Longrightarrow> m = n"
  by (metis fmtSeq_strict_mono less_irrefl neq_iff)

lemma append_less_append:
  "length t = length t' \<Longrightarrow> t @ x < t' @ y \<longleftrightarrow> t < t' \<or> t = t' \<and> x < (y :: string)"
  by (induction t t' rule: list_induct2) auto

text \<open>
  C26: audit keys are distinct, and ordered as far as their timestamps are. Two audit records share a key only when both the
  timestamp and the sequence number agree, so no record overwrites another one. bbolt orders keys bytewise: records whose
  timestamps have the same length are stored in the order of the timestamps, and of the sequence numbers, over the whole 64-bit
  range, when the timestamps are equal. (The timestamps of \<open>RFC3339Nano\<close> drop trailing zeros, so those of different lengths
  are not ordered by time.)
\<close>

theorem audit_key_injective_ordered:
  "(audit_key t m = audit_key t' n \<longleftrightarrow> t = t' \<and> m = n)
   \<and> (length t = length t' \<longrightarrow> (audit_key t m < audit_key t' n \<longleftrightarrow> t < t' \<or> t = t' \<and> m < n))
   \<and> length (fmtSeq n) = 16"
proof -
  have "audit_key t m = audit_key t' n \<longleftrightarrow> t = t' \<and> m = n"
    by (auto simp: audit_key_def dest: fmtSeq_inj)
  moreover have "fmtSeq m < fmtSeq n \<longleftrightarrow> m < n"
    by (metis fmtSeq_strict_mono not_less_iff_gr_or_eq)
  ultimately show ?thesis by (simp add: audit_key_def append_less_append)
qed

text \<open>Two records of one second, and one of the next.\<close>

theorem audit_key_injective_ordered_witness:
  "audit_key ''2024-01-01T00:00:00Z'' 9 < audit_key ''2024-01-01T00:00:00Z'' 16
   \<and> audit_key ''2024-01-01T00:00:00Z'' 16 < audit_key ''2024-01-01T00:00:01Z'' 3"
proof -
  have "length ''2024-01-01T00:00:00Z'' = length ''2024-01-01T00:00:00Z''"
    "length ''2024-01-01T00:00:00Z'' = length ''2024-01-01T00:00:01Z''" by simp_all
  from audit_key_injective_ordered [THEN conjunct2, THEN conjunct1, THEN mp, OF this(1), of 9 16]
    audit_key_injective_ordered [THEN conjunct2, THEN conjunct1, THEN mp, OF this(2), of 16 3]
  show ?thesis by (simp add: less_char_def)
qed

end
