(* ===== verification/Provider.thy ===== *)
theory Provider
  imports Store
begin

text \<open>
  \<^verbatim>\<open>internal/provider/provider.go\<close>: the cloud behind an interface, and the emulator
  \<open>Fake\<close> that keeps the disks in a database of its own. A \<open>provider\<close> is the Go interface as a
  record of functions on the cloud's state; the locale \<open>storage_provider\<close> states what the
  platform relies on; the emulator keeps it over every database with the laws of the store (the
  locale \<open>disk_store\<close> and its \<open>sublocale\<close>).
\<close>

section \<open>The interface\<close>

record disk =
  dID :: string
  dDeviceKey :: string
  dSizeBytes :: int
  dInstanceID :: string
  dAttachmentID :: string

definition zero_disk :: disk where
  "zero_disk = \<lparr>dID = '''', dDeviceKey = '''', dSizeBytes = 0, dInstanceID = '''', dAttachmentID = ''''\<rparr>"

text \<open>Of the context a call receives, the code reads only \<open>ctx.Err()\<close>.\<close>

type_synonym ctx = "go_error option"

record 'p provider =
  EnsureVolume :: "ctx \<Rightarrow> volume \<Rightarrow> 'p \<Rightarrow> (disk \<times> go_error option) \<times> 'p"
  GetVolume :: "ctx \<Rightarrow> string \<Rightarrow> 'p \<Rightarrow> (disk option \<times> go_error option) \<times> 'p"
  DeleteVolume :: "ctx \<Rightarrow> string \<Rightarrow> 'p \<Rightarrow> go_error option \<times> 'p"
  EnsureAttached :: "ctx \<Rightarrow> string \<Rightarrow> string \<Rightarrow> string \<Rightarrow> 'p \<Rightarrow> go_error option \<times> 'p"
  EnsureDetached :: "ctx \<Rightarrow> string \<Rightarrow> string \<Rightarrow> string \<Rightarrow> 'p \<Rightarrow> go_error option \<times> 'p"

section \<open>The emulator\<close>

type_synonym disks = "(string, disk) fmap"

definition fake_mutate ::
  "('tx, 'b) bolt \<Rightarrow> ('b, disks) codec \<Rightarrow> (('c, 'tx) tx_fun \<Rightarrow> ('c, 'tx) tx_fun)
     \<Rightarrow> ('c, disks) tx_fun \<Rightarrow> ('c, 'tx) tx_fun" where
  "fake_mutate B cd upd fn = update_document B cd upd ''disks'' fmempty fn"

text \<open>\<open>DB.View\<close>, the read-only transaction, is an argument as well.\<close>

definition atomic_view ::
  "(('c \<Rightarrow> 'tx \<Rightarrow> go_error option \<times> 'c) \<Rightarrow> 'c \<Rightarrow> 'tx \<Rightarrow> go_error option \<times> 'c) \<Rightarrow> bool" where
  "atomic_view vw \<longleftrightarrow>
     (\<forall>f c db. vw f c db = f c db \<or> (\<exists>x c'. vw f c db = (Some x, c')))"

definition mem_view :: "('c \<Rightarrow> 'tx \<Rightarrow> go_error option \<times> 'c) \<Rightarrow> 'c \<Rightarrow> 'tx \<Rightarrow> go_error option \<times> 'c" where
  "mem_view f = f"

lemma atomic_view_mem: "atomic_view mem_view"
  by (simp add: atomic_view_def mem_view_def)

definition fake_GetVolume ::
  "('tx, 'b) bolt \<Rightarrow> ('b, disks) codec
     \<Rightarrow> ((disk option \<Rightarrow> 'tx \<Rightarrow> go_error option \<times> disk option) \<Rightarrow> disk option \<Rightarrow> 'tx
            \<Rightarrow> go_error option \<times> disk option)
     \<Rightarrow> ctx \<Rightarrow> string \<Rightarrow> 'tx \<Rightarrow> (disk option \<times> go_error option) \<times> 'tx" where
  "fake_GetVolume B cd vw ctx vid db =
     (case vw (\<lambda>out tx.
             case store_Read B cd tx ''disks'' fmempty of
               Inl e \<Rightarrow> (Some e, out)
             | Inr m \<Rightarrow> (ctx, case fmlookup m vid of Some d \<Rightarrow> Some d | None \<Rightarrow> out))
           None db of
        (err, out) \<Rightarrow> ((out, err), db))"

definition fake_ensure_fn :: "ctx \<Rightarrow> volume \<Rightarrow> (disk, disks) tx_fun" where
  "fake_ensure_fn ctx v out m =
     (if ctx \<noteq> None then (ctx, out, m)
      else
        let d = (case fmlookup m (vID v) of
                   Some d \<Rightarrow> d
                 | None \<Rightarrow> zero_disk\<lparr>dID := vID v, dDeviceKey := ''platform-'' @ vID v\<rparr>);
            d = (if vDesiredSizeBytes v > dSizeBytes d then d\<lparr>dSizeBytes := vDesiredSizeBytes v\<rparr> else d)
        in (None, d, fmupd (vID v) d m))"

definition fake_EnsureVolume ::
  "('tx, 'b) bolt \<Rightarrow> ('b, disks) codec \<Rightarrow> ((disk, 'tx) tx_fun \<Rightarrow> (disk, 'tx) tx_fun)
     \<Rightarrow> ctx \<Rightarrow> volume \<Rightarrow> 'tx \<Rightarrow> (disk \<times> go_error option) \<times> 'tx" where
  "fake_EnsureVolume B cd upd ctx v db =
     (case fake_mutate B cd upd (fake_ensure_fn ctx v) zero_disk db of
        (err, out, db) \<Rightarrow> ((out, err), db))"

text \<open>\<open>m[id].InstanceID\<close> of an absent key is the empty string of the zero \<open>Disk\<close>.\<close>

definition fake_delete_fn :: "ctx \<Rightarrow> string \<Rightarrow> (disk, disks) tx_fun" where
  "fake_delete_fn ctx vid c m =
     (if ctx \<noteq> None then (ctx, c, m)
      else if dInstanceID (case fmlookup m vid of Some d \<Rightarrow> d | None \<Rightarrow> zero_disk) \<noteq> ''''
      then (Some (PlainError ''disk still attached''), c, m)
      else (None, c, fmdrop vid m))"

definition fake_attach_fn :: "ctx \<Rightarrow> string \<Rightarrow> string \<Rightarrow> string \<Rightarrow> (disk, disks) tx_fun" where
  "fake_attach_fn ctx vid vm attachment c m =
     (if ctx \<noteq> None then (ctx, c, m)
      else
        case fmlookup m vid of
          None \<Rightarrow> (Some (PlainError ''disk missing''), c, m)
        | Some d \<Rightarrow>
            if dInstanceID d \<noteq> '''' \<and> (dInstanceID d \<noteq> vm \<or> dAttachmentID d \<noteq> attachment)
            then (Some (PlainError ''cloud single writer conflict''), c, m)
            else (None, c, fmupd vid (d\<lparr>dInstanceID := vm, dAttachmentID := attachment\<rparr>) m))"

definition fake_detach_fn :: "ctx \<Rightarrow> string \<Rightarrow> string \<Rightarrow> string \<Rightarrow> (disk, disks) tx_fun" where
  "fake_detach_fn ctx vid vm attachment c m =
     (if ctx \<noteq> None then (ctx, c, m)
      else
        case fmlookup m vid of
          None \<Rightarrow> (None, c, m)
        | Some d \<Rightarrow>
            if dInstanceID d = '''' then (None, c, m)
            else if dInstanceID d \<noteq> vm \<or> dAttachmentID d \<noteq> attachment
            then (Some (PlainError ''cloud attachment identity mismatch''), c, m)
            else (None, c, fmupd vid (d\<lparr>dInstanceID := '''', dAttachmentID := ''''\<rparr>) m))"

text \<open>The three mutations whose closures capture no result share this call.\<close>

definition fake_run ::
  "('tx, 'b) bolt \<Rightarrow> ('b, disks) codec \<Rightarrow> ((disk, 'tx) tx_fun \<Rightarrow> (disk, 'tx) tx_fun)
     \<Rightarrow> (disk, disks) tx_fun \<Rightarrow> 'tx \<Rightarrow> go_error option \<times> 'tx" where
  "fake_run B cd upd fn db =
     (case fake_mutate B cd upd fn zero_disk db of (err, _, db) \<Rightarrow> (err, db))"

definition fake_provider ::
  "('tx, 'b) bolt \<Rightarrow> ('b, disks) codec \<Rightarrow> ((disk, 'tx) tx_fun \<Rightarrow> (disk, 'tx) tx_fun)
     \<Rightarrow> ((disk option \<Rightarrow> 'tx \<Rightarrow> go_error option \<times> disk option) \<Rightarrow> disk option \<Rightarrow> 'tx
            \<Rightarrow> go_error option \<times> disk option)
     \<Rightarrow> 'tx provider" where
  "fake_provider B cd upd vw = \<lparr>
     EnsureVolume = fake_EnsureVolume B cd upd,
     GetVolume = fake_GetVolume B cd vw,
     DeleteVolume = (\<lambda>ctx vid. fake_run B cd upd (fake_delete_fn ctx vid)),
     EnsureAttached = (\<lambda>ctx vid vm att. fake_run B cd upd (fake_attach_fn ctx vid vm att)),
     EnsureDetached = (\<lambda>ctx vid vm att. fake_run B cd upd (fake_detach_fn ctx vid vm att))\<rparr>"

section \<open>The contract\<close>

text \<open>
  What the platform relies on. \<open>disks_of\<close> is the observable content of the cloud: for each
  volume ID the disk, if there is one. Every operation either leaves the content as it was, and
  then reports success only when its goal already held, or makes exactly its own change, and
  then may still report an error (a response lost after the change). No operation touches a
  disk other than the one it names; attaching never takes a disk from another attachment.
\<close>

definition attached_to :: "disk \<Rightarrow> string \<Rightarrow> string \<Rightarrow> bool" where
  "attached_to d vm att \<longleftrightarrow> dInstanceID d = vm \<and> dAttachmentID d = att"

definition grown_disk :: "volume \<Rightarrow> disk option \<Rightarrow> disk \<Rightarrow> bool" where
  "grown_disk v old d \<longleftrightarrow> vDesiredSizeBytes v \<le> dSizeBytes d \<and>
     (case old of
        None \<Rightarrow> dInstanceID d = '''' \<and> dAttachmentID d = ''''
      | Some d0 \<Rightarrow> dSizeBytes d0 \<le> dSizeBytes d \<and> dDeviceKey d = dDeviceKey d0 \<and>
          dInstanceID d = dInstanceID d0 \<and> dAttachmentID d = dAttachmentID d0)"

locale storage_provider =
  fixes P :: "'p provider"
    and disks_of :: "'p \<Rightarrow> string \<Rightarrow> disk option"
  assumes get_volume:
    "GetVolume P ctx i p = ((out, e), p') \<Longrightarrow> disks_of p' = disks_of p \<and> (e = None \<longrightarrow> out = disks_of p i)"
  and ensure_volume:
    "EnsureVolume P ctx v p = ((d, e), p') \<Longrightarrow>
       (disks_of p' = disks_of p \<and> e \<noteq> None)
       \<or> (\<exists>d'. disks_of p' = (disks_of p)(vID v \<mapsto> d') \<and> grown_disk v (disks_of p (vID v)) d'
            \<and> (e = None \<longrightarrow> d = d'))"
  and delete_volume:
    "DeleteVolume P ctx i p = (e, p') \<Longrightarrow>
       (disks_of p' = disks_of p \<and> (e = None \<longrightarrow> disks_of p i = None))
       \<or> (disks_of p' = (disks_of p)(i := None)
            \<and> (\<forall>d. disks_of p i = Some d \<longrightarrow> dInstanceID d = ''''))"
  and ensure_attached:
    "EnsureAttached P ctx i vm att p = (e, p') \<Longrightarrow>
       (disks_of p' = disks_of p
            \<and> (e = None \<longrightarrow> (\<exists>d. disks_of p i = Some d \<and> attached_to d vm att)))
       \<or> (\<exists>d. disks_of p i = Some d \<and> (dInstanceID d = '''' \<or> attached_to d vm att)
            \<and> disks_of p' = (disks_of p)(i \<mapsto> d\<lparr>dInstanceID := vm, dAttachmentID := att\<rparr>))"
  and ensure_detached:
    "EnsureDetached P ctx i vm att p = (e, p') \<Longrightarrow>
       (disks_of p' = disks_of p
            \<and> (e = None \<longrightarrow> (\<forall>d. disks_of p i = Some d \<longrightarrow> dInstanceID d = '''')))
       \<or> (\<exists>d. disks_of p i = Some d \<and> attached_to d vm att
            \<and> disks_of p' = (disks_of p)(i \<mapsto> d\<lparr>dInstanceID := '''', dAttachmentID := ''''\<rparr>))"

context storage_provider
begin

text \<open>What a caller may conclude from the laws: who holds a disk, and what can change it.\<close>

lemma attach_success:
  "EnsureAttached P ctx i vm att p = (None, p') \<Longrightarrow> \<exists>d. disks_of p' i = Some d \<and> attached_to d vm att"
  by (drule ensure_attached) (auto simp: attached_to_def)

lemma attach_other:
  assumes "disks_of p i = Some d" and "dInstanceID d \<noteq> ''''" and "\<not> attached_to d vm att"
    and "EnsureAttached P ctx i vm att p = (e, p')"
  shows "e \<noteq> None \<and> disks_of p' = disks_of p"
  using ensure_attached [OF assms(4)] assms(1-3) by auto

lemma detach_other:
  assumes "disks_of p i = Some d" and "dInstanceID d \<noteq> ''''" and "\<not> attached_to d vm att"
    and "EnsureDetached P ctx i vm att p = (e, p')"
  shows "e \<noteq> None \<and> disks_of p' = disks_of p"
  using ensure_detached [OF assms(4)] assms(1-3) by auto

lemma delete_attached:
  assumes "disks_of p i = Some d" and "dInstanceID d \<noteq> ''''" and "DeleteVolume P ctx i p = (e, p')"
  shows "e \<noteq> None \<and> disks_of p' = disks_of p"
  using delete_volume [OF assms(3)] assms(1,2) by auto

lemma attach_exclusive:
  assumes "vm \<noteq> ''''" and "EnsureAttached P ctx i vm att p = (None, p1)"
  shows "(\<exists>d. disks_of p1 i = Some d \<and> attached_to d vm att)
    \<and> (\<forall>ctx' vm' att' e p2. (vm', att') \<noteq> (vm, att) \<longrightarrow>
         EnsureAttached P ctx' i vm' att' p1 = (e, p2) \<longrightarrow> e \<noteq> None \<and> disks_of p2 = disks_of p1)
    \<and> (\<forall>ctx' vm' att' e p2. (vm', att') \<noteq> (vm, att) \<longrightarrow>
         EnsureDetached P ctx' i vm' att' p1 = (e, p2) \<longrightarrow> e \<noteq> None \<and> disks_of p2 = disks_of p1)
    \<and> (\<forall>ctx' e p2. DeleteVolume P ctx' i p1 = (e, p2) \<longrightarrow> e \<noteq> None \<and> disks_of p2 = disks_of p1)"
proof -
  obtain d where d: "disks_of p1 i = Some d" "attached_to d vm att"
    using attach_success [OF assms(2)] by auto
  moreover from d(2) assms(1) have "dInstanceID d \<noteq> ''''"
    by (simp add: attached_to_def)
  moreover from d(2) have "\<not> attached_to d vm' att'" if "(vm', att') \<noteq> (vm, att)" for vm' att'
    using that by (auto simp: attached_to_def)
  ultimately show ?thesis
    by (meson attach_other detach_other delete_attached)
qed

end

text \<open>A provider that answers: with a live context every request that the contract allows succeeds.\<close>

locale reliable_provider = storage_provider P disks_of
  for P :: "'p provider" and disks_of :: "'p \<Rightarrow> string \<Rightarrow> disk option" +
  fixes up :: "'p \<Rightarrow> bool"
  assumes up_get: "up p \<Longrightarrow> \<exists>x p'. GetVolume P None i p = ((x, None), p') \<and> up p'"
    and up_ensure: "up p \<Longrightarrow> \<exists>d p'. EnsureVolume P None v p = ((d, None), p') \<and> up p'"
    and up_delete: "up p \<Longrightarrow> (\<And>d. disks_of p i = Some d \<Longrightarrow> dInstanceID d = '''') \<Longrightarrow>
      \<exists>p'. DeleteVolume P None i p = (None, p') \<and> up p'"
    and up_attach: "up p \<Longrightarrow> disks_of p i = Some d \<Longrightarrow> dInstanceID d = '''' \<or> attached_to d vm att \<Longrightarrow>
      \<exists>p'. EnsureAttached P None i vm att p = (None, p') \<and> up p'"
    and up_detach: "up p \<Longrightarrow> (\<And>d. disks_of p i = Some d \<Longrightarrow> dInstanceID d = '''' \<or> attached_to d vm att) \<Longrightarrow>
      \<exists>p'. EnsureDetached P None i vm att p = (None, p') \<and> up p'"

section \<open>The emulator keeps the contract\<close>

definition fake_disks :: "('tx, 'b) bolt \<Rightarrow> ('b, disks) codec \<Rightarrow> 'tx \<Rightarrow> string \<Rightarrow> disk option" where
  "fake_disks B cd db =
     (case store_Read B cd db ''disks'' fmempty of Inl _ \<Rightarrow> Map.empty | Inr m \<Rightarrow> fmlookup m)"

lemma fake_mutate_cases:
  assumes "bolt_ok B" and "codec_ok cd fmempty" and "atomic_update upd"
    and "fake_mutate B cd upd fn c db = (e, c', db')"
  obtains (failed) "e \<noteq> None" "fake_disks B cd db' = fake_disks B cd db"
  | (completed) m m' where "e = None" "fake_disks B cd db = fmlookup m" "fn c m = (None, c', m')"
      "fake_disks B cd db' = fmlookup m'"
  using assms(1-3) assms(4)[unfolded fake_mutate_def]
  by (cases rule: update_document_cases) (auto simp: fake_disks_def)

lemma fake_run_cases:
  assumes "bolt_ok B" and "codec_ok cd fmempty" and "atomic_update upd"
    and "fake_run B cd upd fn db = (e, db')"
  obtains (failed) "e \<noteq> None" "fake_disks B cd db' = fake_disks B cd db"
  | (completed) c' m m' where "e = None" "fake_disks B cd db = fmlookup m"
      "fn zero_disk m = (None, c', m')" "fake_disks B cd db' = fmlookup m'"
proof -
  obtain c' where "fake_mutate B cd upd fn zero_disk db = (e, c', db')"
    using assms(4) by (auto simp: fake_run_def split: prod.splits)
  with assms(1-3) show thesis
    by (cases rule: fake_mutate_cases) (use failed completed in blast)+
qed

lemma fmlookup_fmupd_fun [simp]: "fmlookup (fmupd k v m) = (fmlookup m)(k \<mapsto> v)"
  by (auto simp: fun_eq_iff)

lemma fmlookup_fmdrop_fun [simp]: "fmlookup (fmdrop k m) = (fmlookup m)(k := None)"
  by (auto simp: fun_eq_iff)

lemma fake_GetVolume_result:
  assumes vw: "atomic_view vw" and get: "fake_GetVolume B cd vw ctx vid db = ((out, e), db')"
  shows "db' = db \<and> (e = None \<longrightarrow> out = fake_disks B cd db vid)"
proof -
  define f where "f = (\<lambda>out tx.
      case store_Read B cd tx ''disks'' fmempty of
        Inl e \<Rightarrow> (Some e, out)
      | Inr m \<Rightarrow> (ctx, case fmlookup m vid of Some d \<Rightarrow> Some d | None \<Rightarrow> out))"
  have "vw f None db = (e, out)" and "db' = db"
    using get by (auto simp: fake_GetVolume_def f_def split: prod.splits)
  moreover have "vw f None db = f None db \<or> (\<exists>x c'. vw f None db = (Some x, c'))"
    using vw by (simp add: atomic_view_def)
  ultimately show ?thesis
    by (auto simp: f_def fake_disks_def split: sum.splits option.splits)
qed

lemma fake_GetVolume_law:
  assumes "atomic_view vw" and "GetVolume (fake_provider B cd upd vw) ctx i p = ((out, e), p')"
  shows "fake_disks B cd p' = fake_disks B cd p \<and> (e = None \<longrightarrow> out = fake_disks B cd p i)"
  using assms(2) by (auto simp: fake_provider_def dest: fake_GetVolume_result [OF assms(1)])

lemma fake_EnsureVolume_law:
  assumes "bolt_ok B" and "codec_ok cd fmempty" and "atomic_update upd"
    and "EnsureVolume (fake_provider B cd upd vw) ctx v p = ((d, e), p')"
  shows "(fake_disks B cd p' = fake_disks B cd p \<and> e \<noteq> None)
      \<or> (\<exists>d'. fake_disks B cd p' = (fake_disks B cd p)(vID v \<mapsto> d')
           \<and> grown_disk v (fake_disks B cd p (vID v)) d' \<and> (e = None \<longrightarrow> d = d'))"
proof -
  have "fake_mutate B cd upd (fake_ensure_fn ctx v) zero_disk p = (e, d, p')"
    using assms(4) by (auto simp: fake_provider_def fake_EnsureVolume_def split: prod.splits)
  with assms(1-3) show ?thesis
    by (cases rule: fake_mutate_cases)
      (auto simp: fake_ensure_fn_def Let_def grown_disk_def zero_disk_def
        split: if_splits option.splits)
qed

lemma fake_DeleteVolume_law:
  assumes "bolt_ok B" and "codec_ok cd fmempty" and "atomic_update upd"
    and "DeleteVolume (fake_provider B cd upd vw) ctx i p = (e, p')"
  shows "(fake_disks B cd p' = fake_disks B cd p \<and> (e = None \<longrightarrow> fake_disks B cd p i = None))
      \<or> (fake_disks B cd p' = (fake_disks B cd p)(i := None)
           \<and> (\<forall>d. fake_disks B cd p i = Some d \<longrightarrow> dInstanceID d = ''''))"
proof -
  have "fake_run B cd upd (fake_delete_fn ctx i) p = (e, p')"
    using assms(4) by (simp add: fake_provider_def)
  with assms(1-3) show ?thesis
    by (cases rule: fake_run_cases) (auto simp: fake_delete_fn_def split: if_splits)
qed

lemma fake_EnsureAttached_law:
  assumes "bolt_ok B" and "codec_ok cd fmempty" and "atomic_update upd"
    and "EnsureAttached (fake_provider B cd upd vw) ctx i vm att p = (e, p')"
  shows "(fake_disks B cd p' = fake_disks B cd p
           \<and> (e = None \<longrightarrow> (\<exists>d. fake_disks B cd p i = Some d \<and> attached_to d vm att)))
      \<or> (\<exists>d. fake_disks B cd p i = Some d \<and> (dInstanceID d = '''' \<or> attached_to d vm att)
           \<and> fake_disks B cd p' = (fake_disks B cd p)(i \<mapsto> d\<lparr>dInstanceID := vm, dAttachmentID := att\<rparr>))"
proof -
  have "fake_run B cd upd (fake_attach_fn ctx i vm att) p = (e, p')"
    using assms(4) by (simp add: fake_provider_def)
  with assms(1-3) show ?thesis
    by (cases rule: fake_run_cases)
      (auto simp: fake_attach_fn_def attached_to_def split: if_splits option.splits)
qed

lemma fake_EnsureDetached_law:
  assumes "bolt_ok B" and "codec_ok cd fmempty" and "atomic_update upd"
    and "EnsureDetached (fake_provider B cd upd vw) ctx i vm att p = (e, p')"
  shows "(fake_disks B cd p' = fake_disks B cd p
           \<and> (e = None \<longrightarrow> (\<forall>d. fake_disks B cd p i = Some d \<longrightarrow> dInstanceID d = '''')))
      \<or> (\<exists>d. fake_disks B cd p i = Some d \<and> attached_to d vm att
           \<and> fake_disks B cd p' = (fake_disks B cd p)(i \<mapsto> d\<lparr>dInstanceID := '''', dAttachmentID := ''''\<rparr>))"
proof -
  have "fake_run B cd upd (fake_detach_fn ctx i vm att) p = (e, p')"
    using assms(4) by (simp add: fake_provider_def)
  with assms(1-3) show ?thesis
    by (cases rule: fake_run_cases)
      (auto simp: fake_detach_fn_def attached_to_def split: if_splits option.splits)
qed

text \<open>Any database that keeps the laws of the store, with its codec for the disks.\<close>

locale disk_store =
  fixes B :: "('tx, 'b) bolt"
    and cd :: "('b, disks) codec"
    and upd :: "(disk, 'tx) tx_fun \<Rightarrow> (disk, 'tx) tx_fun"
    and vw :: "(disk option \<Rightarrow> 'tx \<Rightarrow> go_error option \<times> disk option) \<Rightarrow> disk option \<Rightarrow> 'tx
        \<Rightarrow> go_error option \<times> disk option"
  assumes bolt: "bolt_ok B" and codec: "codec_ok cd fmempty" and update: "atomic_update upd"
    and view: "atomic_view vw"

sublocale disk_store \<subseteq> fake: storage_provider "fake_provider B cd upd vw" "fake_disks B cd"
  by standard
    (rule fake_GetVolume_law [OF view] fake_EnsureVolume_law [OF bolt codec update]
      fake_DeleteVolume_law [OF bolt codec update] fake_EnsureAttached_law [OF bolt codec update]
      fake_EnsureDetached_law [OF bolt codec update], assumption)+

context disk_store
begin

lemmas fake_exclusive = fake.attach_exclusive

end

section \<open>The emulator on the in-memory database\<close>

definition mem_cloud :: "disks mem_db provider" where
  "mem_cloud = fake_provider mem_bolt (mem_codec (\<lambda>m. m) Some) mem_update mem_view"

definition mem_cloud_disks :: "disks mem_db \<Rightarrow> string \<Rightarrow> disk option" where
  "mem_cloud_disks = fake_disks mem_bolt (mem_codec (\<lambda>m. m) Some)"

lemma disk_store_mem: "disk_store mem_bolt (mem_codec (\<lambda>m. m) Some) mem_update mem_view"
  by unfold_locales (simp_all add: bolt_ok_mem codec_ok_mem atomic_update_mem atomic_view_mem)

interpretation mem_store: disk_store mem_bolt "mem_codec (\<lambda>m. m) Some" mem_update mem_view
  by (rule disk_store_mem)

interpretation mem_fake: storage_provider mem_cloud mem_cloud_disks
  unfolding mem_cloud_def mem_cloud_disks_def by (rule mem_store.fake.storage_provider_axioms)

lemma mem_cloud_disks_read: "mem_cloud_disks p = fmlookup
    (case fmlookup (mem_entries p) (''state'', ''disks'') of None \<Rightarrow> fmempty | Some m \<Rightarrow> m)"
  by (auto simp: mem_cloud_disks_def fake_disks_def store_Read_def mem_bolt_def mem_codec_def fun_eq_iff
      split: option.split)

text \<open>In memory nothing fails, so the emulator answers in every state.\<close>

interpretation mem_reliable: reliable_provider mem_cloud mem_cloud_disks "\<lambda>_. True"
  by unfold_locales
    (auto simp: mem_cloud_disks_read mem_cloud_def fake_provider_def fake_run_def fake_mutate_def
      update_document_def mem_update_def mem_view_def store_Read_def store_Write_def mem_bolt_def mem_codec_def
      fake_GetVolume_def fake_EnsureVolume_def fake_ensure_fn_def fake_delete_fn_def fake_attach_fn_def
      fake_detach_fn_def attached_to_def zero_disk_def Let_def split: option.splits)

text \<open>
  C25: the emulated cloud is single-writer. Over any database with the bbolt laws, with arbitrary
  transaction failures and any context, once \<open>EnsureAttached\<close> has succeeded for a VM and an
  attachment the disk is attached to exactly that pair; attaching it to any other pair,
  detaching it in the name of any other pair, and deleting it all fail and change no disk.
\<close>

theorem fake_attach_exclusive:
  assumes "bolt_ok B" and "codec_ok cd fmempty" and "atomic_update upd" and "atomic_view vw"
    and "vm \<noteq> ''''"
    and "EnsureAttached (fake_provider B cd upd vw) ctx i vm att p = (None, p1)"
  shows "(\<exists>d. fake_disks B cd p1 i = Some d \<and> attached_to d vm att)
    \<and> (\<forall>ctx' vm' att' e p2. (vm', att') \<noteq> (vm, att) \<longrightarrow>
         EnsureAttached (fake_provider B cd upd vw) ctx' i vm' att' p1 = (e, p2)
           \<longrightarrow> e \<noteq> None \<and> fake_disks B cd p2 = fake_disks B cd p1)
    \<and> (\<forall>ctx' vm' att' e p2. (vm', att') \<noteq> (vm, att) \<longrightarrow>
         EnsureDetached (fake_provider B cd upd vw) ctx' i vm' att' p1 = (e, p2)
           \<longrightarrow> e \<noteq> None \<and> fake_disks B cd p2 = fake_disks B cd p1)
    \<and> (\<forall>ctx' e p2. DeleteVolume (fake_provider B cd upd vw) ctx' i p1 = (e, p2)
           \<longrightarrow> e \<noteq> None \<and> fake_disks B cd p2 = fake_disks B cd p1)"
  by (rule disk_store.fake_exclusive [OF disk_store.intro assms(5,6)]) (rule assms)+

definition example_cloud :: "disks mem_db" where
  "example_cloud = mem_empty\<lparr>mem_entries := fmupd (''state'', ''disks'')
     (fmupd ''volume-1'' (zero_disk\<lparr>dID := ''volume-1'', dSizeBytes := 10\<rparr>) fmempty) fmempty\<rparr>"

theorem fake_attach_exclusive_witness:
  "\<exists>p1 p2 e. EnsureAttached mem_cloud None ''volume-1'' ''vm-a'' ''attachment-1'' example_cloud = (None, p1)
     \<and> EnsureAttached mem_cloud None ''volume-1'' ''vm-b'' ''attachment-2'' p1 = (e, p2) \<and> e \<noteq> None"
proof -
  have a: "\<exists>p1. EnsureAttached mem_cloud None ''volume-1'' ''vm-a'' ''attachment-1'' example_cloud = (None, p1)"
    by (simp add: mem_cloud_def fake_provider_def fake_run_def fake_mutate_def update_document_def
        mem_update_def store_Read_def store_Write_def mem_bolt_def mem_codec_def mem_empty_def
        example_cloud_def fake_attach_fn_def zero_disk_def)
  then obtain p1 where p1:
    "EnsureAttached mem_cloud None ''volume-1'' ''vm-a'' ''attachment-1'' example_cloud = (None, p1)" ..
  obtain e p2 where p2: "EnsureAttached mem_cloud None ''volume-1'' ''vm-b'' ''attachment-2'' p1 = (e, p2)"
    by fastforce
  have "\<forall>ctx' vm' att' e p2. (vm', att') \<noteq> (''vm-a'', ''attachment-1'') \<longrightarrow>
      EnsureAttached mem_cloud ctx' ''volume-1'' vm' att' p1 = (e, p2) \<longrightarrow> e \<noteq> None
        \<and> fake_disks mem_bolt (mem_codec (\<lambda>m. m) Some) p2 = fake_disks mem_bolt (mem_codec (\<lambda>m. m) Some) p1"
    unfolding mem_cloud_def
    by (rule fake_attach_exclusive [THEN conjunct2, THEN conjunct1])
      (use p1 in \<open>simp_all add: mem_cloud_def bolt_ok_mem codec_ok_mem atomic_update_mem atomic_view_mem\<close>)
  from this [rule_format, of "''vm-b''" "''attachment-2''" None e p2] p2 have "e \<noteq> None"
    by simp
  with p1 p2 show ?thesis by blast
qed

end
