(* ===== verification/Engine.thy ===== *)
theory Engine
  imports Provider
begin

text \<open>
  \<^verbatim>\<open>internal/platform/engine.go\<close>, the part that serves calls: \<open>apply\<close> for controllers, \<open>node\<close>
  for node agents, and \<open>Call\<close>, which runs either inside a database transaction and audits it.

  The Go code mutates the entries of the two maps through pointers and returns some of the same
  pointers in the response; the model returns the new state, and responses hold the final
  values. What the runtime chooses for a call (the context, the two readings of the clock, for the
  audit record and for its key, the random bytes of a
  new ID, the order of each range loop) is in the record \<open>call_env\<close>.
\<close>

section \<open>State and environment\<close>

record platform =
  Volumes :: "(string, volume) fmap"
  Attachments :: "(string, attachment) fmap"

definition zero_platform :: platform where
  "zero_platform = \<lparr>Volumes = fmempty, Attachments = fmempty\<rparr>"

record call_env =
  eCtx :: ctx
  eNow :: string
  eKeyTime :: string
  eRandom :: "8 word list"
  eVolumes :: "string list"
  eAttachments :: "string list"

definition env_for :: "call_env \<Rightarrow> platform \<Rightarrow> bool" where
  "env_for env s \<longleftrightarrow> enumerates (eVolumes env) (Volumes s) \<and> enumerates (eAttachments env) (Attachments s)"

type_synonym outcome = "response \<times> go_error option \<times> platform"

definition platform_read :: "('tx, 'b) bolt \<Rightarrow> ('b, platform) codec \<Rightarrow> 'tx \<Rightarrow> go_error + platform" where
  "platform_read B cd tx = store_Read B cd tx ''platform'' zero_platform"

definition newID :: "string \<Rightarrow> 8 word list \<Rightarrow> string" where
  "newID prefix rnd = prefix @ hex_encode rnd"

definition owned :: "principal \<Rightarrow> volume option \<Rightarrow> bool" where
  "owned p v = (case v of
     None \<Rightarrow> False
   | Some v \<Rightarrow> vTenantID v = pTenantID p \<and> vClusterID v = pClusterID p)"

definition engine_instance :: "config \<Rightarrow> principal \<Rightarrow> string \<Rightarrow> inst \<times> go_error option" where
  "engine_instance cfg p i =
     (case fmlookup (Instances cfg) i of
        None \<Rightarrow> (zero_instance, Err ''PermissionDenied'' ''instance outside active principal scope'')
      | Some x \<Rightarrow>
          if \<not> iActive x \<or> iTenantID x \<noteq> pTenantID p \<or> iClusterID x \<noteq> pClusterID p
          then (x, Err ''PermissionDenied'' ''instance outside active principal scope'')
          else (x, None))"

definition live :: "attachment \<Rightarrow> bool" where
  "live a \<longleftrightarrow> aState a \<noteq> ''DETACHED''"

definition active :: "string list \<Rightarrow> platform \<Rightarrow> string \<Rightarrow> bool" where
  "active ks s v \<longleftrightarrow>
     list_ex (\<lambda>a. aVolumeID a = v \<and> live a) (range_values (Attachments s) ks)"

abbreviation respond_volume :: "volume \<Rightarrow> response" where
  "respond_volume v \<equiv> zero_response\<lparr>oVolume := Some v\<rparr>"

abbreviation respond_attachment :: "attachment \<Rightarrow> response" where
  "respond_attachment a \<equiv> zero_response\<lparr>oAttachment := Some a\<rparr>"

abbreviation respond_use :: "attachment \<Rightarrow> volume option \<Rightarrow> response" where
  "respond_use a v \<equiv> zero_response\<lparr>oAttachment := Some a, oVolume := v\<rparr>"

abbreviation put_volume :: "string \<Rightarrow> volume \<Rightarrow> platform \<Rightarrow> platform" where
  "put_volume k v s \<equiv> s\<lparr>Volumes := fmupd k v (Volumes s)\<rparr>"

abbreviation put_attachment :: "string \<Rightarrow> attachment \<Rightarrow> platform \<Rightarrow> platform" where
  "put_attachment k a s \<equiv> s\<lparr>Attachments := fmupd k a (Attachments s)\<rparr>"

section \<open>Controller operations\<close>

definition get_instance :: "config \<Rightarrow> principal \<Rightarrow> request \<Rightarrow> platform \<Rightarrow> outcome" where
  "get_instance cfg p r s =
     (case engine_instance cfg p (rInstanceID r) of
        (i, x) \<Rightarrow> (zero_response\<lparr>oInstance := Some i\<rparr>, x, s))"

text \<open>The capability and topology checks of \<open>CreateVolume\<close>; \<open>1<<50\<close> is \<open>2 ^ 50\<close>.\<close>

definition valid_create :: "config \<Rightarrow> request \<Rightarrow> bool" where
  "valid_create cfg r \<longleftrightarrow>
     \<not> (\<not> ValidID (rName r) \<or> rSizeBytes r \<le> 0 \<or> rSizeBytes r > 2 ^ 50 \<or> rType r \<noteq> ''standard''
        \<or> rZone r \<notin> set (case fmlookup (Zones cfg) (rRegion r) of None \<Rightarrow> [] | Some zs \<Rightarrow> zs))"

definition valid_capability :: "request \<Rightarrow> bool" where
  "valid_capability r \<longleftrightarrow>
     \<not> ((rMode r \<noteq> ''mount'' \<and> rMode r \<noteq> ''block'')
        \<or> (rMode r = ''mount'' \<and> rFSType r \<noteq> ''ext4'' \<and> rFSType r \<noteq> ''xfs'')
        \<or> (rMode r = ''block'' \<and> rFSType r \<noteq> ''''))"

definition new_volume :: "string \<Rightarrow> principal \<Rightarrow> request \<Rightarrow> volume" where
  "new_volume i p r = zero_volume\<lparr>vID := i, vTenantID := pTenantID p, vClusterID := pClusterID p,
     vName := rName r, vType := rType r, vRegion := rRegion r, vZone := rZone r,
     vInitialSizeBytes := rSizeBytes r, vDesiredSizeBytes := rSizeBytes r, vMode := rMode r,
     vFSType := rFSType r, vAllowFormat := True, vState := ''CREATING''\<rparr>"

definition create_volume :: "config \<Rightarrow> call_env \<Rightarrow> principal \<Rightarrow> request \<Rightarrow> platform \<Rightarrow> outcome" where
  "create_volume cfg env p r s =
     (if \<not> valid_create cfg r then
        (zero_response, Err ''InvalidArgument'' ''invalid name, capacity, type or topology'', s)
      else if \<not> valid_capability r then
        (zero_response, Err ''InvalidArgument'' ''unsupported volume capability'', s)
      else
        case List.find (\<lambda>v. owned p (Some v) \<and> vName v = rName r) (range_values (Volumes s) (eVolumes env)) of
          Some v \<Rightarrow>
            if vDeleteRequested v \<or> vInitialSizeBytes v \<noteq> rSizeBytes r \<or> vType v \<noteq> rType r
               \<or> vRegion v \<noteq> rRegion r \<or> vZone v \<noteq> rZone r \<or> vMode v \<noteq> rMode r \<or> vFSType v \<noteq> rFSType r
            then (zero_response, Err ''AlreadyExists''
                    ''idempotency key reused with different configuration or deleted volume'', s)
            else (respond_volume v, None, s)
        | None \<Rightarrow>
            let v = new_volume (newID ''volume-'' (eRandom env)) p r
            in (respond_volume v, None, put_volume (vID v) v s))"

text \<open>The branch shared by \<open>GetVolume\<close>, \<open>DeleteVolume\<close> and \<open>ResizeVolume\<close>.\<close>

definition request_delete :: "volume \<Rightarrow> volume" where
  "request_delete v =
     (let v = v\<lparr>vDeleteRequested := True\<rparr>
      in if vState v \<noteq> ''DELETED'' then v\<lparr>vState := ''DELETING''\<rparr> else v)"

definition request_size :: "int \<Rightarrow> volume \<Rightarrow> volume" where
  "request_size n v =
     (let v = v\<lparr>vDesiredSizeBytes := n\<rparr>
      in if vSizeBytes v < n then v\<lparr>vState := ''RESIZING''\<rparr> else v)"

definition volume_case :: "call_env \<Rightarrow> principal \<Rightarrow> string \<Rightarrow> request \<Rightarrow> platform \<Rightarrow> outcome" where
  "volume_case env p op r s =
     (case fmlookup (Volumes s) (rID r) of
        None \<Rightarrow>
          if op = ''DeleteVolume'' then (zero_response, None, s)
          else (zero_response, Err ''NotFound'' ''volume absent'', s)
      | Some v \<Rightarrow>
          if \<not> owned p (Some v) then
            (zero_response, Err ''PermissionDenied'' ''volume outside principal scope'', s)
          else if op = ''DeleteVolume'' then
            if active (eAttachments env) s (vID v) then
              (respond_volume v, Err ''FailedPrecondition'' ''volume has live attachment'', s)
            else
              let v = request_delete v in (respond_volume v, None, put_volume (rID r) v s)
          else if op = ''ResizeVolume'' then
            if vDeleteRequested v \<or> vState v = ''CREATING'' \<or> rSizeBytes r < vDesiredSizeBytes v
               \<or> rSizeBytes r > 2 ^ 50 then
              (respond_volume v, Err ''FailedPrecondition''
                 ''resize requires available volume and cannot shrink'', s)
            else
              let v = request_size (rSizeBytes r) v in (respond_volume v, None, put_volume (rID r) v s)
          else (respond_volume v, None, s))"

definition new_attachment :: "string \<Rightarrow> volume \<Rightarrow> inst \<Rightarrow> attachment" where
  "new_attachment i v x = \<lparr>aID = i, aTenantID = vTenantID v, aClusterID = vClusterID v,
     aVolumeID = vID v, aInstanceID = iID x, aState = ''ATTACHING'', aGeneration = vGeneration v,
     aDeleteRequested = False, aUses = fmempty, aLastError = ''''\<rparr>"

definition create_attachment :: "config \<Rightarrow> call_env \<Rightarrow> principal \<Rightarrow> request \<Rightarrow> platform \<Rightarrow> outcome" where
  "create_attachment cfg env p r s =
     (case fmlookup (Volumes s) (rVolumeID r) of
        None \<Rightarrow> (zero_response, Err ''PermissionDenied'' ''volume outside principal scope'', s)
      | Some v \<Rightarrow>
          if \<not> owned p (Some v) then
            (zero_response, Err ''PermissionDenied'' ''volume outside principal scope'', s)
          else
            case engine_instance cfg p (rInstanceID r) of
              (_, Some x) \<Rightarrow> (zero_response, Some x, s)
            | (i, None) \<Rightarrow>
                if iRegion i \<noteq> vRegion v \<or> iZone i \<noteq> vZone v then
                  (zero_response, Err ''FailedPrecondition'' ''topology mismatch'', s)
                else if vDeleteRequested v \<or> vState v \<noteq> ''AVAILABLE'' \<or> vLastError v \<noteq> '''' then
                  (zero_response, Err ''FailedPrecondition'' ''volume not available'', s)
                else
                  case List.find (\<lambda>a. aVolumeID a = vID v \<and> live a)
                         (range_values (Attachments s) (eAttachments env)) of
                    Some a \<Rightarrow>
                      if aInstanceID a \<noteq> iID i \<or> aDeleteRequested a then
                        (zero_response, Err ''FailedPrecondition''
                           ''single writer attachment already exists or is draining'', s)
                      else (respond_attachment a, None, s)
                  | None \<Rightarrow>
                      let v = v\<lparr>vGeneration := vGeneration v + 1\<rparr>;
                          a = new_attachment (newID ''attachment-'' (eRandom env)) v i
                      in (respond_attachment a, None,
                          put_attachment (aID a) a (put_volume (rVolumeID r) v s)))"

text \<open>
  \<open>GetAttachment\<close> and \<open>DeleteAttachment\<close>. Without an ID the loop keeps the matching attachment
  with the largest generation, starting from whatever the empty key holds. The model carries the
  key along, to write through the pointer the loop found.
\<close>

definition latest_attachment ::
  "request \<Rightarrow> (string \<times> attachment) option \<Rightarrow> (string \<times> attachment) list \<Rightarrow> (string \<times> attachment) option" where
  "latest_attachment r a0 = foldl (\<lambda>a (k, candidate).
     if aVolumeID candidate = rVolumeID r
        \<and> (rInstanceID r = '''' \<or> aInstanceID candidate = rInstanceID r)
        \<and> (case a of None \<Rightarrow> True | Some (_, b) \<Rightarrow> aGeneration candidate > aGeneration b)
     then Some (k, candidate) else a) a0"

definition find_attachment :: "call_env \<Rightarrow> request \<Rightarrow> platform \<Rightarrow> (string \<times> attachment) option" where
  "find_attachment env r s =
     (let a = map_option (Pair (rID r)) (fmlookup (Attachments s) (rID r))
      in if rID r = '''' then latest_attachment r a (range_pairs (Attachments s) (eAttachments env))
         else a)"

definition attachment_case :: "call_env \<Rightarrow> principal \<Rightarrow> string \<Rightarrow> request \<Rightarrow> platform \<Rightarrow> outcome" where
  "attachment_case env p op r s =
     (case find_attachment env r s of
        None \<Rightarrow>
          if op = ''DeleteAttachment'' then (zero_response, None, s)
          else (zero_response, Err ''NotFound'' ''attachment absent'', s)
      | Some (k, a) \<Rightarrow>
          if aTenantID a \<noteq> pTenantID p \<or> aClusterID a \<noteq> pClusterID p then
            (zero_response, Err ''PermissionDenied'' ''attachment outside principal scope'', s)
          else if op = ''DeleteAttachment'' \<and> live a then
            let a = a\<lparr>aDeleteRequested := True, aState := ''DETACHING''\<rparr>
            in (respond_attachment a, None, put_attachment k a s)
          else (respond_attachment a, None, s))"

section \<open>Node operations\<close>

definition node_op :: "config \<Rightarrow> principal \<Rightarrow> string \<Rightarrow> request \<Rightarrow> platform \<Rightarrow> outcome" where
  "node_op cfg p op r s =
     (case engine_instance cfg p (pInstanceID p) of
        (_, Some x) \<Rightarrow> (zero_response, Some x, s)
      | (i, None) \<Rightarrow>
          if op = ''NodeSelf'' then (zero_response\<lparr>oInstance := Some i\<rparr>, None, s)
          else if op \<noteq> ''AcquireUse'' \<and> op \<noteq> ''CheckUse'' \<and> op \<noteq> ''ReleaseUse''
                  \<and> op \<noteq> ''RecordPublish'' \<and> op \<noteq> ''MarkInitialized'' then
            (zero_response, Err ''PermissionDenied'' ''node identity cannot manage cloud resources'', s)
          else
            case fmlookup (Attachments s) (rAttachmentID r) of
              None \<Rightarrow> (zero_response, Err ''PermissionDenied'' ''mount requested without known attachment'', s)
            | Some a \<Rightarrow>
                if aTenantID a \<noteq> iTenantID i \<or> aClusterID a \<noteq> iClusterID i then
                  (zero_response, Err ''PermissionDenied'' ''attachment tenant or cluster mismatch'', s)
                else if aVolumeID a \<noteq> rVolumeID r then
                  (zero_response, Err ''PermissionDenied'' ''attachment volume mismatch'', s)
                else if aInstanceID a \<noteq> iID i then
                  (zero_response, Err ''PermissionDenied'' ''attachment instance mismatch'', s)
                else if aGeneration a \<noteq> rGeneration r then
                  (zero_response, Err ''PermissionDenied'' ''invalid attachment generation'', s)
                else if \<not> ValidID (rUseID r) then
                  (zero_response, Err ''InvalidArgument'' ''useID required'', s)
                else
                  let v = fmlookup (Volumes s) (aVolumeID a);
                      out = respond_use a v
                  in if op = ''ReleaseUse'' then
                       let a = a\<lparr>aUses := fmdrop (rUseID r) (aUses a)\<rparr>
                       in (respond_use a v, None, put_attachment (rAttachmentID r) a s)
                     else
                       case v of
                         None \<Rightarrow> (out, Err ''FailedPrecondition'' ''active healthy attachment required'', s)
                       | Some v \<Rightarrow>
                           if aState a \<noteq> ''ATTACHED'' \<or> aDeleteRequested a \<or> aLastError a \<noteq> ''''
                              \<or> vLastError v \<noteq> '''' \<or> vDeleteRequested v then
                             (out, Err ''FailedPrecondition'' ''active healthy attachment required'', s)
                           else if op = ''AcquireUse'' then
                             if rMode r \<noteq> vMode v \<or> rFSType r \<noteq> vFSType v then
                               (out, Err ''InvalidArgument'' ''volume capability mismatch'', s)
                             else
                               let a = a\<lparr>aUses := fmupd (rUseID r) True (aUses a)\<rparr>
                               in (respond_use a (Some v), None, put_attachment (rAttachmentID r) a s)
                           else if fmlookup (aUses a) (rUseID r) \<noteq> Some True then
                             (out, Err ''FailedPrecondition'' ''durable use absent'', s)
                           else if op = ''MarkInitialized'' then
                             let v = v\<lparr>vAllowFormat := False\<rparr>
                             in (respond_use a (Some v), None, put_volume (aVolumeID a) v s)
                           else if op = ''RecordPublish'' \<and> \<not> ValidID (rPodUID r) then
                             (out, Err ''InvalidArgument'' ''Pod UID required'', s)
                           else (out, None, s))"

section \<open>Dispatch and transactions\<close>

definition apply_op :: "config \<Rightarrow> call_env \<Rightarrow> principal \<Rightarrow> string \<Rightarrow> request \<Rightarrow> platform \<Rightarrow> outcome" where
  "apply_op cfg env p op r s =
     (if pRole p = ''node'' then node_op cfg p op r s
      else if pRole p \<noteq> ''controller'' then
        (zero_response, Err ''PermissionDenied'' ''controller identity required'', s)
      else if op = ''GetInstance'' then get_instance cfg p r s
      else if op = ''CreateVolume'' then create_volume cfg env p r s
      else if op \<in> {''GetVolume'', ''DeleteVolume'', ''ResizeVolume''} then volume_case env p op r s
      else if op = ''CreateAttachment'' then create_attachment cfg env p r s
      else if op \<in> {''GetAttachment'', ''DeleteAttachment''} then attachment_case env p op r s
      else (zero_response, Err ''Unimplemented'' ''unknown operation'', s))"

record audit_entry =
  xTime :: string
  xPrincipal :: principal
  xOperation :: string
  xResult :: string
  xReason :: string
  xResponse :: response
  xName :: string
  xVolumeID :: string
  xID :: string
  xAttachmentID :: string
  xGeneration :: "64 word"
  xPodUID :: string
  xPodName :: string
  xNamespace :: string
  xServiceAccount :: string

definition audit_of :: "string \<Rightarrow> principal \<Rightarrow> string \<Rightarrow> request \<Rightarrow> response \<Rightarrow> go_error option \<Rightarrow> audit_entry" where
  "audit_of now p op r out rejected =
     \<lparr>xTime = now, xPrincipal = p, xOperation = op,
      xResult = (case rejected of None \<Rightarrow> ''OK'' | Some (ModelError code _) \<Rightarrow> code | Some _ \<Rightarrow> ''ERROR''),
      xReason = (case rejected of None \<Rightarrow> '''' | Some e \<Rightarrow> Error e),
      xResponse = out, xName = rName r, xVolumeID = rVolumeID r, xID = rID r,
      xAttachmentID = rAttachmentID r, xGeneration = rGeneration r, xPodUID = rPodUID r,
      xPodName = rPodName r, xNamespace = rNamespace r, xServiceAccount = rServiceAccount r\<rparr>"

text \<open>
  The closure \<open>Call\<close> passes to \<open>Update\<close>; it captures the response and the rejection. A rejected
  operation commits its audit record but not the state.
\<close>

definition call_tx ::
  "('tx, 'b) bolt \<Rightarrow> ('b, platform) codec \<Rightarrow> ('b, audit_entry) codec \<Rightarrow> config \<Rightarrow> call_env \<Rightarrow> principal
     \<Rightarrow> string \<Rightarrow> request \<Rightarrow> (response \<times> go_error option, 'tx) tx_fun" where
  "call_tx B cds cda cfg env p op r captured tx =
     (case platform_read B cds tx of
        Inl x \<Rightarrow> (Some x, captured, tx)
      | Inr s \<Rightarrow>
          (case apply_op cfg env p op r s of
             (out, rejected, s) \<Rightarrow>
               (case store_Audit B cda (eKeyTime env) tx (audit_of (eNow env) p op r out rejected) of
                  Inl x \<Rightarrow> (Some x, (out, rejected), tx)
                | Inr tx \<Rightarrow>
                    if rejected \<noteq> None then (None, (out, rejected), tx)
                    else
                      (case store_Write B cds tx ''platform'' s of
                         Inl x \<Rightarrow> (Some x, (out, rejected), tx)
                       | Inr tx \<Rightarrow> (None, (out, rejected), tx)))))"

definition Call ::
  "('tx, 'b) bolt \<Rightarrow> ('b, platform) codec \<Rightarrow> ('b, audit_entry) codec
     \<Rightarrow> ((response \<times> go_error option, 'tx) tx_fun \<Rightarrow> (response \<times> go_error option, 'tx) tx_fun)
     \<Rightarrow> config \<Rightarrow> call_env \<Rightarrow> principal \<Rightarrow> string \<Rightarrow> request \<Rightarrow> 'tx \<Rightarrow> (response \<times> go_error option) \<times> 'tx" where
  "Call B cds cda upd cfg env p op r db =
     (if eCtx env \<noteq> None then ((zero_response, eCtx env), db)
      else
        case upd (call_tx B cds cda cfg env p op r) (zero_response, None) db of
          (err, (out, rejected), db) \<Rightarrow> ((out, if err = None then rejected else err), db))"

lemmas op_defs =
  get_instance_def create_volume_def volume_case_def create_attachment_def attachment_case_def
  node_op_def

end
