(* ===== verification/Wf.thy ===== *)
theory Wf
  imports Engine
begin

text \<open>
  The well-formedness of the platform state, in parts: what holds of each volume and of each
  attachment, and what holds between them (one live attachment per volume, one attachment per
  volume and generation, one volume per name and scope). Every operation of the engine keeps
  all parts. Two frame lemmas (\<open>wf_put_volume\<close>, \<open>wf_put_attachment\<close>) carry the proofs: an
  operation that rewrites one record keeps the state well-formed when the record keeps its
  identity and its own invariant.
\<close>

section \<open>The invariant\<close>

definition wf_volume :: "volume \<Rightarrow> bool" where
  "wf_volume v \<longleftrightarrow>
     vState v \<in> {''CREATING'', ''AVAILABLE'', ''RESIZING'', ''DELETING'', ''DELETED''}
     \<and> (vDeleteRequested v \<longleftrightarrow> vState v \<in> {''DELETING'', ''DELETED''})
     \<and> 0 < vInitialSizeBytes v \<and> vInitialSizeBytes v \<le> vDesiredSizeBytes v
     \<and> vDesiredSizeBytes v \<le> 2 ^ 50
     \<and> (vState v = ''AVAILABLE'' \<longrightarrow> vDesiredSizeBytes v \<le> vSizeBytes v)
     \<and> (vState v = ''CREATING'' \<longrightarrow> vDeviceKey v = '''')
     \<and> ValidID (vName v)
     \<and> (vMode v = ''mount'' \<and> vFSType v \<in> {''ext4'', ''xfs''} \<or> vMode v = ''block'' \<and> vFSType v = '''')"

definition wf_attachment :: "attachment \<Rightarrow> bool" where
  "wf_attachment a \<longleftrightarrow>
     aState a \<in> {''ATTACHING'', ''ATTACHED'', ''DETACHING'', ''DETACHED''}
     \<and> (aDeleteRequested a \<longleftrightarrow> aState a \<in> {''DETACHING'', ''DETACHED''})
     \<and> (aUses a \<noteq> fmempty \<longrightarrow> aState a \<in> {''ATTACHED'', ''DETACHING''})"

definition belongs :: "attachment \<Rightarrow> volume \<Rightarrow> bool" where
  "belongs a v \<longleftrightarrow> aTenantID a = vTenantID v \<and> aClusterID a = vClusterID v
     \<and> aGeneration a \<noteq> 0 \<and> aGeneration a \<le> vGeneration v \<and> (live a \<longrightarrow> aGeneration a = vGeneration v)
     \<and> vState v \<noteq> ''CREATING''"

definition keys_ok :: "platform \<Rightarrow> bool" where
  "keys_ok s \<longleftrightarrow>
     (\<forall>k v. fmlookup (Volumes s) k = Some v \<longrightarrow> vID v = k \<and> wf_volume v) \<and>
     (\<forall>k a. fmlookup (Attachments s) k = Some a \<longrightarrow> aID a = k \<and> k \<noteq> '''' \<and> wf_attachment a
        \<and> (\<exists>v. fmlookup (Volumes s) (aVolumeID a) = Some v \<and> belongs a v))"

definition one_live :: "platform \<Rightarrow> bool" where
  "one_live s \<longleftrightarrow>
     (\<forall>k a k' a'. fmlookup (Attachments s) k = Some a \<longrightarrow> fmlookup (Attachments s) k' = Some a' \<longrightarrow>
        live a \<longrightarrow> live a' \<longrightarrow> aVolumeID a = aVolumeID a' \<longrightarrow> k = k')"

definition one_generation :: "platform \<Rightarrow> bool" where
  "one_generation s \<longleftrightarrow>
     (\<forall>k a k' a'. fmlookup (Attachments s) k = Some a \<longrightarrow> fmlookup (Attachments s) k' = Some a' \<longrightarrow>
        aVolumeID a = aVolumeID a' \<longrightarrow> aGeneration a = aGeneration a' \<longrightarrow> k = k')"

definition one_name :: "platform \<Rightarrow> bool" where
  "one_name s \<longleftrightarrow>
     (\<forall>k v k' v'. fmlookup (Volumes s) k = Some v \<longrightarrow> fmlookup (Volumes s) k' = Some v' \<longrightarrow>
        vTenantID v = vTenantID v' \<longrightarrow> vClusterID v = vClusterID v' \<longrightarrow> vName v = vName v' \<longrightarrow> k = k')"

definition deleted_idle :: "platform \<Rightarrow> bool" where
  "deleted_idle s \<longleftrightarrow>
     (\<forall>k v k' a. fmlookup (Volumes s) k = Some v \<longrightarrow> vDeleteRequested v \<longrightarrow>
        fmlookup (Attachments s) k' = Some a \<longrightarrow> aVolumeID a = k \<longrightarrow> \<not> live a)"

definition wf :: "platform \<Rightarrow> bool" where
  "wf s \<longleftrightarrow> keys_ok s \<and> one_live s \<and> one_generation s \<and> one_name s \<and> deleted_idle s"

text \<open>How far the generation counters have got; it bounds the wrap-around of \<open>v.Generation++\<close>.\<close>

definition generations_le :: "nat \<Rightarrow> platform \<Rightarrow> bool" where
  "generations_le n s \<longleftrightarrow> (\<forall>k v. fmlookup (Volumes s) k = Some v \<longrightarrow> unat (vGeneration v) \<le> n)"

section \<open>Using the invariant\<close>

lemma wf_volumeD:
  assumes "wf s" and "fmlookup (Volumes s) k = Some v"
  shows "vID v = k" and "wf_volume v"
  using assms by (auto simp: wf_def keys_ok_def)

lemma wf_attachmentD:
  assumes "wf s" and "fmlookup (Attachments s) k = Some a"
  shows "aID a = k" and "k \<noteq> ''''" and "wf_attachment a"
    and "\<exists>v. fmlookup (Volumes s) (aVolumeID a) = Some v \<and> belongs a v"
  using assms by (auto simp: wf_def keys_ok_def)

lemma one_liveD:
  assumes "wf s" and "fmlookup (Attachments s) k = Some a" and "fmlookup (Attachments s) k' = Some a'"
    and "live a" and "live a'" and "aVolumeID a = aVolumeID a'"
  shows "k = k'" and "a = a'"
proof -
  show "k = k'" using assms unfolding wf_def one_live_def by blast
  with assms(2,3) show "a = a'" by simp
qed

lemma one_generationD:
  assumes "wf s" and "fmlookup (Attachments s) k = Some a" and "fmlookup (Attachments s) k' = Some a'"
    and "aVolumeID a = aVolumeID a'" and "aGeneration a = aGeneration a'"
  shows "k = k'"
  using assms unfolding wf_def one_generation_def by blast

lemma one_nameD:
  assumes "wf s" and "fmlookup (Volumes s) k = Some v" and "fmlookup (Volumes s) k' = Some v'"
    and "vTenantID v = vTenantID v'" and "vClusterID v = vClusterID v'" and "vName v = vName v'"
  shows "k = k'"
  using assms unfolding wf_def one_name_def by blast

lemma deleted_idleD:
  assumes "wf s" and "fmlookup (Volumes s) (aVolumeID a) = Some v" and "vDeleteRequested v"
    and "fmlookup (Attachments s) k = Some a"
  shows "\<not> live a"
  using assms unfolding wf_def deleted_idle_def by blast

lemma wf_empty: "wf zero_platform"
  by (simp add: wf_def keys_ok_def one_live_def one_generation_def one_name_def deleted_idle_def
      zero_platform_def)

lemma live_uses: "wf_attachment a \<Longrightarrow> aUses a \<noteq> fmempty \<Longrightarrow> live a"
  by (auto simp: wf_attachment_def live_def)

lemma active_iff:
  "enumerates ks (Attachments s) \<Longrightarrow>
     active ks s v \<longleftrightarrow> (\<exists>k a. fmlookup (Attachments s) k = Some a \<and> aVolumeID a = v \<and> live a)"
  by (simp add: active_def list_ex_iff Bex_def enumerates_range_values) blast

section \<open>Rewriting one record\<close>

definition same_volume :: "volume \<Rightarrow> volume \<Rightarrow> bool" where
  "same_volume v v' \<longleftrightarrow> vID v' = vID v \<and> vTenantID v' = vTenantID v \<and> vClusterID v' = vClusterID v
     \<and> vName v' = vName v \<and> vGeneration v \<le> vGeneration v'
     \<and> (vState v' = ''CREATING'' \<longrightarrow> vState v = ''CREATING'')"

definition same_attachment :: "attachment \<Rightarrow> attachment \<Rightarrow> bool" where
  "same_attachment a a' \<longleftrightarrow> aID a' = aID a \<and> aTenantID a' = aTenantID a \<and> aClusterID a' = aClusterID a
     \<and> aVolumeID a' = aVolumeID a \<and> aInstanceID a' = aInstanceID a \<and> aGeneration a' = aGeneration a
     \<and> (live a' \<longrightarrow> live a)"

lemma same_refl [simp]: "same_volume v v" "same_attachment a a"
  by (simp_all add: same_volume_def same_attachment_def)

lemma wf_put_volume:
  assumes wf: "wf s" and k: "fmlookup (Volumes s) k = Some v" and same: "same_volume v v'"
    and ok: "wf_volume v'"
    and idle: "vDeleteRequested v' \<Longrightarrow> \<not> vDeleteRequested v \<Longrightarrow>
      (\<forall>k' a. fmlookup (Attachments s) k' = Some a \<longrightarrow> aVolumeID a = k \<longrightarrow> \<not> live a)"
    and token: "vGeneration v' \<noteq> vGeneration v \<Longrightarrow>
      (\<forall>k' a. fmlookup (Attachments s) k' = Some a \<longrightarrow> aVolumeID a = k \<longrightarrow> \<not> live a)"
  shows "wf (put_volume k v' s)"
proof -
  have "\<forall>k' a. fmlookup (Attachments s) k' = Some a \<longrightarrow> aVolumeID a = k \<longrightarrow> belongs a v \<longrightarrow> belongs a v'"
  proof (intro allI impI)
    fix k' a
    assume a: "fmlookup (Attachments s) k' = Some a" "aVolumeID a = k" "belongs a v"
    have "aGeneration a \<le> vGeneration v'"
      using same a(3) unfolding same_volume_def belongs_def by (blast intro: order_trans)
    moreover have "live a \<longrightarrow> aGeneration a = vGeneration v'"
      using token a unfolding belongs_def by (cases "vGeneration v' = vGeneration v") auto
    ultimately show "belongs a v'"
      using same a(3) unfolding same_volume_def belongs_def by simp
  qed
  then have "keys_ok (put_volume k v' s)"
    using wf k same ok unfolding wf_def keys_ok_def same_volume_def
    by simp (metis option.inject)
  moreover have "one_name (put_volume k v' s)"
    using wf k same unfolding wf_def one_name_def same_volume_def by simp metis
  moreover have "deleted_idle (put_volume k v' s)"
    using wf k idle unfolding wf_def deleted_idle_def by simp metis
  ultimately show ?thesis
    using wf by (simp add: wf_def one_live_def one_generation_def)
qed

lemma wf_put_attachment:
  assumes wf: "wf s" and k: "fmlookup (Attachments s) k = Some a" and same: "same_attachment a a'"
    and ok: "wf_attachment a'"
  shows "wf (put_attachment k a' s)"
proof -
  have "belongs a v \<longrightarrow> belongs a' v" for v
    using same by (simp add: same_attachment_def belongs_def)
  then have "keys_ok (put_attachment k a' s)"
    using wf k same ok unfolding wf_def keys_ok_def same_attachment_def by simp metis
  moreover have "one_live (put_attachment k a' s)"
    using wf k same unfolding wf_def one_live_def same_attachment_def by simp metis
  moreover have "one_generation (put_attachment k a' s)"
    using wf k same unfolding wf_def one_generation_def same_attachment_def by simp metis
  moreover have "deleted_idle (put_attachment k a' s)"
    using wf k same unfolding wf_def deleted_idle_def same_attachment_def by simp metis
  ultimately show ?thesis
    using wf by (simp add: wf_def one_name_def)
qed

text \<open>Adding a record under a fresh key.\<close>

lemma wf_add_volume:
  assumes wf: "wf s" and fresh: "fmlookup (Volumes s) (vID v) = None" and ok: "wf_volume v"
    and idle: "\<not> vDeleteRequested v"
    and name: "\<forall>k v'. fmlookup (Volumes s) k = Some v' \<longrightarrow>
      \<not> (vTenantID v' = vTenantID v \<and> vClusterID v' = vClusterID v \<and> vName v' = vName v)"
  shows "wf (put_volume (vID v) v s)"
proof -
  have "keys_ok (put_volume (vID v) v s)"
    using wf fresh ok unfolding wf_def keys_ok_def by simp (metis option.distinct(1))
  moreover have "one_name (put_volume (vID v) v s)"
    using wf name unfolding wf_def one_name_def by simp metis
  moreover have "deleted_idle (put_volume (vID v) v s)"
    using wf idle unfolding wf_def deleted_idle_def by simp
  ultimately show ?thesis
    using wf by (simp add: wf_def one_live_def one_generation_def)
qed

lemma wf_add_attachment:
  assumes wf: "wf s" and fresh: "fmlookup (Attachments s) (aID a) = None" and k: "aID a \<noteq> ''''"
    and ok: "wf_attachment a"
    and v: "fmlookup (Volumes s) (aVolumeID a) = Some v" "belongs a v" "\<not> vDeleteRequested v"
    and sole: "\<forall>k b. fmlookup (Attachments s) k = Some b \<longrightarrow> aVolumeID b = aVolumeID a \<longrightarrow>
      \<not> live b \<and> aGeneration b \<noteq> aGeneration a"
  shows "wf (put_attachment (aID a) a s)"
proof -
  have "keys_ok (put_attachment (aID a) a s)"
    using wf k ok v unfolding wf_def keys_ok_def by simp
  moreover have "one_live (put_attachment (aID a) a s)"
    using wf sole unfolding wf_def one_live_def by simp metis
  moreover have "one_generation (put_attachment (aID a) a s)"
    using wf sole unfolding wf_def one_generation_def by simp metis
  moreover have "deleted_idle (put_attachment (aID a) a s)"
    using wf v unfolding wf_def deleted_idle_def by simp
  ultimately show ?thesis
    using wf by (simp add: wf_def one_name_def)
qed

end
