(* ===== verification/EngineCases.thy ===== *)
theory EngineCases
  imports Wf
begin

text \<open>
  One case rule for each operation of the engine: what changed, and what the code had checked
  when it changed it. The later theories reason with these rules and do not unfold the
  operations again. A rejected call leaves the state as it was.
\<close>

section \<open>Case rules\<close>

text \<open>The checks every node operation but \<open>NodeSelf\<close> passes before it touches an attachment.\<close>

definition node_authorised :: "config \<Rightarrow> principal \<Rightarrow> request \<Rightarrow> platform \<Rightarrow> inst \<Rightarrow> attachment \<Rightarrow> bool" where
  "node_authorised cfg p r s i a \<longleftrightarrow>
     engine_instance cfg p (pInstanceID p) = (i, None)
     \<and> fmlookup (Attachments s) (rAttachmentID r) = Some a
     \<and> aTenantID a = iTenantID i \<and> aClusterID a = iClusterID i \<and> aVolumeID a = rVolumeID r
     \<and> aInstanceID a = iID i \<and> aGeneration a = rGeneration r \<and> ValidID (rUseID r)"

definition healthy :: "platform \<Rightarrow> attachment \<Rightarrow> volume \<Rightarrow> bool" where
  "healthy s a v \<longleftrightarrow> fmlookup (Volumes s) (aVolumeID a) = Some v \<and> aState a = ''ATTACHED''
     \<and> \<not> aDeleteRequested a \<and> aLastError a = '''' \<and> vLastError v = '''' \<and> \<not> vDeleteRequested v"

lemma engine_instance_None:
  "engine_instance cfg p k = (i, None) \<longleftrightarrow>
     fmlookup (Instances cfg) k = Some i \<and> iActive i \<and> iTenantID i = pTenantID p \<and> iClusterID i = pClusterID p"
  by (auto simp: engine_instance_def split: option.splits)

lemma owned_Some [simp]:
  "owned p (Some v) \<longleftrightarrow> vTenantID v = pTenantID p \<and> vClusterID v = pClusterID p"
  by (simp add: owned_def)

lemma create_volume_cases:
  assumes "create_volume cfg env p r s = (out, x, s')"
  obtains
    (rejected) e where "x = Some e" "out = zero_response" "s' = s"
  | (existing) k v where "x = None" "s' = s" "out = respond_volume v" "k \<in> set (eVolumes env)"
      "fmlookup (Volumes s) k = Some v" "owned p (Some v)" "vName v = rName r" "\<not> vDeleteRequested v"
      "vInitialSizeBytes v = rSizeBytes r" "vType v = rType r" "vRegion v = rRegion r"
      "vZone v = rZone r" "vMode v = rMode r" "vFSType v = rFSType r"
  | (created) v where "x = None" "v = new_volume (newID ''volume-'' (eRandom env)) p r"
      "out = respond_volume v" "s' = put_volume (vID v) v s" "valid_create cfg r" "valid_capability r"
      "List.find (\<lambda>v. owned p (Some v) \<and> vName v = rName r) (range_values (Volumes s) (eVolumes env)) = None"
proof (cases "List.find (\<lambda>v. owned p (Some v) \<and> vName v = rName r) (range_values (Volumes s) (eVolumes env))")
  case None
  then show thesis
    using assms rejected created by (auto simp: create_volume_def Let_def split: if_splits)
next
  case (Some v)
  then have "(owned p (Some v) \<and> vName v = rName r)
      \<and> (\<exists>k. k \<in> set (eVolumes env) \<and> fmlookup (Volumes s) k = Some v)"
    by (rule find_range_values_Some)
  with Some show thesis
    using assms rejected existing by (auto simp: create_volume_def split: if_splits)
qed

lemma volume_case_cases:
  assumes "volume_case env p op r s = (out, x, s')"
  obtains
    (rejected) e where "x = Some e" "s' = s"
      "out = zero_response \<or> (\<exists>v. fmlookup (Volumes s) (rID r) = Some v \<and> owned p (Some v) \<and> out = respond_volume v)"
  | (absent) "x = None" "s' = s" "out = zero_response" "op = ''DeleteVolume''"
      "fmlookup (Volumes s) (rID r) = None"
  | (got) v where "x = None" "s' = s" "out = respond_volume v" "fmlookup (Volumes s) (rID r) = Some v"
      "owned p (Some v)" "op \<noteq> ''DeleteVolume''" "op \<noteq> ''ResizeVolume''"
  | (deleted) v v' where "x = None" "op = ''DeleteVolume''" "fmlookup (Volumes s) (rID r) = Some v"
      "owned p (Some v)" "\<not> active (eAttachments env) s (vID v)"
      "v' = request_delete v"
      "out = respond_volume v'" "s' = put_volume (rID r) v' s"
  | (resized) v v' where "x = None" "op = ''ResizeVolume''" "fmlookup (Volumes s) (rID r) = Some v"
      "owned p (Some v)" "\<not> vDeleteRequested v" "vState v \<noteq> ''CREATING''"
      "vDesiredSizeBytes v \<le> rSizeBytes r" "rSizeBytes r \<le> 2 ^ 50"
      "v' = request_size (rSizeBytes r) v"
      "out = respond_volume v'" "s' = put_volume (rID r) v' s"
proof (cases "fmlookup (Volumes s) (rID r)")
  case None
  then show thesis
    using assms rejected absent by (auto simp: volume_case_def split: if_splits)
next
  case (Some v)
  consider "\<not> owned p (Some v)" | "owned p (Some v)" "op = ''DeleteVolume''"
    | "owned p (Some v)" "op = ''ResizeVolume''"
    | "owned p (Some v)" "op \<noteq> ''DeleteVolume''" "op \<noteq> ''ResizeVolume''"
    by blast
  then show thesis
  proof cases
    case 1
    then have "(\<exists>e. x = Some e) \<and> out = zero_response \<and> s' = s"
      using assms Some by (auto simp: volume_case_def Err_def)
    then show thesis using rejected by blast
  next
    case 2
    then show thesis
    proof (cases "active (eAttachments env) s (vID v)")
      case True
      then have "(\<exists>e. x = Some e) \<and> out = respond_volume v \<and> s' = s"
        using assms Some 2 by (auto simp: volume_case_def Err_def)
      then show thesis using rejected Some 2(1) by blast
    next
      case False
      then have "(out, x, s') = (respond_volume (request_delete v), None, put_volume (rID r) (request_delete v) s)"
        using assms Some 2 by (simp add: volume_case_def Let_def)
      then show thesis using deleted Some 2 False by blast
    qed
  next
    case 3
    show thesis
    proof (cases "vDeleteRequested v \<or> vState v = ''CREATING'' \<or> rSizeBytes r < vDesiredSizeBytes v
               \<or> rSizeBytes r > 2 ^ 50")
      case True
      then have "(\<exists>e. x = Some e) \<and> out = respond_volume v \<and> s' = s"
        using assms Some 3 by (auto simp: volume_case_def Err_def)
      then show thesis using rejected Some 3(1) by blast
    next
      case False
      then have "(out, x, s') = (respond_volume (request_size (rSizeBytes r) v), None,
          put_volume (rID r) (request_size (rSizeBytes r) v) s)"
        using assms Some 3 by (simp add: volume_case_def Let_def)
      then show thesis using resized Some 3 False by fastforce
    qed
  next
    case 4
    then have "out = respond_volume v \<and> x = None \<and> s' = s"
      using assms Some by (simp add: volume_case_def)
    then show thesis using Some got 4 by blast
  qed
qed

lemma create_attachment_cases:
  assumes "create_attachment cfg env p r s = (out, x, s')"
  obtains
    (rejected) e where "x = Some e" "out = zero_response" "s' = s"
  | (existing) v i k a where "x = None" "s' = s" "out = respond_attachment a"
      "fmlookup (Volumes s) (rVolumeID r) = Some v" "owned p (Some v)"
      "engine_instance cfg p (rInstanceID r) = (i, None)" "vState v = ''AVAILABLE''"
      "k \<in> set (eAttachments env)" "fmlookup (Attachments s) k = Some a" "aVolumeID a = vID v" "live a"
      "aInstanceID a = iID i" "\<not> aDeleteRequested a" "vLastError v = ''''"
  | (created) v v' i a where "x = None" "fmlookup (Volumes s) (rVolumeID r) = Some v" "owned p (Some v)"
      "engine_instance cfg p (rInstanceID r) = (i, None)" "iRegion i = vRegion v" "iZone i = vZone v"
      "\<not> vDeleteRequested v" "vState v = ''AVAILABLE''" "vLastError v = ''''"
      "List.find (\<lambda>a. aVolumeID a = vID v \<and> live a) (range_values (Attachments s) (eAttachments env)) = None"
      "v' = v\<lparr>vGeneration := vGeneration v + 1\<rparr>"
      "a = new_attachment (newID ''attachment-'' (eRandom env)) v' i"
      "out = respond_attachment a" "s' = put_attachment (aID a) a (put_volume (rVolumeID r) v' s)"
proof (cases "fmlookup (Volumes s) (rVolumeID r)")
  case None
  then have "(\<exists>e. x = Some e) \<and> out = zero_response \<and> s' = s"
    using assms by (auto simp: create_attachment_def Err_def)
  then show thesis using rejected by blast
next
  case (Some v)
  obtain i y where i: "engine_instance cfg p (rInstanceID r) = (i, y)" by fastforce
  show thesis
  proof (cases "owned p (Some v) \<and> y = None \<and> iRegion i = vRegion v \<and> iZone i = vZone v
      \<and> \<not> vDeleteRequested v \<and> vState v = ''AVAILABLE'' \<and> vLastError v = ''''")
    case False
    then have "(\<exists>e. x = Some e) \<and> out = zero_response \<and> s' = s"
      using assms Some i by (auto simp: create_attachment_def Err_def split: if_splits option.splits)
    then show thesis using rejected by blast
  next
    case True
    show thesis
    proof (cases "List.find (\<lambda>a. aVolumeID a = vID v \<and> live a) (range_values (Attachments s) (eAttachments env))")
      case None
      define v' where "v' = v\<lparr>vGeneration := vGeneration v + 1\<rparr>"
      define a where "a = new_attachment (newID ''attachment-'' (eRandom env)) v' i"
      have "(out, x, s') = (respond_attachment a, None, put_attachment (aID a) a (put_volume (rVolumeID r) v' s))"
        using assms Some i True None by (simp add: create_attachment_def Let_def v'_def a_def)
      then show thesis using created [OF _ _ _ _ _ _ _ _ _ None v'_def a_def] Some i True by blast
    next
      case (Some a)
      then have "(aVolumeID a = vID v \<and> live a)
          \<and> (\<exists>k. k \<in> set (eAttachments env) \<and> fmlookup (Attachments s) k = Some a)"
        by (rule find_range_values_Some)
      then obtain k where a: "k \<in> set (eAttachments env)" "fmlookup (Attachments s) k = Some a"
          "aVolumeID a = vID v" "live a" by blast
      note eqs = \<open>fmlookup (Volumes s) (rVolumeID r) = Some v\<close> i Some True
      show thesis
      proof (cases "aInstanceID a \<noteq> iID i \<or> aDeleteRequested a")
        case True
        then have "(\<exists>e. x = Some e) \<and> out = zero_response \<and> s' = s"
          using assms eqs by (auto simp: create_attachment_def Err_def)
        then show thesis using rejected by blast
      next
        case False
        then have "x = None \<and> s' = s \<and> out = respond_attachment a"
          using assms eqs by (simp add: create_attachment_def)
        then show thesis using existing eqs a False by blast
      qed
    qed
  qed
qed

lemma latest_attachment_simps [simp]:
  "latest_attachment r a0 [] = a0"
  "latest_attachment r a0 ((k, c) # xs) = latest_attachment r
     (if aVolumeID c = rVolumeID r \<and> (rInstanceID r = [] \<or> aInstanceID c = rInstanceID r)
         \<and> (case a0 of None \<Rightarrow> True | Some (_, b) \<Rightarrow> aGeneration c > aGeneration b)
      then Some (k, c) else a0) xs"
  by (simp_all add: latest_attachment_def)

lemma latest_attachment_member:
  "latest_attachment r a0 xs = Some (k, a) \<Longrightarrow>
     a0 = Some (k, a) \<or> ((k, a) \<in> set xs \<and> aVolumeID a = rVolumeID r
        \<and> (rInstanceID r = '''' \<or> aInstanceID a = rInstanceID r))"
proof (induction xs arbitrary: a0)
  case Nil
  then show ?case by simp
next
  case (Cons kc xs)
  obtain k' c where "kc = (k', c)" by fastforce
  then show ?case using Cons.prems by (auto dest!: Cons.IH split: if_splits)
qed

lemma find_attachment_lookup:
  "find_attachment env r s = Some (k, a) \<Longrightarrow> fmlookup (Attachments s) k = Some a"
  by (auto simp: find_attachment_def Let_def set_range_pairs split: if_splits
      dest!: latest_attachment_member)

lemma attachment_case_cases:
  assumes "attachment_case env p op r s = (out, x, s')"
  obtains
    (rejected) e where "x = Some e" "out = zero_response" "s' = s"
  | (absent) "x = None" "s' = s" "out = zero_response" "op = ''DeleteAttachment''"
      "find_attachment env r s = None"
  | (got) k a where "x = None" "s' = s" "out = respond_attachment a" "find_attachment env r s = Some (k, a)"
      "fmlookup (Attachments s) k = Some a" "aTenantID a = pTenantID p" "aClusterID a = pClusterID p"
      "op = ''DeleteAttachment'' \<longrightarrow> \<not> live a"
  | (deleted) k a a' where "x = None" "op = ''DeleteAttachment''" "find_attachment env r s = Some (k, a)"
      "fmlookup (Attachments s) k = Some a" "aTenantID a = pTenantID p" "aClusterID a = pClusterID p"
      "live a" "a' = a\<lparr>aDeleteRequested := True, aState := ''DETACHING''\<rparr>"
      "out = respond_attachment a'" "s' = put_attachment k a' s"
proof (cases "find_attachment env r s")
  case None
  then show thesis
    using assms rejected absent by (auto simp: attachment_case_def split: if_splits)
next
  case (Some ka)
  obtain k a where ka: "ka = (k, a)" by fastforce
  with Some have "fmlookup (Attachments s) k = Some a" by (simp add: find_attachment_lookup)
  note a = Some[unfolded ka] this
  consider "aTenantID a \<noteq> pTenantID p \<or> aClusterID a \<noteq> pClusterID p"
    | "aTenantID a = pTenantID p" "aClusterID a = pClusterID p" "op = ''DeleteAttachment''" "live a"
    | "aTenantID a = pTenantID p" "aClusterID a = pClusterID p" "op = ''DeleteAttachment'' \<longrightarrow> \<not> live a"
    by blast
  then show thesis
  proof cases
    case 1
    then have "(\<exists>e. x = Some e) \<and> out = zero_response \<and> s' = s"
      using assms a by (auto simp: attachment_case_def Err_def)
    then show thesis using rejected by blast
  next
    case 2
    define a' where "a' = a\<lparr>aDeleteRequested := True, aState := ''DETACHING''\<rparr>"
    have "(out, x, s') = (respond_attachment a', None, put_attachment k a' s)"
      using assms a 2 by (simp add: attachment_case_def Let_def a'_def)
    then show thesis using deleted [OF _ _ a _ _ _ a'_def] 2 by blast
  next
    case 3
    then have "x = None \<and> s' = s \<and> out = respond_attachment a"
      using assms a by (auto simp: attachment_case_def)
    then show thesis using got a 3 by blast
  qed
qed

lemma node_op_cases:
  assumes "node_op cfg p op r s = (out, x, s')"
  obtains
    (rejected) e where "x = Some e" "s' = s"
      "out = zero_response \<or> (\<exists>i a. node_authorised cfg p r s i a
         \<and> out = respond_use a (fmlookup (Volumes s) (aVolumeID a)))"
  | (self) i where "x = None" "s' = s" "op = ''NodeSelf''" "out = zero_response\<lparr>oInstance := Some i\<rparr>"
      "engine_instance cfg p (pInstanceID p) = (i, None)"
  | (released) i a a' where "x = None" "op = ''ReleaseUse''" "node_authorised cfg p r s i a"
      "a' = a\<lparr>aUses := fmdrop (rUseID r) (aUses a)\<rparr>"
      "out = respond_use a' (fmlookup (Volumes s) (aVolumeID a))"
      "s' = put_attachment (rAttachmentID r) a' s"
  | (acquired) i a v a' where "x = None" "op = ''AcquireUse''" "node_authorised cfg p r s i a"
      "healthy s a v" "rMode r = vMode v" "rFSType r = vFSType v"
      "a' = a\<lparr>aUses := fmupd (rUseID r) True (aUses a)\<rparr>"
      "out = respond_use a' (Some v)"
      "s' = put_attachment (rAttachmentID r) a' s"
  | (initialised) i a v v' where "x = None" "op = ''MarkInitialized''" "node_authorised cfg p r s i a"
      "healthy s a v" "fmlookup (aUses a) (rUseID r) = Some True" "v' = v\<lparr>vAllowFormat := False\<rparr>"
      "out = respond_use a (Some v')"
      "s' = put_volume (aVolumeID a) v' s"
  | (checked) i a v where "x = None" "s' = s" "op = ''CheckUse'' \<or> op = ''RecordPublish'' \<and> ValidID (rPodUID r)"
      "node_authorised cfg p r s i a" "healthy s a v" "fmlookup (aUses a) (rUseID r) = Some True"
      "out = respond_use a (Some v)"
proof -
  obtain i y where i: "engine_instance cfg p (pInstanceID p) = (i, y)" by fastforce
  consider (inst) e where "y = Some e" | (self') "y = None" "op = ''NodeSelf''"
    | (foreign) "y = None" "op \<noteq> ''NodeSelf''" "op \<notin> {''AcquireUse'', ''CheckUse'', ''ReleaseUse'', ''RecordPublish'', ''MarkInitialized''}"
    | (op) "y = None" "op \<in> {''AcquireUse'', ''CheckUse'', ''ReleaseUse'', ''RecordPublish'', ''MarkInitialized''}"
    by (metis not_None_eq)
  then show thesis
  proof cases
    case inst
    then have "x = Some e \<and> out = zero_response \<and> s' = s"
      using assms i by (simp add: node_op_def)
    then show thesis using rejected by blast
  next
    case self'
    then have "x = None \<and> out = zero_response\<lparr>oInstance := Some i\<rparr> \<and> s' = s"
      using assms i by (simp add: node_op_def)
    then show thesis using self self' i by blast
  next
    case foreign
    then have "(\<exists>e. x = Some e) \<and> out = zero_response \<and> s' = s"
      using assms i by (auto simp: node_op_def Err_def)
    then show thesis using rejected by blast
  next
    case op
    have use_op: "op \<noteq> ''NodeSelf''" "\<not> (op \<noteq> ''AcquireUse'' \<and> op \<noteq> ''CheckUse'' \<and> op \<noteq> ''ReleaseUse''
        \<and> op \<noteq> ''RecordPublish'' \<and> op \<noteq> ''MarkInitialized'')"
      using op(2) by auto
    show thesis
    proof (cases "\<exists>a. node_authorised cfg p r s i a")
      case False
      then have "node_op cfg p op r s \<in> {(zero_response, Some e, s) |e. True}"
        using i op(1) use_op by (simp add: node_op_def node_authorised_def Err_def split: option.split)
      then have "(\<exists>e. x = Some e) \<and> out = zero_response \<and> s' = s"
        using assms by simp
      then show thesis using rejected by blast
    next
      case True
      then obtain a where a: "node_authorised cfg p r s i a" by blast
      show thesis
      proof (cases "op = ''ReleaseUse''")
        case True
        define a' where "a' = a\<lparr>aUses := fmdrop (rUseID r) (aUses a)\<rparr>"
        have "(out, x, s') = (respond_use a' (fmlookup (Volumes s) (aVolumeID a)),
            None, put_attachment (rAttachmentID r) a' s)"
          using assms i op(1) a True by (simp add: node_op_def node_authorised_def Let_def a'_def)
        then show thesis using released [OF _ True a a'_def] by blast
      next
        case False
        have op4: "op = ''AcquireUse'' \<or> op = ''CheckUse'' \<or> op = ''RecordPublish'' \<or> op = ''MarkInitialized''"
          using op(2) False by auto
        show thesis
        proof (cases "\<exists>v. healthy s a v")
          case False
          then have "node_op cfg p op r s \<in> {(respond_use a (fmlookup (Volumes s) (aVolumeID a)), Some e, s) |e. True}"
            using op4 i op(1) a
            by (elim disjE)
              (simp_all add: node_op_def node_authorised_def healthy_def Let_def Err_def split: option.split)
          then have "(\<exists>e. x = Some e) \<and> s' = s
              \<and> out = respond_use a (fmlookup (Volumes s) (aVolumeID a))"
            using assms by simp
          then show thesis using rejected a by blast
        next
          case True
          then obtain v where v: "healthy s a v" by blast
          let ?out = "respond_use a (Some v)"
          note facts = assms i op(1) a v
          have rej: thesis if "x = Some e" "s' = s" "out = ?out" for e
          proof -
            have "fmlookup (Volumes s) (aVolumeID a) = Some v" using v by (simp add: healthy_def)
            then have "out = respond_use a (fmlookup (Volumes s) (aVolumeID a))" using that by simp
            then show thesis using rejected that a by blast
          qed
          note defs = node_op_def node_authorised_def healthy_def Let_def Err_def
          from op4 show thesis
          proof (elim disjE)
            assume "op = ''AcquireUse''"
            show thesis
            proof (cases "rMode r = vMode v \<and> rFSType r = vFSType v")
              case True
              define a' where "a' = a\<lparr>aUses := fmupd (rUseID r) True (aUses a)\<rparr>"
              have "(out, x, s') = (respond_use a' (Some v),
                  None, put_attachment (rAttachmentID r) a' s)"
                using facts True \<open>op = ''AcquireUse''\<close> by (simp add: defs a'_def)
              then show thesis using acquired [OF _ \<open>op = ''AcquireUse''\<close> a v _ _ a'_def] True by blast
            next
              case False
              then have "(\<exists>e. x = Some e) \<and> s' = s \<and> out = ?out"
                using facts \<open>op = ''AcquireUse''\<close> by (auto simp: defs)
              then show thesis using rej by blast
            qed
          next
            assume "op = ''CheckUse''"
            then have "s' = s \<and> out = ?out
                \<and> (if fmlookup (aUses a) (rUseID r) = Some True then x = None else (\<exists>e. x = Some e))"
              using facts by (auto simp: defs)
            then show thesis using rej checked a v \<open>op = ''CheckUse''\<close> by (metis (full_types))
          next
            assume "op = ''RecordPublish''"
            then have "s' = s \<and> out = ?out
                \<and> (if fmlookup (aUses a) (rUseID r) = Some True \<and> ValidID (rPodUID r)
                   then x = None else (\<exists>e. x = Some e))"
              using facts by (cases "fmlookup (aUses a) (rUseID r) = Some True"; cases "ValidID (rPodUID r)")
                (auto simp: defs)
            then show thesis using rej checked a v \<open>op = ''RecordPublish''\<close> by (metis (full_types))
          next
            assume "op = ''MarkInitialized''"
            show thesis
            proof (cases "fmlookup (aUses a) (rUseID r) = Some True")
              case True
              define v' where "v' = v\<lparr>vAllowFormat := False\<rparr>"
              have "(out, x, s') = (respond_use a (Some v'),
                  None, put_volume (aVolumeID a) v' s)"
                using facts True \<open>op = ''MarkInitialized''\<close> by (simp add: defs v'_def)
              then show thesis
                using initialised [OF _ \<open>op = ''MarkInitialized''\<close> a v True v'_def] by blast
            next
              case False
              then have "(\<exists>e. x = Some e) \<and> s' = s \<and> out = ?out"
                using facts \<open>op = ''MarkInitialized''\<close> by (auto simp: defs)
              then show thesis using rej by blast
            qed
          qed
        qed
      qed
    qed
  qed
qed

section \<open>Rejections\<close>

lemma rejected_create_volume: "create_volume cfg env p r s = (out, Some e, s') \<Longrightarrow> s' = s"
  by (erule create_volume_cases) simp_all

lemma rejected_volume_case: "volume_case env p op r s = (out, Some e, s') \<Longrightarrow> s' = s"
  by (erule volume_case_cases) simp_all

lemma rejected_create_attachment: "create_attachment cfg env p r s = (out, Some e, s') \<Longrightarrow> s' = s"
  by (erule create_attachment_cases) simp_all

lemma rejected_attachment_case: "attachment_case env p op r s = (out, Some e, s') \<Longrightarrow> s' = s"
  by (erule attachment_case_cases) simp_all

lemma rejected_node_op: "node_op cfg p op r s = (out, Some e, s') \<Longrightarrow> s' = s"
  by (erule node_op_cases) simp_all

lemma get_instance_state: "get_instance cfg p r s = (out, x, s') \<Longrightarrow> s' = s"
  by (simp add: get_instance_def split: prod.splits)

end
