(* ===== verification/EngineProps.thy ===== *)
theory EngineProps
  imports EngineCases
begin

text \<open>
  The engine's guarantees for a single call: rejections change nothing, well-formedness is kept,
  tenants are isolated, and the operations do what the API contract says on every branch.
\<close>

section \<open>Every operation keeps the state well-formed\<close>

definition fresh_ids :: "call_env \<Rightarrow> platform \<Rightarrow> bool" where
  "fresh_ids env s \<longleftrightarrow>
     fmlookup (Volumes s) (newID ''volume-'' (eRandom env)) = None
     \<and> fmlookup (Attachments s) (newID ''attachment-'' (eRandom env)) = None"

lemma newID_nonempty: "prefix \<noteq> '''' \<Longrightarrow> newID prefix rnd \<noteq> ''''"
  by (simp add: newID_def)

lemma wf_request_delete:
  "wf_volume v \<Longrightarrow> wf_volume (request_delete v)" "same_volume v (request_delete v)"
  "vDeleteRequested (request_delete v)" "vGeneration (request_delete v) = vGeneration v"
  by (auto simp: wf_volume_def request_delete_def same_volume_def Let_def)

lemma wf_request_size:
  "wf_volume v \<Longrightarrow> \<not> vDeleteRequested v \<Longrightarrow> vDesiredSizeBytes v \<le> n \<Longrightarrow> n \<le> 2 ^ 50 \<Longrightarrow>
     wf_volume (request_size n v)"
  "same_volume v (request_size n v)"
  "vDeleteRequested (request_size n v) = vDeleteRequested v"
  "vGeneration (request_size n v) = vGeneration v"
  by (auto simp: wf_volume_def request_size_def same_volume_def Let_def)

lemma wf_new_volume:
  "valid_create cfg r \<Longrightarrow> valid_capability r \<Longrightarrow> wf_volume (new_volume i p r)"
  by (auto simp: valid_create_def valid_capability_def wf_volume_def new_volume_def zero_volume_def)

lemma new_volume_simps [simp]:
  "vID (new_volume i p r) = i" "vTenantID (new_volume i p r) = pTenantID p"
  "vClusterID (new_volume i p r) = pClusterID p" "vName (new_volume i p r) = rName r"
  "\<not> vDeleteRequested (new_volume i p r)" "vGeneration (new_volume i p r) = 0"
  "vState (new_volume i p r) = ''CREATING''" "vAllowFormat (new_volume i p r)"
  by (simp_all add: new_volume_def zero_volume_def)

lemma new_attachment_simps [simp]:
  "aID (new_attachment i v x) = i" "aTenantID (new_attachment i v x) = vTenantID v"
  "aClusterID (new_attachment i v x) = vClusterID v" "aVolumeID (new_attachment i v x) = vID v"
  "aInstanceID (new_attachment i v x) = iID x" "aGeneration (new_attachment i v x) = vGeneration v"
  "live (new_attachment i v x)" "aState (new_attachment i v x) = ''ATTACHING''"
  "\<not> aDeleteRequested (new_attachment i v x)" "aUses (new_attachment i v x) = fmempty"
  "wf_attachment (new_attachment i v x)"
  by (simp_all add: new_attachment_def live_def wf_attachment_def)

lemma create_volume_wf:
  assumes "create_volume cfg env p r s = (out, x, s')" and "wf s" and "env_for env s" and "fresh_ids env s"
  shows "wf s'"
  using assms(1)
proof (cases rule: create_volume_cases)
  case (created v)
  have "enumerates (eVolumes env) (Volumes s)" using assms(3) by (simp add: env_for_def)
  then have "\<forall>k v'. fmlookup (Volumes s) k = Some v' \<longrightarrow> \<not> (owned p (Some v') \<and> vName v' = rName r)"
    using created(7) by (simp add: find_range_values_None)
  then show ?thesis
    unfolding created(4) using assms(2,4) created(2,5,6)
    by (intro wf_add_volume) (auto simp: fresh_ids_def wf_new_volume)
qed (simp_all add: assms)

lemma volume_case_wf:
  assumes "volume_case env p op r s = (out, x, s')" and "wf s" and "env_for env s"
  shows "wf s'"
  using assms(1)
proof (cases rule: volume_case_cases)
  case (deleted v v')
  have "enumerates (eAttachments env) (Attachments s)" and "vID v = rID r"
    using assms(2,3) deleted(3) by (auto simp: env_for_def dest: wf_volumeD)
  then have "\<forall>k a. fmlookup (Attachments s) k = Some a \<longrightarrow> aVolumeID a = rID r \<longrightarrow> \<not> live a"
    using deleted(5) by (auto simp: active_iff)
  then show ?thesis
    unfolding deleted(6,8) using assms(2) deleted(3) wf_volumeD(2) [OF assms(2) deleted(3)]
    by (intro wf_put_volume [OF assms(2) deleted(3)]) (auto simp: wf_request_delete)
next
  case (resized v v')
  then show ?thesis
    unfolding resized(9,11) using wf_volumeD(2) [OF assms(2) resized(3)]
    by (intro wf_put_volume [OF assms(2) resized(3)]) (auto simp: wf_request_size)
qed (simp_all add: assms)

lemma create_attachment_wf:
  assumes step: "create_attachment cfg env p r s = (out, x, s')" and wf: "wf s" and env: "env_for env s"
    and fresh: "fresh_ids env s" and room: "generations_le n s" "n < 2 ^ 64 - 1"
  shows "wf s'"
  using step
proof (cases rule: create_attachment_cases)
  case (created v v' i a)
  have v: "vID v = rVolumeID r" "wf_volume v"
    using wf_volumeD [OF wf created(2)] by auto
  have "unat (vGeneration v) < 2 ^ 64 - 1"
    using room created(2) unfolding generations_le_def by (meson le_less_trans)
  then have more: "vGeneration v < vGeneration v'"
    by (simp add: created(11) word_less_nat_alt unat_increment)
  have no_live: "\<forall>k b. fmlookup (Attachments s) k = Some b \<longrightarrow> \<not> (aVolumeID b = vID v \<and> live b)"
    using env created(10) by (simp add: env_for_def find_range_values_None)
  have wf1: "wf (put_volume (rVolumeID r) v' s)"
    using v created(7) more no_live
    by (intro wf_put_volume [OF wf created(2)]) (auto simp: created(11) same_volume_def wf_volume_def)
  have old: "aGeneration b \<le> vGeneration v"
    if "fmlookup (Attachments s) k = Some b" "aVolumeID b = vID v" for k b
    using wf_attachmentD(4) [OF wf that(1)] that(2) created(2) v(1) by (auto simp: belongs_def)
  have "aID a \<noteq> ''''"
    by (simp add: created(12) newID_nonempty)
  moreover have "fmlookup (Attachments s) (aID a) = None"
    using fresh by (simp add: created(12) fresh_ids_def)
  moreover have "\<not> live b \<and> aGeneration b \<noteq> aGeneration a"
    if "fmlookup (Attachments s) k = Some b" "aVolumeID b = aVolumeID a" for k b
  proof -
    have "aVolumeID b = vID v" using that(2) by (simp add: created(11,12))
    then have "\<not> live b" and "aGeneration b \<le> vGeneration v" using no_live old that(1) by auto
    then show ?thesis using more by (auto simp: created(12))
  qed
  moreover have "vGeneration v' \<noteq> 0" using more by auto
  ultimately show ?thesis
    unfolding created(14)
    by (intro wf_add_attachment [OF wf1, where v = v'])
      (use v created(7,8,11,12) in \<open>auto simp: belongs_def\<close>)
qed (simp_all add: wf)

lemma attachment_case_wf:
  assumes "attachment_case env p op r s = (out, x, s')" and wf: "wf s"
  shows "wf s'"
  using assms(1)
proof (cases rule: attachment_case_cases)
  case (deleted k a a')
  then show ?thesis
    unfolding deleted(8,10) using wf_attachmentD(3) [OF wf deleted(4)]
    by (intro wf_put_attachment [OF wf deleted(4)])
      (auto simp: wf_attachment_def same_attachment_def live_def)
qed (simp_all add: wf)

lemma node_op_wf:
  assumes "node_op cfg p op r s = (out, x, s')" and wf: "wf s"
  shows "wf s'"
  using assms(1)
proof (cases rule: node_op_cases)
  case (released i a a')
  then have a: "fmlookup (Attachments s) (rAttachmentID r) = Some a" by (simp add: node_authorised_def)
  show ?thesis
    unfolding released(4,6) using wf_attachmentD(3) [OF wf a]
    by (intro wf_put_attachment [OF wf a]) (auto simp: wf_attachment_def same_attachment_def live_def)
next
  case (acquired i a v a')
  then have a: "fmlookup (Attachments s) (rAttachmentID r) = Some a" by (simp add: node_authorised_def)
  show ?thesis
    unfolding acquired(7,9) using wf_attachmentD(3) [OF wf a] acquired(4)
    by (intro wf_put_attachment [OF wf a])
      (auto simp: wf_attachment_def same_attachment_def live_def healthy_def)
next
  case (initialised i a v v')
  then have v: "fmlookup (Volumes s) (aVolumeID a) = Some v" by (simp add: healthy_def)
  show ?thesis
    unfolding initialised(6,8) using wf_volumeD(2) [OF wf v]
    by (intro wf_put_volume [OF wf v]) (auto simp: wf_volume_def same_volume_def)
qed (simp_all add: wf)

text \<open>Which operation a call runs.\<close>

lemma apply_op_cases:
  assumes "apply_op cfg env p op r s = (out, x, s')"
  obtains
    (refused) e where "x = Some e" "out = zero_response" "s' = s"
  | (node) "pRole p = ''node''" "node_op cfg p op r s = (out, x, s')"
  | (get_instance) "pRole p = ''controller''" "op = ''GetInstance''" "get_instance cfg p r s = (out, x, s')"
  | (create_volume) "pRole p = ''controller''" "op = ''CreateVolume''"
      "create_volume cfg env p r s = (out, x, s')"
  | (volume_case) "pRole p = ''controller''" "op \<in> {''GetVolume'', ''DeleteVolume'', ''ResizeVolume''}"
      "volume_case env p op r s = (out, x, s')"
  | (create_attachment) "pRole p = ''controller''" "op = ''CreateAttachment''"
      "create_attachment cfg env p r s = (out, x, s')"
  | (attachment_case) "pRole p = ''controller''" "op \<in> {''GetAttachment'', ''DeleteAttachment''}"
      "attachment_case env p op r s = (out, x, s')"
proof -
  consider "pRole p = ''node''" | "pRole p \<noteq> ''node''" "pRole p \<noteq> ''controller''"
    | "pRole p = ''controller''" "op = ''GetInstance''" | "pRole p = ''controller''" "op = ''CreateVolume''"
    | "pRole p = ''controller''" "op \<in> {''GetVolume'', ''DeleteVolume'', ''ResizeVolume''}"
    | "pRole p = ''controller''" "op = ''CreateAttachment''"
    | "pRole p = ''controller''" "op \<in> {''GetAttachment'', ''DeleteAttachment''}"
    | "pRole p = ''controller''" "op \<notin> {''GetInstance'', ''CreateVolume'', ''GetVolume'', ''DeleteVolume'',
        ''ResizeVolume'', ''CreateAttachment'', ''GetAttachment'', ''DeleteAttachment''}"
    by fast
  then show thesis
  proof cases
    case 1
    then have "node_op cfg p op r s = (out, x, s')" using assms by (simp add: apply_op_def)
    then show thesis using node 1 by blast
  next
    case 2
    then have "(\<exists>e. x = Some e) \<and> out = zero_response \<and> s' = s"
      using assms by (auto simp: apply_op_def Err_def)
    then show thesis using refused by blast
  next
    case 3
    then have "get_instance cfg p r s = (out, x, s')" using assms by (simp add: apply_op_def)
    then show thesis using get_instance 3 by blast
  next
    case 4
    then have "create_volume cfg env p r s = (out, x, s')" using assms by (simp add: apply_op_def)
    then show thesis using create_volume 4 by blast
  next
    case 5
    then have "volume_case env p op r s = (out, x, s')" using assms by (auto simp: apply_op_def)
    then show thesis using volume_case 5 by blast
  next
    case 6
    then have "create_attachment cfg env p r s = (out, x, s')" using assms by (simp add: apply_op_def)
    then show thesis using create_attachment 6 by blast
  next
    case 7
    then have "attachment_case env p op r s = (out, x, s')" using assms by (auto simp: apply_op_def)
    then show thesis using attachment_case 7 by blast
  next
    case 8
    then have "(\<exists>e. x = Some e) \<and> out = zero_response \<and> s' = s"
      using assms by (auto simp: apply_op_def Err_def)
    then show thesis using refused by blast
  qed
qed

lemma apply_op_wf:
  assumes "apply_op cfg env p op r s = (out, x, s')" and "wf s" and "env_for env s"
    and "fresh_ids env s" and "generations_le n s" and "n < 2 ^ 64 - 1"
  shows "wf s'"
  using assms(1)
proof (cases rule: apply_op_cases)
  case create_attachment
  then show ?thesis using create_attachment_wf assms(2-) by blast
next
  case create_volume
  then show ?thesis using create_volume_wf assms(2-) by blast
next
  case volume_case
  then show ?thesis using volume_case_wf assms(2-) by blast
next
  case attachment_case
  then show ?thesis using attachment_case_wf assms(2-) by blast
next
  case node
  then show ?thesis using node_op_wf assms(2) by blast
next
  case get_instance
  with assms(2) show ?thesis by (auto dest: get_instance_state)
qed (simp_all add: assms)

end
