(* ===== verification/Lifecycle.thy ===== *)
theory Lifecycle
  imports EngineProps
begin

text \<open>
  How one record may change over time, whatever the operation: a preorder \<open>evolves\<close> on the
  platform state. Volumes keep their identity and configuration, their deletion request, their
  device key and their generation counter; \<open>AllowFormat\<close> is only ever withdrawn. Attachments keep
  their identity and move forward through the phases below.
\<close>

section \<open>The phases of an attachment\<close>

datatype phase = Attaching | Attached | Detaching | Detached

fun phase_rank :: "phase \<Rightarrow> nat" where
  "phase_rank Attaching = 0"
| "phase_rank Attached = 1"
| "phase_rank Detaching = 2"
| "phase_rank Detached = 3"

lemma phase_rank_inject [simp]: "phase_rank x = phase_rank y \<longleftrightarrow> x = y"
  by (cases x; cases y) simp_all

instantiation phase :: linorder
begin

definition less_eq_phase :: "phase \<Rightarrow> phase \<Rightarrow> bool" where
  "less_eq_phase x y \<longleftrightarrow> phase_rank x \<le> phase_rank y"

definition less_phase :: "phase \<Rightarrow> phase \<Rightarrow> bool" where
  "less_phase x y \<longleftrightarrow> phase_rank x < phase_rank y"

instance
  by standard (auto simp: less_eq_phase_def less_phase_def)

end

definition phase_of :: "attachment \<Rightarrow> phase" where
  "phase_of a =
     (if aState a = ''ATTACHING'' then Attaching
      else if aState a = ''ATTACHED'' then Attached
      else if aState a = ''DETACHING'' then Detaching else Detached)"

lemma phase_le_iff [simp]:
  "Attaching \<le> x" "Attached \<le> Detaching" "Attached \<le> Detached" "Detaching \<le> Detached"
  "x \<le> Detached" "\<not> Detached \<le> Detaching" "\<not> Detaching \<le> Attached" "\<not> Attached \<le> Attaching"
  "\<not> Detached \<le> Attached" "\<not> Detached \<le> Attaching" "\<not> Detaching \<le> Attaching"
  by (cases x; simp add: less_eq_phase_def)+

section \<open>Evolution of the state\<close>

definition volume_evolves :: "volume \<Rightarrow> volume \<Rightarrow> bool" where
  "volume_evolves v v' \<longleftrightarrow>
     vID v' = vID v \<and> vTenantID v' = vTenantID v \<and> vClusterID v' = vClusterID v \<and> vName v' = vName v
     \<and> vType v' = vType v \<and> vRegion v' = vRegion v \<and> vZone v' = vZone v
     \<and> vInitialSizeBytes v' = vInitialSizeBytes v \<and> vMode v' = vMode v \<and> vFSType v' = vFSType v
     \<and> vDesiredSizeBytes v \<le> vDesiredSizeBytes v' \<and> vGeneration v \<le> vGeneration v'
     \<and> (vAllowFormat v' \<longrightarrow> vAllowFormat v)
     \<and> (vDeleteRequested v \<longrightarrow> vDeleteRequested v')
     \<and> (vState v = ''DELETED'' \<longrightarrow> vState v' = ''DELETED'')
     \<and> (vState v' = ''CREATING'' \<longrightarrow> vState v = ''CREATING'')
     \<and> (vDeviceKey v \<noteq> '''' \<longrightarrow> vDeviceKey v' = vDeviceKey v)"

definition attachment_evolves :: "attachment \<Rightarrow> attachment \<Rightarrow> bool" where
  "attachment_evolves a a' \<longleftrightarrow>
     aID a' = aID a \<and> aTenantID a' = aTenantID a \<and> aClusterID a' = aClusterID a
     \<and> aVolumeID a' = aVolumeID a \<and> aInstanceID a' = aInstanceID a \<and> aGeneration a' = aGeneration a
     \<and> phase_of a \<le> phase_of a'"

definition evolves :: "platform \<Rightarrow> platform \<Rightarrow> bool" where
  "evolves s s' \<longleftrightarrow>
     (\<forall>k v. fmlookup (Volumes s) k = Some v \<longrightarrow>
        (\<exists>v'. fmlookup (Volumes s') k = Some v' \<and> volume_evolves v v'))
     \<and> (\<forall>k a. fmlookup (Attachments s) k = Some a \<longrightarrow>
        (\<exists>a'. fmlookup (Attachments s') k = Some a' \<and> attachment_evolves a a'))"

lemma evolves_refl [simp]: "volume_evolves v v" "attachment_evolves a a" "evolves s s"
  by (auto simp: volume_evolves_def attachment_evolves_def evolves_def)

lemma volume_evolves_trans:
  "volume_evolves v v' \<Longrightarrow> volume_evolves v' v'' \<Longrightarrow> volume_evolves v v''"
  unfolding volume_evolves_def
  by (elim conjE, intro conjI) (metis order_trans)+

lemma attachment_evolves_trans:
  "attachment_evolves a a' \<Longrightarrow> attachment_evolves a' a'' \<Longrightarrow> attachment_evolves a a''"
  unfolding attachment_evolves_def by auto

lemma evolves_trans: "evolves s s' \<Longrightarrow> evolves s' s'' \<Longrightarrow> evolves s s''"
  unfolding evolves_def by (meson volume_evolves_trans attachment_evolves_trans)

lemma evolves_volumeD:
  "evolves s s' \<Longrightarrow> fmlookup (Volumes s) k = Some v \<Longrightarrow>
     \<exists>v'. fmlookup (Volumes s') k = Some v' \<and> volume_evolves v v'"
  by (simp add: evolves_def)

lemma evolves_attachmentD:
  "evolves s s' \<Longrightarrow> fmlookup (Attachments s) k = Some a \<Longrightarrow>
     \<exists>a'. fmlookup (Attachments s') k = Some a' \<and> attachment_evolves a a'"
  by (simp add: evolves_def)

lemma evolves_put_volume:
  "fmlookup (Volumes s) k = None \<or> (\<exists>v. fmlookup (Volumes s) k = Some v \<and> volume_evolves v v') \<Longrightarrow>
     evolves s (put_volume k v' s)"
  by (auto simp: evolves_def)

lemma evolves_put_attachment:
  "fmlookup (Attachments s) k = None \<or> (\<exists>a. fmlookup (Attachments s) k = Some a \<and> attachment_evolves a a') \<Longrightarrow>
     evolves s (put_attachment k a' s)"
  by (auto simp: evolves_def)

lemma attachment_evolves_live: "attachment_evolves a a' \<Longrightarrow> live a' \<Longrightarrow> wf_attachment a' \<Longrightarrow> live a"
  by (auto simp: attachment_evolves_def live_def wf_attachment_def phase_of_def split: if_splits)

section \<open>Every call is an evolution\<close>

lemma evolves_request:
  "volume_evolves v (request_delete v)"
  "wf_volume v \<Longrightarrow> \<not> vDeleteRequested v \<Longrightarrow> vDesiredSizeBytes v \<le> n \<Longrightarrow> volume_evolves v (request_size n v)"
  by (auto simp: volume_evolves_def request_delete_def request_size_def wf_volume_def Let_def)

lemma generation_room:
  assumes "generations_le n s" and "n < 2 ^ 64 - 1" and "fmlookup (Volumes s) k = Some v"
  shows "unat (vGeneration v + 1) = Suc (unat (vGeneration v))" and "vGeneration v \<le> vGeneration v + 1"
proof -
  have "unat (vGeneration v) < 2 ^ 64 - 1"
    using assms unfolding generations_le_def by (meson le_less_trans)
  then show "unat (vGeneration v + 1) = Suc (unat (vGeneration v))" by (rule unat_increment)
  then show "vGeneration v \<le> vGeneration v + 1" by (simp add: word_le_nat_alt)
qed

lemma volume_case_evolves:
  assumes "volume_case env p op r s = (out, x, s')" and wf: "wf s"
  shows "evolves s s'"
  using assms(1)
proof (cases rule: volume_case_cases)
  case (deleted v v')
  then show ?thesis by (auto intro!: evolves_put_volume evolves_request)
next
  case (resized v v')
  then show ?thesis
    using wf_volumeD(2) [OF wf resized(3)] by (auto intro!: evolves_put_volume evolves_request)
qed simp_all

lemma create_attachment_evolves:
  assumes "create_attachment cfg env p r s = (out, x, s')" and "fresh_ids env s"
    and room: "generations_le n s" "n < 2 ^ 64 - 1"
  shows "evolves s s'"
  using assms(1)
proof (cases rule: create_attachment_cases)
  case (created v v' i a)
  have "volume_evolves v v'"
    using generation_room [OF room created(2)] by (simp add: created(11) volume_evolves_def)
  then have "evolves s (put_volume (rVolumeID r) v' s)"
    using created(2) by (intro evolves_put_volume) blast
  moreover have "fmlookup (Attachments s) (aID a) = None"
    using assms(2) by (simp add: created(12) fresh_ids_def)
  then have "evolves (put_volume (rVolumeID r) v' s) s'"
    unfolding created(14) by (intro evolves_put_attachment) simp
  ultimately show ?thesis by (rule evolves_trans)
qed simp_all

lemma attachment_case_evolves:
  assumes "attachment_case env p op r s = (out, x, s')" and wf: "wf s"
  shows "evolves s s'"
  using assms(1)
proof (cases rule: attachment_case_cases)
  case (deleted k a a')
  have "attachment_evolves a a'"
    using deleted(7) wf_attachmentD(3) [OF wf deleted(4)]
    by (auto simp: deleted(8) attachment_evolves_def phase_of_def live_def wf_attachment_def)
  then show ?thesis unfolding deleted(10) using deleted(4) by (intro evolves_put_attachment) blast
qed simp_all

lemma node_op_evolves:
  assumes "node_op cfg p op r s = (out, x, s')"
  shows "evolves s s'"
  using assms
proof (cases rule: node_op_cases)
  case (released i a a')
  have "attachment_evolves a a'" by (simp add: released(4) attachment_evolves_def phase_of_def)
  then show ?thesis
    unfolding released(6) using released(3) by (intro evolves_put_attachment) (auto simp: node_authorised_def)
next
  case (acquired i a v a')
  have "attachment_evolves a a'" by (simp add: acquired(7) attachment_evolves_def phase_of_def)
  then show ?thesis
    unfolding acquired(9) using acquired(3) by (intro evolves_put_attachment) (auto simp: node_authorised_def)
next
  case (initialised i a v v')
  have "volume_evolves v v'" by (simp add: initialised(6) volume_evolves_def)
  then show ?thesis
    unfolding initialised(8) using initialised(4) by (intro evolves_put_volume) (auto simp: healthy_def)
qed simp_all

lemma apply_op_evolves:
  assumes "apply_op cfg env p op r s = (out, x, s')" and wf: "wf s" and fresh: "fresh_ids env s"
    and room: "generations_le n s" "n < 2 ^ 64 - 1"
  shows "evolves s s'"
  using assms(1)
proof (cases rule: apply_op_cases)
  case create_volume
  from create_volume(3) show ?thesis
  proof (cases rule: create_volume_cases)
    case (created v)
    then show ?thesis using fresh by (auto intro!: evolves_put_volume simp: fresh_ids_def)
  qed simp_all
next
  case volume_case
  then show ?thesis using volume_case_evolves wf by blast
next
  case create_attachment
  then show ?thesis using create_attachment_evolves fresh room by blast
next
  case attachment_case
  then show ?thesis using attachment_case_evolves wf by blast
next
  case node
  then show ?thesis using node_op_evolves by blast
next
  case get_instance
  then show ?thesis by (auto dest: get_instance_state)
qed simp

end
