(* ===== verification/Reconcile.thy ===== *)
theory Reconcile
  imports Lifecycle
begin

text \<open>
  \<^verbatim>\<open>Engine.Reconcile\<close> of \<^verbatim>\<open>internal/platform/engine.go\<close>: one transaction that drives the cloud
  towards the recorded intent, first every volume, then every attachment. The provider's state
  is captured by the transaction: what a provider call did stays done when the transaction is
  rolled back. A dereference of a missing volume is the value \<open>None\<close> (a panic, which bbolt turns
  into a rollback before it passes it on).
\<close>

section \<open>The loops\<close>

text \<open>The environment of one run: the order of the two loops, and the error the context reports
  when the first and the second provider call for an entry is made.\<close>

record reconcile_env =
  zVolumes :: "string list"
  zAttachments :: "string list"
  zVolumeCtx :: "string \<Rightarrow> nat \<Rightarrow> ctx"
  zAttachmentCtx :: "string \<Rightarrow> nat \<Rightarrow> ctx"

definition reconcile_for :: "reconcile_env \<Rightarrow> platform \<Rightarrow> bool" where
  "reconcile_for z s \<longleftrightarrow> enumerates (zVolumes z) (Volumes s) \<and> enumerates (zAttachments z) (Attachments s)"

definition observe_volume ::
  "'p provider \<Rightarrow> (nat \<Rightarrow> ctx) \<Rightarrow> volume \<Rightarrow> disk option \<Rightarrow> 'p \<Rightarrow> (disk \<times> go_error option) \<times> 'p" where
  "observe_volume P ctx v observed p =
     (case observed of
        Some d \<Rightarrow> if dSizeBytes d \<ge> vDesiredSizeBytes v then ((d, None), p)
                  else EnsureVolume P (ctx 1) v p
      | None \<Rightarrow> EnsureVolume P (ctx 1) v p)"

definition reconcile_volume ::
  "'p provider \<Rightarrow> (nat \<Rightarrow> ctx) \<Rightarrow> string list \<Rightarrow> platform \<Rightarrow> volume \<Rightarrow> 'p \<Rightarrow> volume \<times> 'p" where
  "reconcile_volume P ctx aks s v p =
     (if vState v = ''DELETED'' then (v, p)
      else
        let v = v\<lparr>vLastError := ''''\<rparr>
        in if vDeleteRequested v then
             if active aks s (vID v) then (v, p)
             else
               case DeleteVolume P (ctx 0) (vID v) p of
                 (None, p) \<Rightarrow> (v\<lparr>vState := ''DELETED''\<rparr>, p)
               | (Some e, p) \<Rightarrow> (v\<lparr>vLastError := Error e\<rparr>, p)
           else
             case GetVolume P (ctx 0) (vID v) p of
               ((_, Some e), p) \<Rightarrow> (v\<lparr>vLastError := Error e\<rparr>, p)
             | ((observed, None), p) \<Rightarrow>
                 if observed = None \<and> vState v \<noteq> ''CREATING'' then
                   (v\<lparr>vLastError := ''previously created disk missing; never recreate data implicitly''\<rparr>, p)
                 else
                   case observe_volume P ctx v observed p of
                     ((_, Some e), p) \<Rightarrow> (v\<lparr>vLastError := Error e\<rparr>, p)
                   | ((d, None), p) \<Rightarrow>
                       if vDeviceKey v \<noteq> '''' \<and> vDeviceKey v \<noteq> dDeviceKey d then
                         (v\<lparr>vLastError := ''device identity changed; recovery required''\<rparr>, p)
                       else
                         (v\<lparr>vSizeBytes := dSizeBytes d, vDeviceKey := dDeviceKey d, vState := ''AVAILABLE''\<rparr>, p))"

fun reconcile_volumes ::
  "'p provider \<Rightarrow> reconcile_env \<Rightarrow> string list \<Rightarrow> platform \<Rightarrow> 'p \<Rightarrow> platform \<times> 'p" where
  "reconcile_volumes P z [] s p = (s, p)"
| "reconcile_volumes P z (k # ks) s p =
     (case fmlookup (Volumes s) k of
        None \<Rightarrow> reconcile_volumes P z ks s p
      | Some v \<Rightarrow>
          (case reconcile_volume P (zVolumeCtx z k) (zAttachments z) s v p of
             (v, p) \<Rightarrow> reconcile_volumes P z ks (put_volume k v s) p))"

definition reconcile_attachment ::
  "'p provider \<Rightarrow> config \<Rightarrow> (nat \<Rightarrow> ctx) \<Rightarrow> platform \<Rightarrow> attachment \<Rightarrow> 'p \<Rightarrow> attachment option \<times> 'p" where
  "reconcile_attachment P cfg ctx s a p =
     (if aState a = ''DETACHED'' then (Some a, p)
      else
        let a = a\<lparr>aLastError := ''''\<rparr>
        in if aDeleteRequested a then
             if fmdom (aUses a) \<noteq> {||} then (Some a, p)
             else
               case EnsureDetached P (ctx 0) (aVolumeID a) (aInstanceID a) (aID a) p of
                 (None, p) \<Rightarrow> (Some (a\<lparr>aState := ''DETACHED''\<rparr>), p)
               | (Some e, p) \<Rightarrow> (Some (a\<lparr>aLastError := Error e\<rparr>), p)
           else if (case fmlookup (Instances cfg) (aInstanceID a) of None \<Rightarrow> True | Some i \<Rightarrow> \<not> iActive i) then
             (Some (a\<lparr>aLastError := ''instance inactive: fencing required''\<rparr>), p)
           else
             case GetVolume P (ctx 0) (aVolumeID a) p of
               ((_, Some e), p) \<Rightarrow> (Some (a\<lparr>aLastError := Error e\<rparr>), p)
             | ((d, None), p) \<Rightarrow>
                 if aState a = ''ATTACHED'' \<and> fmdom (aUses a) \<noteq> {||}
                    \<and> (case d of None \<Rightarrow> True
                       | Some d \<Rightarrow> dInstanceID d \<noteq> aInstanceID a \<or> dAttachmentID d \<noteq> aID a) then
                   (Some (a\<lparr>aLastError := ''cloud state drift with active use: fencing required''\<rparr>), p)
                 else
                   case fmlookup (Volumes s) (aVolumeID a) of
                     None \<Rightarrow> (None, p)
                   | Some v \<Rightarrow>
                       if vLastError v \<noteq> '''' then (Some a, p)
                       else
                         case EnsureAttached P (ctx 1) (aVolumeID a) (aInstanceID a) (aID a) p of
                           (None, p) \<Rightarrow> (Some (a\<lparr>aState := ''ATTACHED''\<rparr>), p)
                         | (Some e, p) \<Rightarrow> (Some (a\<lparr>aLastError := Error e\<rparr>), p))"

fun reconcile_attachments ::
  "'p provider \<Rightarrow> config \<Rightarrow> reconcile_env \<Rightarrow> string list \<Rightarrow> platform \<Rightarrow> 'p \<Rightarrow> platform option \<times> 'p" where
  "reconcile_attachments P cfg z [] s p = (Some s, p)"
| "reconcile_attachments P cfg z (k # ks) s p =
     (case fmlookup (Attachments s) k of
        None \<Rightarrow> reconcile_attachments P cfg z ks s p
      | Some a \<Rightarrow>
          (case reconcile_attachment P cfg (zAttachmentCtx z k) s a p of
             (None, p) \<Rightarrow> (None, p)
           | (Some a, p) \<Rightarrow> reconcile_attachments P cfg z ks (put_attachment k a s) p))"

definition reconcile_state ::
  "'p provider \<Rightarrow> config \<Rightarrow> reconcile_env \<Rightarrow> platform \<Rightarrow> 'p \<Rightarrow> platform option \<times> 'p" where
  "reconcile_state P cfg z s p =
     (case reconcile_volumes P z (zVolumes z) s p of
        (s, p) \<Rightarrow> reconcile_attachments P cfg z (zAttachments z) s p)"

section \<open>The transaction\<close>

text \<open>The closure captures the provider's state and whether it panicked.\<close>

definition nil_dereference :: go_error where
  "nil_dereference = PlainError ''runtime error: invalid memory address or nil pointer dereference''"

definition reconcile_tx ::
  "('tx, 'b) bolt \<Rightarrow> ('b, platform) codec \<Rightarrow> 'p provider \<Rightarrow> config \<Rightarrow> reconcile_env
     \<Rightarrow> ('p \<times> bool, 'tx) tx_fun" where
  "reconcile_tx B cds P cfg z captured tx =
     (case platform_read B cds tx of
        Inl e \<Rightarrow> (Some e, captured, tx)
      | Inr s \<Rightarrow>
          (case reconcile_state P cfg z s (fst captured) of
             (None, p) \<Rightarrow> (Some nil_dereference, (p, True), tx)
           | (Some s, p) \<Rightarrow>
               (case store_Write B cds tx ''platform'' s of
                  Inl e \<Rightarrow> (Some e, (p, False), tx)
                | Inr tx \<Rightarrow> (None, (p, False), tx))))"

definition Reconcile ::
  "('tx, 'b) bolt \<Rightarrow> ('b, platform) codec \<Rightarrow> (('p \<times> bool, 'tx) tx_fun \<Rightarrow> ('p \<times> bool, 'tx) tx_fun)
     \<Rightarrow> 'p provider \<Rightarrow> config \<Rightarrow> reconcile_env \<Rightarrow> 'p \<Rightarrow> 'tx \<Rightarrow> go_error option \<times> ('p \<times> bool) \<times> 'tx" where
  "Reconcile B cds upd P cfg z p db = upd (reconcile_tx B cds P cfg z) (p, False) db"

end
