(* ===== verification/ReconcileProps.thy ===== *)
theory ReconcileProps
  imports Reconcile
begin

text \<open>
  What one reconcile run does to the platform state and to the cloud. The cloud is any provider
  with the contract \<open>storage_provider\<close>; \<open>volume_effect\<close> and \<open>attachment_effect\<close> are the complete
  list of the changes one loop body can make to the disks.
\<close>

section \<open>Case rules of the loop bodies\<close>

abbreviation cleared :: "volume \<Rightarrow> volume" where
  "cleared v \<equiv> v\<lparr>vLastError := ''''\<rparr>"

lemma reconcile_volume_cases:
  assumes "reconcile_volume P ctx aks s v p = (v', p')"
  obtains
    (settled) "vState v = ''DELETED''" "v' = v" "p' = p"
  | (busy) "vState v \<noteq> ''DELETED''" "vDeleteRequested v" "active aks s (vID v)" "v' = cleared v" "p' = p"
  | (removed) "vState v \<noteq> ''DELETED''" "vDeleteRequested v" "\<not> active aks s (vID v)"
      "DeleteVolume P (ctx 0) (vID v) p = (None, p')" "v' = (cleared v)\<lparr>vState := ''DELETED''\<rparr>"
  | (kept) e where "vState v \<noteq> ''DELETED''" "vDeleteRequested v" "\<not> active aks s (vID v)"
      "DeleteVolume P (ctx 0) (vID v) p = (Some e, p')" "v' = v\<lparr>vLastError := Error e\<rparr>"
  | (unseen) x e where "vState v \<noteq> ''DELETED''" "\<not> vDeleteRequested v"
      "GetVolume P (ctx 0) (vID v) p = ((x, Some e), p')" "v' = v\<lparr>vLastError := Error e\<rparr>"
  | (missing) "vState v \<noteq> ''DELETED''" "\<not> vDeleteRequested v" "vState v \<noteq> ''CREATING''"
      "GetVolume P (ctx 0) (vID v) p = ((None, None), p')"
      "v' = v\<lparr>vLastError := ''previously created disk missing; never recreate data implicitly''\<rparr>"
  | (failed) x p1 d e where "vState v \<noteq> ''DELETED''" "\<not> vDeleteRequested v"
      "GetVolume P (ctx 0) (vID v) p = ((x, None), p1)" "x = None \<longrightarrow> vState v = ''CREATING''"
      "observe_volume P ctx (cleared v) x p1 = ((d, Some e), p')" "v' = v\<lparr>vLastError := Error e\<rparr>"
  | (changed) x p1 d where "vState v \<noteq> ''DELETED''" "\<not> vDeleteRequested v"
      "GetVolume P (ctx 0) (vID v) p = ((x, None), p1)" "x = None \<longrightarrow> vState v = ''CREATING''"
      "observe_volume P ctx (cleared v) x p1 = ((d, None), p')"
      "vDeviceKey v \<noteq> ''''" "vDeviceKey v \<noteq> dDeviceKey d"
      "v' = v\<lparr>vLastError := ''device identity changed; recovery required''\<rparr>"
  | (ensured) x p1 d where "vState v \<noteq> ''DELETED''" "\<not> vDeleteRequested v"
      "GetVolume P (ctx 0) (vID v) p = ((x, None), p1)" "x = None \<longrightarrow> vState v = ''CREATING''"
      "observe_volume P ctx (cleared v) x p1 = ((d, None), p')"
      "vDeviceKey v = '''' \<or> vDeviceKey v = dDeviceKey d"
      "v' = (cleared v)\<lparr>vSizeBytes := dSizeBytes d, vDeviceKey := dDeviceKey d, vState := ''AVAILABLE''\<rparr>"
proof (cases "vState v = ''DELETED'' \<or> vDeleteRequested v")
  case True
  consider (done') "vState v = ''DELETED''" | (busy') "vState v \<noteq> ''DELETED''" "vDeleteRequested v" "active aks s (vID v)"
    | (idle') "vState v \<noteq> ''DELETED''" "vDeleteRequested v" "\<not> active aks s (vID v)"
    using True by blast
  then show thesis
  proof cases
    case done'
    then have "v' = v \<and> p' = p" using assms by (simp add: reconcile_volume_def)
    then show thesis using settled done' by blast
  next
    case busy'
    then have "v' = cleared v \<and> p' = p" using assms by (simp add: reconcile_volume_def Let_def)
    then show thesis using busy busy' by blast
  next
    case idle'
    obtain e q where del: "DeleteVolume P (ctx 0) (vID v) p = (e, q)" by fastforce
    then have "(v', p') = (case e of None \<Rightarrow> (cleared v)\<lparr>vState := ''DELETED''\<rparr>
        | Some e \<Rightarrow> v\<lparr>vLastError := Error e\<rparr>, q)"
      using assms idle' by (cases e) (simp_all add: reconcile_volume_def Let_def)
    then have "e = None \<and> v' = (cleared v)\<lparr>vState := ''DELETED''\<rparr> \<and> p' = q
        \<or> (\<exists>x. e = Some x \<and> v' = v\<lparr>vLastError := Error x\<rparr> \<and> p' = q)"
      by (cases e) simp_all
    then show thesis using del idle' removed kept by blast
  qed
next
  case False
  obtain x e p1 where get: "GetVolume P (ctx 0) (vID v) p = ((x, e), p1)" by (metis prod.exhaust)
  show thesis
  proof (cases "e \<noteq> None \<or> x = None \<and> vState v \<noteq> ''CREATING''")
    case True
    then show thesis
      using assms False get unseen missing by (cases e) (auto simp: reconcile_volume_def Let_def)
  next
    case seen: False
    obtain d e2 p2 where obs: "observe_volume P ctx (cleared v) x p1 = ((d, e2), p2)" by (metis prod.exhaust)
    have split: "(v', p') = (case e2 of Some e \<Rightarrow> v\<lparr>vLastError := Error e\<rparr>
        | None \<Rightarrow> if vDeviceKey v \<noteq> '''' \<and> vDeviceKey v \<noteq> dDeviceKey d
            then v\<lparr>vLastError := ''device identity changed; recovery required''\<rparr>
            else (cleared v)\<lparr>vSizeBytes := dSizeBytes d, vDeviceKey := dDeviceKey d, vState := ''AVAILABLE''\<rparr>, p2)"
      using assms False seen get obs by (auto simp: reconcile_volume_def Let_def split: option.split)
    have ctx: "vState v \<noteq> ''DELETED''" "\<not> vDeleteRequested v"
        "GetVolume P (ctx 0) (vID v) p = ((x, None), p1)" "x = None \<longrightarrow> vState v = ''CREATING''"
      using False seen get by auto
    consider y where "e2 = Some y" | "e2 = None" "vDeviceKey v \<noteq> ''''" "vDeviceKey v \<noteq> dDeviceKey d"
      | "e2 = None" "vDeviceKey v = '''' \<or> vDeviceKey v = dDeviceKey d"
      by (cases e2) auto
    then show thesis
    proof cases
      case 1
      then have "v' = v\<lparr>vLastError := Error y\<rparr> \<and> p' = p2" using split by simp
      then show thesis using failed ctx obs 1 by blast
    next
      case 2
      then have "v' = v\<lparr>vLastError := ''device identity changed; recovery required''\<rparr> \<and> p' = p2"
        using split by simp
      then show thesis using changed ctx obs 2 by blast
    next
      case 3
      then have "v' = (cleared v)\<lparr>vSizeBytes := dSizeBytes d, vDeviceKey := dDeviceKey d,
          vState := ''AVAILABLE''\<rparr> \<and> p' = p2"
        using split by auto
      then show thesis using ensured ctx obs 3 by blast
    qed
  qed
qed

definition instance_active :: "config \<Rightarrow> string \<Rightarrow> bool" where
  "instance_active cfg i \<longleftrightarrow> (\<exists>x. fmlookup (Instances cfg) i = Some x \<and> iActive x)"

definition drifted :: "attachment \<Rightarrow> disk option \<Rightarrow> bool" where
  "drifted a d \<longleftrightarrow> (case d of None \<Rightarrow> True | Some d \<Rightarrow> \<not> attached_to d (aInstanceID a) (aID a))"

abbreviation quiet :: "attachment \<Rightarrow> attachment" where
  "quiet a \<equiv> a\<lparr>aLastError := ''''\<rparr>"

lemma fmdom_empty_iff: "fmdom m = {||} \<longleftrightarrow> m = fmempty"
  by (metis fmdom_empty fmrestrict_fset_dom fmrestrict_fset_null)

lemma reconcile_attachment_eq:
  "reconcile_attachment P cfg ctx s a p =
     (if \<not> live a then (Some a, p)
      else if aDeleteRequested a then
        if aUses a \<noteq> fmempty then (Some (quiet a), p)
        else case EnsureDetached P (ctx 0) (aVolumeID a) (aInstanceID a) (aID a) p of
            (None, p) \<Rightarrow> (Some ((quiet a)\<lparr>aState := ''DETACHED''\<rparr>), p)
          | (Some e, p) \<Rightarrow> (Some (a\<lparr>aLastError := Error e\<rparr>), p)
      else if \<not> instance_active cfg (aInstanceID a) then
        (Some (a\<lparr>aLastError := ''instance inactive: fencing required''\<rparr>), p)
      else case GetVolume P (ctx 0) (aVolumeID a) p of
          ((_, Some e), p) \<Rightarrow> (Some (a\<lparr>aLastError := Error e\<rparr>), p)
        | ((d, None), p) \<Rightarrow>
            if aState a = ''ATTACHED'' \<and> aUses a \<noteq> fmempty \<and> drifted a d then
              (Some (a\<lparr>aLastError := ''cloud state drift with active use: fencing required''\<rparr>), p)
            else case fmlookup (Volumes s) (aVolumeID a) of
                None \<Rightarrow> (None, p)
              | Some v \<Rightarrow>
                  if vLastError v \<noteq> '''' then (Some (quiet a), p)
                  else case EnsureAttached P (ctx 1) (aVolumeID a) (aInstanceID a) (aID a) p of
                      (None, p) \<Rightarrow> (Some ((quiet a)\<lparr>aState := ''ATTACHED''\<rparr>), p)
                    | (Some e, p) \<Rightarrow> (Some (a\<lparr>aLastError := Error e\<rparr>), p))"
proof -
  have gone: "(case fmlookup (Instances cfg) i of None \<Rightarrow> True | Some i \<Rightarrow> \<not> iActive i)
      \<longleftrightarrow> \<not> instance_active cfg i" for i
    by (auto simp: instance_active_def split: option.split)
  have drift: "(case d of None \<Rightarrow> True | Some d \<Rightarrow> dInstanceID d \<noteq> aInstanceID a \<or> dAttachmentID d \<noteq> aID a)
      \<longleftrightarrow> drifted a d" for d
    by (auto simp: drifted_def attached_to_def split: option.split)
  show ?thesis
    unfolding gone [symmetric] drift [symmetric] fmdom_empty_iff [symmetric] live_def
      reconcile_attachment_def Let_def
    by (simp split del: if_split cong: if_cong option.case_cong prod.case_cong)
qed

lemma reconcile_attachment_cases:
  assumes "reconcile_attachment P cfg ctx s a p = (a', p')"
  obtains
    (settled) "\<not> live a" "a' = Some a" "p' = p"
  | (draining) "live a" "aDeleteRequested a" "aUses a \<noteq> fmempty" "a' = Some (quiet a)" "p' = p"
  | (detached) "live a" "aDeleteRequested a" "aUses a = fmempty"
      "EnsureDetached P (ctx 0) (aVolumeID a) (aInstanceID a) (aID a) p = (None, p')"
      "a' = Some ((quiet a)\<lparr>aState := ''DETACHED''\<rparr>)"
  | (held) e where "live a" "aDeleteRequested a" "aUses a = fmempty"
      "EnsureDetached P (ctx 0) (aVolumeID a) (aInstanceID a) (aID a) p = (Some e, p')"
      "a' = Some (a\<lparr>aLastError := Error e\<rparr>)"
  | (fenced) "live a" "\<not> aDeleteRequested a" "\<not> instance_active cfg (aInstanceID a)"
      "a' = Some (a\<lparr>aLastError := ''instance inactive: fencing required''\<rparr>)" "p' = p"
  | (unseen) d e where "live a" "\<not> aDeleteRequested a" "instance_active cfg (aInstanceID a)"
      "GetVolume P (ctx 0) (aVolumeID a) p = ((d, Some e), p')" "a' = Some (a\<lparr>aLastError := Error e\<rparr>)"
  | (drift) d where "live a" "\<not> aDeleteRequested a" "instance_active cfg (aInstanceID a)"
      "GetVolume P (ctx 0) (aVolumeID a) p = ((d, None), p')"
      "aState a = ''ATTACHED''" "aUses a \<noteq> fmempty" "drifted a d"
      "a' = Some (a\<lparr>aLastError := ''cloud state drift with active use: fencing required''\<rparr>)"
  | (panic) d where "live a" "\<not> aDeleteRequested a" "instance_active cfg (aInstanceID a)"
      "GetVolume P (ctx 0) (aVolumeID a) p = ((d, None), p')"
      "fmlookup (Volumes s) (aVolumeID a) = None" "a' = None"
  | (waiting) d v where "live a" "\<not> aDeleteRequested a" "instance_active cfg (aInstanceID a)"
      "GetVolume P (ctx 0) (aVolumeID a) p = ((d, None), p')"
      "fmlookup (Volumes s) (aVolumeID a) = Some v" "vLastError v \<noteq> ''''" "a' = Some (quiet a)"
  | (attached) d v p1 where "live a" "\<not> aDeleteRequested a" "instance_active cfg (aInstanceID a)"
      "GetVolume P (ctx 0) (aVolumeID a) p = ((d, None), p1)"
      "\<not> (aState a = ''ATTACHED'' \<and> aUses a \<noteq> fmempty \<and> drifted a d)"
      "fmlookup (Volumes s) (aVolumeID a) = Some v" "vLastError v = ''''"
      "EnsureAttached P (ctx 1) (aVolumeID a) (aInstanceID a) (aID a) p1 = (None, p')"
      "a' = Some ((quiet a)\<lparr>aState := ''ATTACHED''\<rparr>)"
  | (refused) d v p1 e where "live a" "\<not> aDeleteRequested a" "instance_active cfg (aInstanceID a)"
      "GetVolume P (ctx 0) (aVolumeID a) p = ((d, None), p1)"
      "\<not> (aState a = ''ATTACHED'' \<and> aUses a \<noteq> fmempty \<and> drifted a d)"
      "fmlookup (Volumes s) (aVolumeID a) = Some v" "vLastError v = ''''"
      "EnsureAttached P (ctx 1) (aVolumeID a) (aInstanceID a) (aID a) p1 = (Some e, p')"
      "a' = Some (a\<lparr>aLastError := Error e\<rparr>)"
proof -
  note run = assms [unfolded reconcile_attachment_eq]
  show thesis
  proof (cases "live a \<and> \<not> aDeleteRequested a \<and> instance_active cfg (aInstanceID a)")
    case False
    consider "\<not> live a" | "live a" "aDeleteRequested a" "aUses a \<noteq> fmempty"
      | "live a" "aDeleteRequested a" "aUses a = fmempty"
      | "live a" "\<not> aDeleteRequested a" "\<not> instance_active cfg (aInstanceID a)"
      using False by blast
    then show thesis
    proof cases
      case 1
      then show thesis using run settled by simp
    next
      case 2
      then show thesis using run draining by simp
    next
      case 3
      obtain e q where "EnsureDetached P (ctx 0) (aVolumeID a) (aInstanceID a) (aID a) p = (e, q)" by fastforce
      then show thesis using run 3 detached held by (cases e) simp_all
    next
      case 4
      then show thesis using run fenced by simp
    qed
  next
    case True
    obtain d e p1 where get: "GetVolume P (ctx 0) (aVolumeID a) p = ((d, e), p1)" by (metis prod.exhaust)
    show thesis
    proof (cases e)
      case (Some x)
      then show thesis using run True get unseen by simp
    next
      case None
      note seen = True get [unfolded None]
      show thesis
      proof (cases "aState a = ''ATTACHED'' \<and> aUses a \<noteq> fmempty \<and> drifted a d")
        case True
        then show thesis using run seen drift by simp
      next
        case held: False
        show thesis
        proof (cases "fmlookup (Volumes s) (aVolumeID a)")
          case None
          then have "a' = None \<and> p' = p1" using run seen held by simp
          then show thesis using panic [of d] seen None by blast
        next
          case (Some v)
          obtain e2 q where att: "EnsureAttached P (ctx 1) (aVolumeID a) (aInstanceID a) (aID a) p1 = (e2, q)"
            by fastforce
          have "(a', p') = (if vLastError v \<noteq> [] then (Some (quiet a), p1)
              else case e2 of None \<Rightarrow> (Some ((quiet a)\<lparr>aState := ''ATTACHED''\<rparr>), q)
                | Some e \<Rightarrow> (Some (a\<lparr>aLastError := Error e\<rparr>), q))"
            using run seen held Some att
            by (cases e2; cases "vLastError v = []") (simp_all del: One_nat_def)
          then consider "vLastError v \<noteq> []" "a' = Some (quiet a)" "p' = p1"
            | "vLastError v = []" "e2 = None" "a' = Some ((quiet a)\<lparr>aState := ''ATTACHED''\<rparr>)" "p' = q"
            | x where "vLastError v = []" "e2 = Some x" "a' = Some (a\<lparr>aLastError := Error x\<rparr>)" "p' = q"
            by (cases "vLastError v = []"; cases e2) simp_all
          then show thesis
          proof cases
            case 1
            then show thesis using waiting seen Some by blast
          next
            case 2
            then show thesis using attached seen Some held att by blast
          next
            case 3
            then show thesis using refused seen Some held att by blast
          qed
        qed
      qed
    qed
  qed
qed

section \<open>Effects on the cloud\<close>

text \<open>The changes one loop body can make to the disks, for a volume and for an attachment.\<close>

definition volume_effect ::
  "volume \<Rightarrow> bool \<Rightarrow> (string \<Rightarrow> disk option) \<Rightarrow> (string \<Rightarrow> disk option) \<Rightarrow> bool" where
  "volume_effect v busy D D' \<longleftrightarrow>
     D' = D
     \<or> (vDeleteRequested v \<and> \<not> busy \<and> (\<forall>d. D (vID v) = Some d \<longrightarrow> dInstanceID d = '''')
          \<and> D' = D(vID v := None))
     \<or> (\<not> vDeleteRequested v \<and> (D (vID v) = None \<longrightarrow> vState v = ''CREATING'')
          \<and> (\<exists>d. D' = D(vID v \<mapsto> d) \<and> grown_disk v (D (vID v)) d))"

definition attachment_effect ::
  "config \<Rightarrow> attachment \<Rightarrow> (string \<Rightarrow> disk option) \<Rightarrow> (string \<Rightarrow> disk option) \<Rightarrow> bool" where
  "attachment_effect cfg a D D' \<longleftrightarrow>
     D' = D
     \<or> (live a \<and> aDeleteRequested a \<and> aUses a = fmempty
          \<and> (\<exists>d. D (aVolumeID a) = Some d \<and> attached_to d (aInstanceID a) (aID a)
               \<and> D' = D(aVolumeID a \<mapsto> d\<lparr>dInstanceID := '''', dAttachmentID := ''''\<rparr>)))
     \<or> (live a \<and> \<not> aDeleteRequested a \<and> instance_active cfg (aInstanceID a)
          \<and> (\<exists>d. D (aVolumeID a) = Some d \<and> (dInstanceID d = '''' \<or> attached_to d (aInstanceID a) (aID a))
               \<and> D' = D(aVolumeID a \<mapsto> d\<lparr>dInstanceID := aInstanceID a, dAttachmentID := aID a\<rparr>)))"

text \<open>What the reconciler may rewrite in a volume record, and what the record then says of the disk.\<close>

definition reconciled_volume :: "volume \<Rightarrow> volume \<Rightarrow> bool" where
  "reconciled_volume v v' \<longleftrightarrow> volume_evolves v v' \<and> vGeneration v' = vGeneration v
     \<and> vDeleteRequested v' = vDeleteRequested v \<and> vDesiredSizeBytes v' = vDesiredSizeBytes v
     \<and> vAllowFormat v' = vAllowFormat v
     \<and> (wf_volume v \<longrightarrow> wf_volume v')"

lemma grown_disk_cleared [simp]: "grown_disk (cleared v) o' d \<longleftrightarrow> grown_disk v o' d"
  by (simp add: grown_disk_def)

lemma reconciled_volume_error [simp]: "reconciled_volume v (v\<lparr>vLastError := e\<rparr>)"
  by (simp add: reconciled_volume_def volume_evolves_def wf_volume_def)

lemma reconciled_volume_refl [simp]: "reconciled_volume v v"
  by (simp add: reconciled_volume_def)

context storage_provider
begin

lemma observe_volume_law:
  assumes "observe_volume P ctx v (disks_of p (vID v)) p = ((d, e), p')"
  shows "(disks_of p' = disks_of p
      \<and> (e = None \<longrightarrow> disks_of p (vID v) = Some d \<and> vDesiredSizeBytes v \<le> dSizeBytes d))
    \<or> (\<exists>d'. disks_of p' = (disks_of p)(vID v \<mapsto> d') \<and> grown_disk v (disks_of p (vID v)) d'
         \<and> (e = None \<longrightarrow> d = d'))"
proof (cases "\<exists>d0. disks_of p (vID v) = Some d0 \<and> vDesiredSizeBytes v \<le> dSizeBytes d0")
  case True
  then show ?thesis using assms by (auto simp: observe_volume_def)
next
  case False
  then have "EnsureVolume P (ctx 1) v p = ((d, e), p')"
    using assms by (auto simp: observe_volume_def split: option.splits if_splits)
  from ensure_volume [OF this] show ?thesis by blast
qed

lemma observed:
  assumes get: "GetVolume P c (vID v) p = ((x, None), p1)"
    and obs: "observe_volume P ctx (cleared v) x p1 = ((d, e), p')"
  shows "x = disks_of p (vID v)"
    and "(disks_of p' = disks_of p
        \<and> (e = None \<longrightarrow> disks_of p (vID v) = Some d \<and> vDesiredSizeBytes v \<le> dSizeBytes d))
      \<or> (\<exists>d'. disks_of p' = (disks_of p)(vID v \<mapsto> d') \<and> grown_disk v (disks_of p (vID v)) d'
           \<and> (e = None \<longrightarrow> d = d'))"
proof -
  have p1: "disks_of p1 = disks_of p" and x: "x = disks_of p (vID v)"
    using get_volume [OF get] by auto
  have "observe_volume P ctx (cleared v) (disks_of p1 (vID (cleared v))) p1 = ((d, e), p')"
    using obs x p1 by simp
  from observe_volume_law [OF this] p1 show "(disks_of p' = disks_of p
        \<and> (e = None \<longrightarrow> disks_of p (vID v) = Some d \<and> vDesiredSizeBytes v \<le> dSizeBytes d))
      \<or> (\<exists>d'. disks_of p' = (disks_of p)(vID v \<mapsto> d') \<and> grown_disk v (disks_of p (vID v)) d'
           \<and> (e = None \<longrightarrow> d = d'))"
    by simp
  show "x = disks_of p (vID v)" by (rule x)
qed

lemma reconcile_volume_effect:
  assumes "reconcile_volume P ctx aks s v p = (v', p')"
  shows "volume_effect v (active aks s (vID v)) (disks_of p) (disks_of p')"
  using assms
proof (cases rule: reconcile_volume_cases)
  case removed
  from delete_volume [OF removed(4)] show ?thesis
    using removed(2,3) by (auto simp: volume_effect_def)
next
  case (kept e)
  from delete_volume [OF kept(4)] show ?thesis
    using kept(2,3) by (auto simp: volume_effect_def)
next
  case (failed x p1 d e)
  from observed [OF failed(3,5)] failed(2,4) show ?thesis by (auto simp: volume_effect_def)
next
  case (changed x p1 d)
  from observed [OF changed(3,5)] changed(2,4) show ?thesis by (auto simp: volume_effect_def)
next
  case (ensured x p1 d)
  from observed [OF ensured(3,5)] ensured(2,4) show ?thesis by (auto simp: volume_effect_def)
qed (auto simp: volume_effect_def dest: get_volume)

lemma observed_size:
  assumes "GetVolume P c (vID v) p = ((x, None), p1)"
    and "observe_volume P ctx (cleared v) x p1 = ((d, None), p')"
  shows "vDesiredSizeBytes v \<le> dSizeBytes d" and "disks_of p' (vID v) = Some d"
  using observed(2) [OF assms] by (auto simp: grown_disk_def)

lemma reconcile_volume_record:
  assumes "reconcile_volume P ctx aks s v p = (v', p')"
  shows "reconciled_volume v v'"
  using assms
proof (cases rule: reconcile_volume_cases)
  case removed
  then show ?thesis by (simp add: reconciled_volume_def volume_evolves_def wf_volume_def)
next
  case (ensured x p1 d)
  have "vDesiredSizeBytes v \<le> dSizeBytes d" by (rule observed_size [OF ensured(3,5)])
  then show ?thesis using ensured(1,2,6,7)
    by (auto simp: reconciled_volume_def volume_evolves_def wf_volume_def)
qed simp_all

end

definition reconciled_attachment :: "attachment \<Rightarrow> attachment \<Rightarrow> bool" where
  "reconciled_attachment a a' \<longleftrightarrow> attachment_evolves a a' \<and> aUses a' = aUses a
     \<and> aDeleteRequested a' = aDeleteRequested a \<and> (live a' \<longrightarrow> live a)
     \<and> (live a \<longrightarrow> live a' \<or> aDeleteRequested a \<and> aUses a = fmempty) \<and> (wf_attachment a \<longrightarrow> wf_attachment a')"

lemma reconciled_attachment_error [simp]: "reconciled_attachment a (a\<lparr>aLastError := e\<rparr>)"
  by (simp add: reconciled_attachment_def attachment_evolves_def wf_attachment_def live_def phase_of_def)

lemma reconciled_attachment_refl [simp]: "reconciled_attachment a a"
  by (simp add: reconciled_attachment_def)

lemma reconcile_attachment_record:
  assumes "reconcile_attachment P cfg ctx s a p = (Some a', p')" and ok: "wf_attachment a"
  shows "reconciled_attachment a a'"
  using assms(1)
proof (cases rule: reconcile_attachment_cases)
  case detached
  then show ?thesis using ok
    by (auto simp: reconciled_attachment_def attachment_evolves_def wf_attachment_def live_def phase_of_def)
next
  case (attached d v p1)
  then show ?thesis using ok
    by (auto simp: reconciled_attachment_def attachment_evolves_def wf_attachment_def live_def phase_of_def)
qed simp_all

lemma reconcile_attachment_panic:
  assumes "reconcile_attachment P cfg ctx s a p = (None, p')"
  shows "fmlookup (Volumes s) (aVolumeID a) = None"
  using assms by (cases rule: reconcile_attachment_cases) simp_all

context storage_provider
begin

lemma reconcile_attachment_effect:
  assumes "reconcile_attachment P cfg ctx s a p = (a', p')"
  shows "attachment_effect cfg a (disks_of p) (disks_of p')"
  using assms
proof (cases rule: reconcile_attachment_cases)
  case detached
  from ensure_detached [OF detached(4)] detached(1-3) show ?thesis by (auto simp: attachment_effect_def)
next
  case (held e)
  from ensure_detached [OF held(4)] held(1-3) show ?thesis by (auto simp: attachment_effect_def)
next
  case (attached d v p1)
  have "disks_of p1 = disks_of p" using get_volume [OF attached(4)] by blast
  with ensure_attached [OF attached(8)] attached(1-3) show ?thesis by (auto simp: attachment_effect_def)
next
  case (refused d v p1 e)
  have "disks_of p1 = disks_of p" using get_volume [OF refused(4)] by blast
  with ensure_attached [OF refused(8)] refused(1-3) show ?thesis by (auto simp: attachment_effect_def)
qed (auto simp: attachment_effect_def dest: get_volume)

lemma reconcile_attachment_detached:
  assumes "reconcile_attachment P cfg ctx s a p = (Some a', p')" and "live a" and "\<not> live a'"
  shows "aDeleteRequested a \<and> aUses a = fmempty
    \<and> (\<forall>d. disks_of p' (aVolumeID a) = Some d \<longrightarrow> dInstanceID d = '''')"
  using assms(1)
proof (cases rule: reconcile_attachment_cases)
  case detached
  from ensure_detached [OF detached(4)] detached(2,3) show ?thesis by auto
qed (use assms(2,3) in \<open>auto simp: live_def\<close>)

lemma reconcile_attachment_attached:
  assumes "reconcile_attachment P cfg ctx s a p = (Some a', p')" and "aState a' = ''ATTACHED''"
    and "wf_attachment a"
  shows "(aState a = ''ATTACHED'' \<and> disks_of p' = disks_of p)
    \<or> (\<exists>d. disks_of p' (aVolumeID a) = Some d \<and> attached_to d (aInstanceID a) (aID a))"
  using assms(1)
proof (cases rule: reconcile_attachment_cases)
  case (attached d v p1)
  from attach_success [OF attached(8)] show ?thesis by blast
next
  case (refused d v p1 e)
  have "disks_of p1 = disks_of p" using get_volume [OF refused(4)] by blast
  with ensure_attached [OF refused(8)] refused assms(2) show ?thesis by (auto simp: attached_to_def)
next
  case (held e)
  then show ?thesis using assms(2,3) by (simp add: wf_attachment_def)
qed (use assms(2) in \<open>auto dest: get_volume\<close>)

end

section \<open>The loops\<close>

text \<open>Loop rules: what every body keeps, the loop keeps.\<close>

lemma reconcile_volumes_invariant:
  assumes "reconcile_volumes P z ks s p = (s', p')" and "I s p"
    and "\<And>k s p v v' p'. I s p \<Longrightarrow> k \<in> set ks \<Longrightarrow> fmlookup (Volumes s) k = Some v \<Longrightarrow>
      reconcile_volume P (zVolumeCtx z k) (zAttachments z) s v p = (v', p') \<Longrightarrow> I (put_volume k v' s) p'"
  shows "I s' p'"
  using assms
proof (induction ks arbitrary: s p)
  case Nil
  then show ?case by simp
next
  case (Cons k ks)
  show ?case
  proof (cases "fmlookup (Volumes s) k")
    case None
    then show ?thesis using Cons.prems Cons.IH [of s p] by simp
  next
    case (Some v)
    obtain v' q where step: "reconcile_volume P (zVolumeCtx z k) (zAttachments z) s v p = (v', q)"
      by fastforce
    then have "reconcile_volumes P z ks (put_volume k v' s) q = (s', p')"
      using Cons.prems(1) Some by simp
    moreover have "I (put_volume k v' s) q"
      using Cons.prems(3) [OF Cons.prems(2) _ Some step] by simp
    ultimately show ?thesis using Cons.prems(3) by (intro Cons.IH) auto
  qed
qed

lemma reconcile_attachments_invariant:
  assumes "reconcile_attachments P cfg z ks s p = (os, p')" and "I s p"
    and "\<And>k s p a a' p'. I s p \<Longrightarrow> k \<in> set ks \<Longrightarrow> fmlookup (Attachments s) k = Some a \<Longrightarrow>
      reconcile_attachment P cfg (zAttachmentCtx z k) s a p = (Some a', p') \<Longrightarrow> I (put_attachment k a' s) p'"
    and "\<And>k s p a p'. I s p \<Longrightarrow> fmlookup (Attachments s) k = Some a \<Longrightarrow>
      reconcile_attachment P cfg (zAttachmentCtx z k) s a p = (None, p') \<Longrightarrow> J p'"
  shows "case os of Some s' \<Rightarrow> I s' p' | None \<Rightarrow> J p'"
  using assms
proof (induction ks arbitrary: s p)
  case Nil
  then show ?case by auto
next
  case (Cons k ks)
  show ?case
  proof (cases "fmlookup (Attachments s) k")
    case None
    then have "reconcile_attachments P cfg z ks s p = (os, p')" using Cons.prems(1) by simp
    then show ?thesis using Cons.prems(2) by (rule Cons.IH) (use Cons.prems(3,4) in auto)
  next
    case (Some a)
    obtain oa q where step: "reconcile_attachment P cfg (zAttachmentCtx z k) s a p = (oa, q)"
      by fastforce
    show ?thesis
    proof (cases oa)
      case None
      then have "os = None \<and> p' = q" using Cons.prems(1) Some step by simp
      then show ?thesis using Cons.prems(4) [OF Cons.prems(2) Some] step None by simp
    next
      case oa: (Some a')
      then have "reconcile_attachments P cfg z ks (put_attachment k a' s) q = (os, p')"
        using Cons.prems(1) Some step by simp
      moreover have "I (put_attachment k a' s) q"
        using Cons.prems(3) [OF Cons.prems(2) _ Some] step oa by simp
      ultimately show ?thesis by (rule Cons.IH) (use Cons.prems(3,4) in auto)
    qed
  qed
qed

end
