(* ===== verification/Safety.thy ===== *)
theory Safety
  imports ReconcileProps
begin

text \<open>
  The joint invariant of the platform state and the cloud, and the proof that one reconcile run
  keeps it, also when its transaction is rolled back after the provider has acted.
\<close>

section \<open>The joint invariant\<close>

definition busy :: "platform \<Rightarrow> string \<Rightarrow> bool" where
  "busy s k \<longleftrightarrow> (\<exists>k' a. fmlookup (Attachments s) k' = Some a \<and> aVolumeID a = k \<and> live a)"

text \<open>A disk that is attached in the cloud is attached for a live attachment of its own volume.\<close>

definition holder_live :: "platform \<Rightarrow> (string \<Rightarrow> disk option) \<Rightarrow> bool" where
  "holder_live s D \<longleftrightarrow> (\<forall>k d. D k = Some d \<longrightarrow> dInstanceID d \<noteq> '''' \<longrightarrow>
     (\<exists>a. fmlookup (Attachments s) (dAttachmentID d) = Some a \<and> aVolumeID a = k
        \<and> aInstanceID a = dInstanceID d \<and> live a))"

text \<open>An attachment that is attached, or that has a durable use, holds the disk in the cloud.\<close>

definition use_attached :: "platform \<Rightarrow> (string \<Rightarrow> disk option) \<Rightarrow> bool" where
  "use_attached s D \<longleftrightarrow> (\<forall>k a. fmlookup (Attachments s) k = Some a \<longrightarrow>
     aState a = ''ATTACHED'' \<or> aUses a \<noteq> fmempty \<longrightarrow>
     (\<exists>d. D (aVolumeID a) = Some d \<and> attached_to d (aInstanceID a) (aID a)))"

definition deleted_gone :: "platform \<Rightarrow> (string \<Rightarrow> disk option) \<Rightarrow> bool" where
  "deleted_gone s D \<longleftrightarrow> (\<forall>k v. fmlookup (Volumes s) k = Some v \<longrightarrow> vState v = ''DELETED'' \<longrightarrow> D k = None)"

definition backed :: "platform \<Rightarrow> (string \<Rightarrow> disk option) \<Rightarrow> bool" where
  "backed s D \<longleftrightarrow> (\<forall>k v. fmlookup (Volumes s) k = Some v \<longrightarrow> vState v \<in> {''AVAILABLE'', ''RESIZING''} \<longrightarrow>
     (\<exists>d. D k = Some d \<and> vSizeBytes v \<le> dSizeBytes d \<and> vDeviceKey v = dDeviceKey d))"

definition named :: "platform \<Rightarrow> bool" where
  "named s \<longleftrightarrow> (\<forall>k a. fmlookup (Attachments s) k = Some a \<longrightarrow> aInstanceID a \<noteq> '''')"

definition sys_ok :: "platform \<Rightarrow> (string \<Rightarrow> disk option) \<Rightarrow> bool" where
  "sys_ok s D \<longleftrightarrow> wf s \<and> named s \<and> holder_live s D \<and> use_attached s D \<and> deleted_gone s D \<and> backed s D"

lemma holder_liveD:
  "holder_live s D \<Longrightarrow> D k = Some d \<Longrightarrow> dInstanceID d \<noteq> '''' \<Longrightarrow>
     \<exists>a. fmlookup (Attachments s) (dAttachmentID d) = Some a \<and> aVolumeID a = k
       \<and> aInstanceID a = dInstanceID d \<and> live a"
  unfolding holder_live_def by blast

lemma use_attachedD:
  "use_attached s D \<Longrightarrow> fmlookup (Attachments s) k = Some a \<Longrightarrow> aState a = ''ATTACHED'' \<or> aUses a \<noteq> fmempty \<Longrightarrow>
     \<exists>d. D (aVolumeID a) = Some d \<and> attached_to d (aInstanceID a) (aID a)"
  unfolding use_attached_def by blast

lemma backedD:
  "backed s D \<Longrightarrow> fmlookup (Volumes s) k = Some v \<Longrightarrow> vState v \<in> {''AVAILABLE'', ''RESIZING''} \<Longrightarrow>
     \<exists>d. D k = Some d \<and> vSizeBytes v \<le> dSizeBytes d \<and> vDeviceKey v = dDeviceKey d"
  unfolding backed_def by blast

lemma wf_attachment_live:
  "wf_attachment a \<Longrightarrow> aState a = ''ATTACHED'' \<or> aUses a \<noteq> fmempty \<Longrightarrow> live a"
  by (auto simp: wf_attachment_def live_def)

lemma active_busy: "enumerates ks (Attachments s) \<Longrightarrow> active ks s k \<longleftrightarrow> busy s k"
  by (simp add: active_iff busy_def)

section \<open>Effects keep the invariant\<close>

lemma volume_effect_cases:
  assumes "volume_effect v b D D'"
  obtains
    (same) "D' = D"
  | (removed) "vDeleteRequested v" "\<not> b" "\<forall>d. D (vID v) = Some d \<longrightarrow> dInstanceID d = ''''"
      "D' = D(vID v := None)"
  | (created) d where "\<not> vDeleteRequested v" "D (vID v) = None" "vState v = ''CREATING''"
      "D' = D(vID v \<mapsto> d)" "dInstanceID d = ''''"
  | (grown) d0 d where "\<not> vDeleteRequested v" "D (vID v) = Some d0" "D' = D(vID v \<mapsto> d)"
      "dSizeBytes d0 \<le> dSizeBytes d" "dDeviceKey d = dDeviceKey d0" "dInstanceID d = dInstanceID d0"
      "dAttachmentID d = dAttachmentID d0"
proof -
  consider "D' = D" | "vDeleteRequested v" "\<not> b" "\<forall>d. D (vID v) = Some d \<longrightarrow> dInstanceID d = ''''"
      "D' = D(vID v := None)"
    | d where "\<not> vDeleteRequested v" "D (vID v) = None \<longrightarrow> vState v = ''CREATING''"
      "D' = D(vID v \<mapsto> d)" "grown_disk v (D (vID v)) d"
    using assms unfolding volume_effect_def by (elim disjE conjE exE) simp_all
  then show thesis
  proof cases
    case (3 d)
    then show thesis using created grown by (cases "D (vID v)") (simp_all add: grown_disk_def)
  qed (use same removed in blast)+
qed

text \<open>Replacing a disk by one with the same holder, at least the same size and the same device key.\<close>

lemma holder_live_upd:
  assumes "holder_live s D" and "D k = Some d0" and "dInstanceID d = dInstanceID d0"
    and "dAttachmentID d = dAttachmentID d0"
  shows "holder_live s (D(k \<mapsto> d))"
  using assms(1) assms(1)[unfolded holder_live_def, rule_format, OF assms(2)] assms(3,4)
  by (simp add: holder_live_def)

lemma use_attached_upd:
  assumes used: "use_attached s D" and "D k = Some d0" and "dInstanceID d = dInstanceID d0"
    and "dAttachmentID d = dAttachmentID d0"
  shows "use_attached s (D(k \<mapsto> d))"
  unfolding use_attached_def
proof (intro allI impI)
  fix k' a
  assume "fmlookup (Attachments s) k' = Some a" and "aState a = ''ATTACHED'' \<or> aUses a \<noteq> fmempty"
  then have "\<exists>d. D (aVolumeID a) = Some d \<and> attached_to d (aInstanceID a) (aID a)"
    using used unfolding use_attached_def by blast
  then show "\<exists>d'. (D(k \<mapsto> d)) (aVolumeID a) = Some d' \<and> attached_to d' (aInstanceID a) (aID a)"
    using assms(2-4) by (cases "aVolumeID a = k") (auto simp: attached_to_def)
qed

lemma deleted_gone_upd: "deleted_gone s D \<Longrightarrow> D k = Some d0 \<Longrightarrow> deleted_gone s (D(k \<mapsto> d))"
  by (auto simp: deleted_gone_def)

lemma backed_upd:
  assumes stock: "backed s D" and "D k = Some d0" and "dSizeBytes d0 \<le> dSizeBytes d"
    and "dDeviceKey d = dDeviceKey d0"
  shows "backed s (D(k \<mapsto> d))"
  unfolding backed_def
proof (intro allI impI)
  fix k' v
  assume "fmlookup (Volumes s) k' = Some v" and "vState v \<in> {''AVAILABLE'', ''RESIZING''}"
  then have "\<exists>d. D k' = Some d \<and> vSizeBytes v \<le> dSizeBytes d \<and> vDeviceKey v = dDeviceKey d"
    using stock unfolding backed_def by blast
  then show "\<exists>d'. (D(k \<mapsto> d)) k' = Some d' \<and> vSizeBytes v \<le> dSizeBytes d' \<and> vDeviceKey v = dDeviceKey d'"
    using assms(2-4) by (cases "k' = k") auto
qed

lemma backed_empty: "backed s D \<Longrightarrow> D k = None \<Longrightarrow> backed s (D(k \<mapsto> d))"
  unfolding backed_def by (metis fun_upd_other option.distinct(1))

lemma volume_effect_ok:
  assumes ok: "sys_ok s D" and v: "fmlookup (Volumes s) k = Some v"
    and eff: "volume_effect v (busy s (vID v)) D D'"
  shows "sys_ok s D'"
proof -
  have wf: "wf s" and "named s" and holder: "holder_live s D" and used: "use_attached s D"
    and gone: "deleted_gone s D" and stock: "backed s D"
    using ok by (auto simp: sys_ok_def)
  have k: "vID v = k" and wv: "wf_volume v" using wf_volumeD [OF wf v] by auto
  have not_deleted: "vState v \<noteq> ''DELETED''" if "\<not> vDeleteRequested v"
    using wv that by (auto simp: wf_volume_def)
  from eff show ?thesis
  proof (cases rule: volume_effect_cases)
    case same
    then show ?thesis using ok by simp
  next
    case removed
    have "holder_live s D'" using holder by (simp add: holder_live_def removed(4))
    moreover have "use_attached s D'"
      using used removed(2) wf_attachmentD(3) [OF wf] wf_attachment_live
      unfolding use_attached_def busy_def removed(4) by (metis fun_upd_other)
    moreover have "deleted_gone s D'" using gone by (simp add: deleted_gone_def removed(4))
    moreover have "backed s D'"
      using stock v wv removed(1) k by (auto simp: backed_def removed(4) wf_volume_def)
    ultimately show ?thesis using wf \<open>named s\<close> by (simp add: sys_ok_def)
  next
    case (created d)
    have "holder_live s D'" using holder created(5) by (simp add: holder_live_def created(4))
    moreover have "use_attached s D'"
      using used created(2) unfolding use_attached_def created(4)
      by (metis fun_upd_other option.distinct(1))
    moreover have "deleted_gone s D'"
      using gone v k not_deleted [OF created(1)] by (auto simp: deleted_gone_def created(4))
    moreover have "backed s D'" using backed_empty [OF stock created(2)] by (simp add: created(4))
    ultimately show ?thesis using wf \<open>named s\<close> by (simp add: sys_ok_def)
  next
    case (grown d0 d)
    then show ?thesis
      using ok holder_live_upd [OF holder] use_attached_upd [OF used] deleted_gone_upd [OF gone]
        backed_upd [OF stock] by (simp add: sys_ok_def)
  qed
qed

lemma attachment_effect_ok:
  assumes ok: "sys_ok s D" and a: "fmlookup (Attachments s) k = Some a"
    and eff: "attachment_effect cfg a D D'"
  shows "sys_ok s D'"
proof -
  have wf: "wf s" and "named s" and holder: "holder_live s D" and used: "use_attached s D"
    and gone: "deleted_gone s D" and stock: "backed s D"
    using ok by (auto simp: sys_ok_def)
  have k: "aID a = k" and wa: "wf_attachment a" using wf_attachmentD [OF wf a] by auto
  consider "D' = D"
    | d where "aDeleteRequested a" "aUses a = fmempty" "D (aVolumeID a) = Some d"
      "attached_to d (aInstanceID a) (aID a)"
      "D' = D(aVolumeID a \<mapsto> d\<lparr>dInstanceID := '''', dAttachmentID := ''''\<rparr>)"
    | d where "live a" "D (aVolumeID a) = Some d"
      "D' = D(aVolumeID a \<mapsto> d\<lparr>dInstanceID := aInstanceID a, dAttachmentID := aID a\<rparr>)"
    using eff unfolding attachment_effect_def by blast
  then show ?thesis
  proof cases
    case 1
    then show ?thesis using ok by simp
  next
    case (2 d)
    have "holder_live s D'" using holder by (simp add: holder_live_def 2(5))
    moreover have "use_attached s D'"
      unfolding use_attached_def
    proof (intro allI impI)
      fix k' b
      assume b: "fmlookup (Attachments s) k' = Some b" and use: "aState b = ''ATTACHED'' \<or> aUses b \<noteq> fmempty"
      then obtain d' where d': "D (aVolumeID b) = Some d'" "attached_to d' (aInstanceID b) (aID b)"
        using used unfolding use_attached_def by blast
      have "aVolumeID b \<noteq> aVolumeID a"
      proof
        assume "aVolumeID b = aVolumeID a"
        then have "aID b = aID a" using d' 2(3,4) by (simp add: attached_to_def)
        then have "b = a" using wf_attachmentD(1) [OF wf] a b by (metis option.inject)
        then show False using use wa 2(1,2) by (auto simp: wf_attachment_def)
      qed
      then show "\<exists>d. D' (aVolumeID b) = Some d \<and> attached_to d (aInstanceID b) (aID b)"
        using d' by (simp add: 2(5))
    qed
    moreover have "deleted_gone s D'" "backed s D'"
      using deleted_gone_upd [OF gone 2(3)] backed_upd [OF stock 2(3)] by (simp_all add: 2(5))
    ultimately show ?thesis using wf \<open>named s\<close> by (simp add: sys_ok_def)
  next
    case (3 d)
    have own: "fmlookup (Attachments s) (aID a) = Some a" using a k by simp
    have "holder_live s D'"
      unfolding holder_live_def
    proof (intro allI impI)
      fix j d'
      assume d': "D' j = Some d'" "dInstanceID d' \<noteq> ''''"
      show "\<exists>b. fmlookup (Attachments s) (dAttachmentID d') = Some b \<and> aVolumeID b = j
          \<and> aInstanceID b = dInstanceID d' \<and> live b"
      proof (cases "j = aVolumeID a")
        case True
        then have "dAttachmentID d' = aID a" "dInstanceID d' = aInstanceID a" using d'(1) by (auto simp: 3(3))
        then show ?thesis using own 3(1) True by simp
      next
        case False
        then show ?thesis using holder d' unfolding holder_live_def by (simp add: 3(3))
      qed
    qed
    moreover have "use_attached s D'"
      unfolding use_attached_def
    proof (intro allI impI)
      fix k' b
      assume b: "fmlookup (Attachments s) k' = Some b" and use: "aState b = ''ATTACHED'' \<or> aUses b \<noteq> fmempty"
      then obtain d' where d': "D (aVolumeID b) = Some d'" "attached_to d' (aInstanceID b) (aID b)"
        using used unfolding use_attached_def by blast
      have "live b" using wf_attachment_live [OF wf_attachmentD(3) [OF wf b] use] .
      show "\<exists>d. D' (aVolumeID b) = Some d \<and> attached_to d (aInstanceID b) (aID b)"
      proof (cases "aVolumeID b = aVolumeID a")
        case True
        then have "b = a" using one_liveD(2) [OF wf a b 3(1) \<open>live b\<close>] by simp
        then show ?thesis by (simp add: 3(3) attached_to_def)
      next
        case False
        then show ?thesis using d' by (simp add: 3(3))
      qed
    qed
    moreover have "deleted_gone s D'" "backed s D'"
      using deleted_gone_upd [OF gone 3(2)] backed_upd [OF stock 3(2)] by (simp_all add: 3(3))
    ultimately show ?thesis using wf \<open>named s\<close> by (simp add: sys_ok_def)
  qed
qed

section \<open>Rewriting one record\<close>

lemma sys_ok_put_volume:
  assumes ok: "sys_ok s D" and wf: "wf (put_volume k v' s)"
    and gone: "vState v' = ''DELETED'' \<Longrightarrow> D k = None"
    and stock: "vState v' \<in> {''AVAILABLE'', ''RESIZING''} \<Longrightarrow>
      \<exists>d. D k = Some d \<and> vSizeBytes v' \<le> dSizeBytes d \<and> vDeviceKey v' = dDeviceKey d"
  shows "sys_ok (put_volume k v' s) D"
proof -
  have "deleted_gone (put_volume k v' s) D"
    using ok gone by (simp add: sys_ok_def deleted_gone_def)
  moreover have "backed (put_volume k v' s) D"
    using ok stock unfolding sys_ok_def backed_def by simp
  ultimately show ?thesis
    using ok wf by (simp add: sys_ok_def named_def holder_live_def use_attached_def)
qed

lemma sys_ok_put_attachment:
  assumes ok: "sys_ok s D" and wf: "wf (put_attachment k a' s)" and name: "aInstanceID a' \<noteq> ''''"
    and used: "aState a' = ''ATTACHED'' \<or> aUses a' \<noteq> fmempty \<Longrightarrow>
      \<exists>d. D (aVolumeID a') = Some d \<and> attached_to d (aInstanceID a') (aID a')"
    and holder: "\<And>j d. D j = Some d \<Longrightarrow> dInstanceID d \<noteq> '''' \<Longrightarrow> dAttachmentID d = k \<Longrightarrow>
      aVolumeID a' = j \<and> aInstanceID a' = dInstanceID d \<and> live a'"
  shows "sys_ok (put_attachment k a' s) D"
proof -
  have "named (put_attachment k a' s)"
    using ok name by (simp add: sys_ok_def named_def)
  moreover have "holder_live (put_attachment k a' s) D"
    using ok holder by (simp add: sys_ok_def holder_live_def)
  moreover have "use_attached (put_attachment k a' s) D"
    using ok used unfolding sys_ok_def use_attached_def by simp
  ultimately show ?thesis
    using ok wf by (simp add: sys_ok_def deleted_gone_def backed_def)
qed

lemma sys_okD:
  assumes "sys_ok s D"
  shows "wf s" and "named s" and "holder_live s D" and "use_attached s D" and "deleted_gone s D"
    and "backed s D"
  using assms by (simp_all add: sys_ok_def)

lemma reconciled_volume_wf:
  assumes "wf s" and "fmlookup (Volumes s) k = Some v" and "reconciled_volume v v'"
  shows "wf (put_volume k v' s)"
  using assms(3) wf_volumeD [OF assms(1,2)]
  by (intro wf_put_volume [OF assms(1,2)])
    (auto simp: reconciled_volume_def same_volume_def volume_evolves_def)

lemma reconciled_attachment_wf:
  assumes "wf s" and "fmlookup (Attachments s) k = Some a" and "reconciled_attachment a a'"
  shows "wf (put_attachment k a' s)"
  using assms(3) wf_attachmentD [OF assms(1,2)]
  by (intro wf_put_attachment [OF assms(1,2)])
    (auto simp: reconciled_attachment_def same_attachment_def attachment_evolves_def)

context storage_provider
begin

lemma reconcile_volume_post:
  assumes step: "reconcile_volume P ctx aks s v p = (v', p')" and ok: "sys_ok s (disks_of p')"
    and v: "fmlookup (Volumes s) k = Some v"
  shows "(vState v' = ''DELETED'' \<longrightarrow> disks_of p' k = None)
    \<and> (vState v' \<in> {''AVAILABLE'', ''RESIZING''} \<longrightarrow>
        (\<exists>d. disks_of p' k = Some d \<and> vSizeBytes v' \<le> dSizeBytes d \<and> vDeviceKey v' = dDeviceKey d))"
proof -
  have k: "vID v = k" by (rule wf_volumeD [OF sys_okD(1) [OF ok] v])
  have old: "(vState v = ''DELETED'' \<longrightarrow> disks_of p' k = None)
    \<and> (vState v \<in> {''AVAILABLE'', ''RESIZING''} \<longrightarrow>
        (\<exists>d. disks_of p' k = Some d \<and> vSizeBytes v \<le> dSizeBytes d \<and> vDeviceKey v = dDeviceKey d))"
    using sys_okD(5,6) [OF ok] v unfolding deleted_gone_def backed_def by blast
  from step show ?thesis
  proof (cases rule: reconcile_volume_cases)
    case removed
    from delete_volume [OF removed(4)] k show ?thesis by (auto simp: removed(5))
  next
    case (ensured x p1 d)
    from observed_size [OF ensured(3,5)] k show ?thesis by (simp add: ensured(7))
  qed (use old in simp_all)
qed

lemma reconcile_volume_ok:
  assumes ok: "sys_ok s (disks_of p)" and v: "fmlookup (Volumes s) k = Some v"
    and keys: "enumerates aks (Attachments s)" and step: "reconcile_volume P ctx aks s v p = (v', p')"
  shows "sys_ok s (disks_of p')" and "sys_ok (put_volume k v' s) (disks_of p')"
proof -
  have "volume_effect v (busy s (vID v)) (disks_of p) (disks_of p')"
    using reconcile_volume_effect [OF step] by (simp add: active_busy [OF keys])
  then show ok': "sys_ok s (disks_of p')" by (rule volume_effect_ok [OF ok v])
  show "sys_ok (put_volume k v' s) (disks_of p')"
    using reconcile_volume_post [OF step ok' v]
    by (intro sys_ok_put_volume [OF ok'] reconciled_volume_wf [OF sys_okD(1) [OF ok] v]
        reconcile_volume_record [OF step]) auto
qed

lemma reconcile_attachment_ok:
  assumes ok: "sys_ok s (disks_of p)" and a: "fmlookup (Attachments s) k = Some a"
    and step: "reconcile_attachment P cfg ctx s a p = (Some a', p')"
  shows "sys_ok (put_attachment k a' s) (disks_of p')"
proof -
  have wf: "wf s" by (rule sys_okD(1) [OF ok])
  have k: "aID a = k" and wa: "wf_attachment a" using wf_attachmentD [OF wf a] by auto
  have ok': "sys_ok s (disks_of p')"
    by (rule attachment_effect_ok [OF ok a reconcile_attachment_effect [OF step]])
  have rec: "reconciled_attachment a a'" by (rule reconcile_attachment_record [OF step wa])
  then have same: "aVolumeID a' = aVolumeID a" "aInstanceID a' = aInstanceID a" "aID a' = aID a"
      "aUses a' = aUses a"
    by (auto simp: reconciled_attachment_def attachment_evolves_def)
  have used: "\<exists>d. disks_of p' (aVolumeID a) = Some d \<and> attached_to d (aInstanceID a) (aID a)"
    if "aState a = ''ATTACHED'' \<or> aUses a \<noteq> fmempty"
    using sys_okD(4) [OF ok'] a that unfolding use_attached_def by blast
  show ?thesis
  proof (rule sys_ok_put_attachment [OF ok'])
    show "wf (put_attachment k a' s)" by (rule reconciled_attachment_wf [OF wf a rec])
    show "aInstanceID a' \<noteq> ''''" using sys_okD(2) [OF ok] a same by (auto simp: named_def)
    show "\<exists>d. disks_of p' (aVolumeID a') = Some d \<and> attached_to d (aInstanceID a') (aID a')"
      if "aState a' = ''ATTACHED'' \<or> aUses a' \<noteq> fmempty"
      using that reconcile_attachment_attached [OF step _ wa] used same by metis
    show "aVolumeID a' = j \<and> aInstanceID a' = dInstanceID d \<and> live a'"
      if d: "disks_of p' j = Some d" "dInstanceID d \<noteq> ''''" "dAttachmentID d = k" for j d
    proof -
      have "aVolumeID a = j" "aInstanceID a = dInstanceID d" "live a"
        using sys_okD(3) [OF ok'] d a unfolding holder_live_def by fastforce+
      moreover from this have "live a'"
        using reconcile_attachment_detached [OF step] d by auto
      ultimately show ?thesis using same by simp
    qed
  qed
qed

end

section \<open>The whole run\<close>

definition progressed :: "platform \<Rightarrow> platform \<Rightarrow> bool" where
  "progressed s s' \<longleftrightarrow> fmrel reconciled_volume (Volumes s) (Volumes s')
     \<and> fmrel reconciled_attachment (Attachments s) (Attachments s')"

lemma reconciled_volume_trans:
  "reconciled_volume v v' \<Longrightarrow> reconciled_volume v' v'' \<Longrightarrow> reconciled_volume v v''"
  unfolding reconciled_volume_def using volume_evolves_trans by auto

lemma reconciled_attachment_trans:
  "reconciled_attachment a a' \<Longrightarrow> reconciled_attachment a' a'' \<Longrightarrow> reconciled_attachment a a''"
  unfolding reconciled_attachment_def using attachment_evolves_trans by auto

lemma progressed_refl [simp]: "progressed s s"
  by (simp add: progressed_def fmrel_iff option.rel_refl)

lemma fmrel_right: "fmrel R m n \<Longrightarrow> fmlookup n k = Some y \<Longrightarrow> \<exists>x. fmlookup m k = Some x \<and> R x y"
  by (metis fmrel_cases option.distinct(1) option.inject)

lemma fmrel_left: "fmrel R m n \<Longrightarrow> fmlookup m k = Some x \<Longrightarrow> \<exists>y. fmlookup n k = Some y \<and> R x y"
  by (metis fmrel_cases option.distinct(1) option.inject)

lemma fmrel_put:
  assumes "fmrel R m n" and "fmlookup n k = Some x" and "\<And>y. R y x \<Longrightarrow> R y x'"
  shows "fmrel R m (fmupd k x' n)"
  using assms(1) unfolding fmrel_iff
  by (metis (no_types, lifting) assms(2,3) fmupd_lookup option.rel_cases option.rel_intros(2) option.inject option.distinct(1))

lemma progressed_put_volume:
  assumes "progressed s0 s" and "fmlookup (Volumes s) k = Some v" and "reconciled_volume v v'"
  shows "progressed s0 (put_volume k v' s)"
proof -
  have "fmrel reconciled_volume (Volumes s0) (fmupd k v' (Volumes s))"
    by (rule fmrel_put [OF _ assms(2)])
      (use assms(1,3) reconciled_volume_trans in \<open>auto simp: progressed_def\<close>)
  then show ?thesis using assms(1) by (simp add: progressed_def)
qed

lemma progressed_put_attachment:
  assumes "progressed s0 s" and "fmlookup (Attachments s) k = Some a" and "reconciled_attachment a a'"
  shows "progressed s0 (put_attachment k a' s)"
proof -
  have "fmrel reconciled_attachment (Attachments s0) (fmupd k a' (Attachments s))"
    by (rule fmrel_put [OF _ assms(2)])
      (use assms(1,3) reconciled_attachment_trans in \<open>auto simp: progressed_def\<close>)
  then show ?thesis using assms(1) by (simp add: progressed_def)
qed

lemma progressed_attachmentD:
  assumes "progressed s0 s" and "fmlookup (Attachments s) k = Some a"
  shows "\<exists>a0. fmlookup (Attachments s0) k = Some a0 \<and> reconciled_attachment a0 a"
  using assms by (auto simp: progressed_def dest: fmrel_right)

lemma progressed_volumeD:
  assumes "progressed s0 s" and "fmlookup (Volumes s) k = Some v"
  shows "\<exists>v0. fmlookup (Volumes s0) k = Some v0 \<and> reconciled_volume v0 v"
  using assms by (auto simp: progressed_def dest: fmrel_right)

lemma progressed_evolves:
  assumes "progressed s s'"
  shows "evolves s s'"
proof -
  have "fmrel reconciled_volume (Volumes s) (Volumes s')"
    and "fmrel reconciled_attachment (Attachments s) (Attachments s')"
    using assms by (simp_all add: progressed_def)
  then show ?thesis
    using fmrel_left [of reconciled_volume] fmrel_left [of reconciled_attachment]
    unfolding evolves_def by (metis reconciled_volume_def reconciled_attachment_def)
qed

text \<open>An effect for a record that progressed is an effect for the record it progressed from.\<close>

lemma attachment_effect_original:
  assumes "attachment_effect cfg a D D'" and "reconciled_attachment a0 a"
  shows "attachment_effect cfg a0 D D'"
  using assms by (auto simp: attachment_effect_def reconciled_attachment_def attachment_evolves_def)

lemma volume_effect_original:
  assumes "volume_effect v b D D'" and "reconciled_volume v0 v"
  shows "volume_effect v0 b D D'"
proof -
  have "grown_disk v o' d \<longleftrightarrow> grown_disk v0 o' d" for o' d
    using assms(2) by (simp add: grown_disk_def reconciled_volume_def)
  then show ?thesis
    using assms by (auto simp: volume_effect_def reconciled_volume_def volume_evolves_def)
qed

text \<open>
  The cloud changes one reconcile run makes, in the terms of the state it started from: each is
  an effect of one of that state's volumes or attachments.
\<close>

definition cloud_effect ::
  "config \<Rightarrow> platform \<Rightarrow> (string \<Rightarrow> disk option) \<Rightarrow> (string \<Rightarrow> disk option) \<Rightarrow> bool" where
  "cloud_effect cfg s D D' \<longleftrightarrow>
     (\<exists>k v. fmlookup (Volumes s) k = Some v \<and> volume_effect v (busy s (vID v)) D D')
     \<or> (\<exists>k a. fmlookup (Attachments s) k = Some a \<and> attachment_effect cfg a D D')"

lemma cloud_effect_ok: "sys_ok s D \<Longrightarrow> cloud_effect cfg s D D' \<Longrightarrow> sys_ok s D'"
  unfolding cloud_effect_def using volume_effect_ok attachment_effect_ok by blast

lemma cloud_effects_ok: "(cloud_effect cfg s)\<^sup>*\<^sup>* D D' \<Longrightarrow> sys_ok s D \<Longrightarrow> sys_ok s D'"
  by (induction rule: rtranclp_induct) (auto intro: cloud_effect_ok)

context storage_provider
begin

lemma reconcile_volumes_run:
  assumes run: "reconcile_volumes P z ks s0 p0 = (s, p)" and wf: "wf s0" and keys: "reconcile_for z s0"
  shows "wf s \<and> progressed s0 s \<and> Attachments s = Attachments s0
    \<and> (cloud_effect cfg s0)\<^sup>*\<^sup>* (disks_of p0) (disks_of p) \<and> (sys_ok s0 (disks_of p0) \<longrightarrow> sys_ok s (disks_of p))"
proof -
  define I where "I = (\<lambda>s p. wf s \<and> progressed s0 s \<and> Attachments s = Attachments s0
    \<and> (cloud_effect cfg s0)\<^sup>*\<^sup>* (disks_of p0) (disks_of p) \<and> (sys_ok s0 (disks_of p0) \<longrightarrow> sys_ok s (disks_of p)))"
  have "I s p"
  proof (rule reconcile_volumes_invariant [OF run])
    show "I s0 p0" by (simp add: I_def wf)
  next
    fix k s p v v' p'
    assume I: "I s p" and v: "fmlookup (Volumes s) k = Some v"
      and step: "reconcile_volume P (zVolumeCtx z k) (zAttachments z) s v p = (v', p')"
    have aks: "enumerates (zAttachments z) (Attachments s)"
      using keys I by (simp add: reconcile_for_def I_def)
    have rec: "reconciled_volume v v'" by (rule reconcile_volume_record [OF step])
    obtain v0 where v0: "fmlookup (Volumes s0) k = Some v0" "reconciled_volume v0 v"
      using progressed_volumeD [OF _ v] I unfolding I_def by blast
    have "busy s (vID v) = busy s0 (vID v0)"
      using I wf_volumeD(1) v v0(1) wf unfolding I_def busy_def by metis
    then have "volume_effect v0 (busy s0 (vID v0)) (disks_of p) (disks_of p')"
      using volume_effect_original [OF reconcile_volume_effect [OF step] v0(2)] active_busy [OF aks] by simp
    then have "cloud_effect cfg s0 (disks_of p) (disks_of p')"
      using v0(1) unfolding cloud_effect_def by blast
    then have "(cloud_effect cfg s0)\<^sup>*\<^sup>* (disks_of p0) (disks_of p')"
      using I unfolding I_def by (meson rtranclp.rtrancl_into_rtrancl)
    then show "I (put_volume k v' s) p'"
      using I reconciled_volume_wf [OF _ v rec] progressed_put_volume [OF _ v rec]
        reconcile_volume_ok(2) [OF _ v aks step] unfolding I_def by simp
  qed
  then show ?thesis by (simp add: I_def)
qed

lemma reconcile_attachments_run:
  assumes run: "reconcile_attachments P cfg z ks s1 p1 = (os, p)" and wf: "wf s1" and began: "progressed s0 s1"
  shows "(cloud_effect cfg s0)\<^sup>*\<^sup>* (disks_of p1) (disks_of p)
    \<and> (\<exists>s. os = Some s \<and> wf s \<and> progressed s0 s \<and> (sys_ok s1 (disks_of p1) \<longrightarrow> sys_ok s (disks_of p)))"
proof -
  define I where "I = (\<lambda>s p. wf s \<and> progressed s0 s
    \<and> (cloud_effect cfg s0)\<^sup>*\<^sup>* (disks_of p1) (disks_of p) \<and> (sys_ok s1 (disks_of p1) \<longrightarrow> sys_ok s (disks_of p)))"
  have "case os of Some s \<Rightarrow> I s p | None \<Rightarrow> False"
  proof (rule reconcile_attachments_invariant [OF run])
    show "I s1 p1" by (simp add: I_def wf began)
  next
    fix k s p a a' p'
    assume I: "I s p" and a: "fmlookup (Attachments s) k = Some a"
      and step: "reconcile_attachment P cfg (zAttachmentCtx z k) s a p = (Some a', p')"
    have "wf_attachment a" using I wf_attachmentD(3) [OF _ a] by (simp add: I_def)
    then have rec: "reconciled_attachment a a'" by (rule reconcile_attachment_record [OF step])
    obtain a0 where a0: "fmlookup (Attachments s0) k = Some a0" "reconciled_attachment a0 a"
      using progressed_attachmentD [OF _ a] I unfolding I_def by blast
    have "cloud_effect cfg s0 (disks_of p) (disks_of p')"
      using attachment_effect_original [OF reconcile_attachment_effect [OF step] a0(2)] a0(1)
      unfolding cloud_effect_def by blast
    then have "(cloud_effect cfg s0)\<^sup>*\<^sup>* (disks_of p1) (disks_of p')"
      using I unfolding I_def by (meson rtranclp.rtrancl_into_rtrancl)
    then show "I (put_attachment k a' s) p'"
      using I reconciled_attachment_wf [OF _ a rec] progressed_put_attachment [OF _ a rec]
        reconcile_attachment_ok [OF _ a step] unfolding I_def by simp
  next
    fix k s p a p'
    assume I: "I s p" and a: "fmlookup (Attachments s) k = Some a"
      and step: "reconcile_attachment P cfg (zAttachmentCtx z k) s a p = (None, p')"
    then show False
      using wf_attachmentD(4) [OF _ a] reconcile_attachment_panic [OF step] by (auto simp: I_def)
  qed
  then show ?thesis by (auto simp: I_def split: option.splits)
qed

lemma reconcile_state_run:
  assumes run: "reconcile_state P cfg z s p = (os, p')" and wf: "wf s" and keys: "reconcile_for z s"
  shows "(cloud_effect cfg s)\<^sup>*\<^sup>* (disks_of p) (disks_of p')
    \<and> (\<exists>s'. os = Some s' \<and> wf s' \<and> progressed s s' \<and> (sys_ok s (disks_of p) \<longrightarrow> sys_ok s' (disks_of p')))"
proof -
  obtain s1 p1 where volumes: "reconcile_volumes P z (zVolumes z) s p = (s1, p1)" by fastforce
  then have attachments: "reconcile_attachments P cfg z (zAttachments z) s1 p1 = (os, p')"
    using run by (simp add: reconcile_state_def)
  note one = reconcile_volumes_run [OF volumes wf keys, of cfg]
  note two = reconcile_attachments_run [OF attachments, of s]
  from one two show ?thesis by (meson rtranclp_trans)
qed

end

end
