(* ===== verification/System.thy ===== *)
theory System
  imports Safety
begin

text \<open>
  The running system: the platform database and the cloud, driven by service calls and
  reconcile runs in any order, with any transaction failing and being rolled back at any point.
\<close>

section \<open>One call on the database\<close>

lemma store_Audit_effect:
  assumes B: "bolt_ok B" and run: "store_Audit B cda now tx x = Inr tx'"
  shows "\<exists>seq b tx1. marshal cda x = Inr b \<and> next_sequence B tx ''audit'' = Inr (seq, tx1)
    \<and> (\<forall>bk k. bucket_get B tx' bk k =
         (if bk = ''audit'' \<and> k = audit_key now seq then Some b else bucket_get B tx bk k))"
proof -
  obtain b seq tx1 where "marshal cda x = Inr b" and seq: "next_sequence B tx ''audit'' = Inr (seq, tx1)"
    and put: "bucket_put B tx1 ''audit'' (audit_key now seq) b = Inr tx'"
    using run by (auto simp: store_Audit_def split: sum.splits)
  moreover have "bucket_get B tx1 bk k = bucket_get B tx bk k" for bk k
    using B seq by (simp add: bolt_ok_def)
  moreover have "bucket_get B tx' bk k =
      (if bk = ''audit'' \<and> k = audit_key now seq then Some b else bucket_get B tx1 bk k)" for bk k
    using B put by (simp add: bolt_ok_def)
  ultimately show ?thesis by auto
qed

definition audited ::
  "('tx, 'b) bolt \<Rightarrow> ('b, audit_entry) codec \<Rightarrow> string \<Rightarrow> audit_entry \<Rightarrow> 'tx \<Rightarrow> 'tx \<Rightarrow> bool" where
  "audited B cda now x db db' \<longleftrightarrow>
     (\<exists>seq b tx. next_sequence B db ''audit'' = Inr (seq, tx) \<and> marshal cda x = Inr b
        \<and> bucket_get B db' ''audit'' (audit_key now seq) = Some b
        \<and> (\<forall>bk k. (bk, k) \<noteq> (''audit'', audit_key now seq) \<longrightarrow> (bk, k) \<noteq> (''state'', ''platform'') \<longrightarrow>
              bucket_get B db' bk k = bucket_get B db bk k))"

lemma call_tx_committed:
  assumes B: "bolt_ok B" and cd: "codec_ok cds zero_platform"
    and run: "call_tx B cds cda cfg env p op r c db = (None, (out, e), db')"
  shows "\<exists>s s'. platform_read B cds db = Inr s \<and> apply_op cfg env p op r s = (out, e, s')
    \<and> audited B cda (eKeyTime env) (audit_of (eNow env) p op r out e) db db'
    \<and> platform_read B cds db' = Inr (if e = None then s' else s)"
proof -
  obtain s where s: "platform_read B cds db = Inr s"
    using run by (auto simp: call_tx_def split: sum.splits)
  obtain out1 e1 s' where op: "apply_op cfg env p op r s = (out1, e1, s')" by (metis prod_cases3)
  obtain tx where audit: "store_Audit B cda (eKeyTime env) db (audit_of (eNow env) p op r out1 e1) = Inr tx"
    using run s op by (auto simp: call_tx_def split: sum.splits)
  from store_Audit_effect [OF B audit] obtain seq b tx1 where
    x: "marshal cda (audit_of (eNow env) p op r out1 e1) = Inr b"
      "next_sequence B db ''audit'' = Inr (seq, tx1)"
      "\<And>bk k. bucket_get B tx bk k =
         (if bk = ''audit'' \<and> k = audit_key (eKeyTime env) seq then Some b else bucket_get B db bk k)"
    by blast
  have kept: "platform_read B cds tx = Inr s"
    using s by (simp add: platform_read_def store_Read_Audit [OF B audit])
  show ?thesis
  proof (cases e1)
    case (Some y)
    then have "out = out1 \<and> e = e1 \<and> db' = tx"
      using run s op audit by (simp add: call_tx_def)
    then show ?thesis using s op x kept Some by (auto simp: audited_def)
  next
    case None
    obtain tx' where w: "store_Write B cds tx ''platform'' s' = Inr tx'"
      using run s op audit None by (auto simp: call_tx_def split: sum.splits)
    then have "out = out1 \<and> e = e1 \<and> db' = tx'"
      using run s op audit None by (simp add: call_tx_def)
    moreover have "platform_read B cds tx' = Inr s'"
      using store_Read_Write [OF B cd w] by (simp add: platform_read_def)
    moreover have "bucket_get B tx' bk k = bucket_get B tx bk k" if "(bk, k) \<noteq> (''state'', ''platform'')" for bk k
      using store_Write_get [OF B w, of bk k] that by auto
    ultimately show ?thesis using s op x None by (auto simp: audited_def)
  qed
qed

lemma Call_cases:
  assumes B: "bolt_ok B" and cd: "codec_ok cds zero_platform" and upd: "atomic_update upd"
    and run: "Call B cds cda upd cfg env p op r db = ((out, e), db')"
  obtains (failed) "e \<noteq> None" "db' = db"
  | (completed) s s' where "eCtx env = None" "platform_read B cds db = Inr s"
      "apply_op cfg env p op r s = (out, e, s')"
      "audited B cda (eKeyTime env) (audit_of (eNow env) p op r out e) db db'"
      "platform_read B cds db' = Inr (if e = None then s' else s)"
proof (cases "eCtx env")
  case (Some x)
  then have "e = Some x \<and> db' = db" using run by (simp add: Call_def)
  then show thesis using failed by blast
next
  case None
  obtain e1 out1 rej db1 where u: "upd (call_tx B cds cda cfg env p op r) (zero_response, None) db
      = (e1, (out1, rej), db1)" by (metis prod.exhaust)
  then have eq: "out = out1 \<and> e = (if e1 = None then rej else e1) \<and> db' = db1"
    using run None by (simp add: Call_def)
  from upd u show thesis
  proof (cases rule: atomic_update_cases)
    case committed
    from call_tx_committed [OF B cd committed(2)] show thesis
      using eq committed(1) None completed by auto
  qed (use eq failed in auto)
qed

section \<open>One reconcile run on the database\<close>

lemma Reconcile_cases:
  assumes B: "bolt_ok B" and cd: "codec_ok cds zero_platform" and upd: "atomic_update upd"
    and run: "Reconcile B cds upd P cfg z p db = (e, (p', panicked), db')"
  obtains (not_begun) "e \<noteq> None" "p' = p" "\<not> panicked" "db' = db"
  | (rolled_back) s os where "e \<noteq> None" "platform_read B cds db = Inr s" "db' = db"
      "reconcile_state P cfg z s p = (os, p')" "panicked \<longleftrightarrow> os = None"
  | (committed) s s' where "e = None" "platform_read B cds db = Inr s" "\<not> panicked"
      "reconcile_state P cfg z s p = (Some s', p')" "platform_read B cds db' = Inr s'"
proof -
  have body: thesis if f: "reconcile_tx B cds P cfg z (p, False) db = (e1, (p', panicked), tx)"
    and e: "(e = None \<and> e1 = None \<and> db' = tx) \<or> (e \<noteq> None \<and> db' = db)" for e1 tx
  proof (cases "platform_read B cds db")
    case (Inl x)
    then show thesis using f e not_begun by (auto simp: reconcile_tx_def)
  next
    case (Inr s)
    obtain os q where r: "reconcile_state P cfg z s p = (os, q)" by fastforce
    show thesis
    proof (cases os)
      case None
      then have "p' = q \<and> panicked \<and> e1 \<noteq> None" using f Inr r by (auto simp: reconcile_tx_def)
      then show thesis using e Inr r None rolled_back by auto
    next
      case (Some s')
      show thesis
      proof (cases "store_Write B cds db ''platform'' s'")
        case (Inl x)
        then have "p' = q \<and> \<not> panicked \<and> e1 \<noteq> None"
          using f \<open>platform_read B cds db = Inr s\<close> r Some by (auto simp: reconcile_tx_def)
        then show thesis using e Inr r Some rolled_back by auto
      next
        case w: (Inr tx')
        then have "p' = q \<and> \<not> panicked \<and> e1 = None \<and> tx = tx'"
          using f Inr r Some by (auto simp: reconcile_tx_def)
        moreover have "platform_read B cds tx' = Inr s'"
          using store_Read_Write [OF B cd w] by (simp add: platform_read_def)
        ultimately show thesis using e Inr r Some rolled_back committed by auto
      qed
    qed
  qed
  from upd run [unfolded Reconcile_def] show thesis
  proof (cases rule: atomic_update_cases)
    case committed
    then show thesis using body by blast
  next
    case (rolled_back e1 tx)
    then show thesis using body by blast
  qed (use not_begun in auto)
qed

section \<open>Calls keep the joint invariant\<close>

definition config_ok :: "config \<Rightarrow> bool" where
  "config_ok cfg \<longleftrightarrow> (\<forall>k i. fmlookup (Instances cfg) k = Some i \<longrightarrow> iID i = k \<and> k \<noteq> '''')"

lemma volume_case_ok:
  assumes "volume_case env p op r s = (out, x, s')" and ok: "sys_ok s D" and wf': "wf s'"
  shows "sys_ok s' D"
  using assms(1)
proof (cases rule: volume_case_cases)
  case (deleted v v')
  have "vState v = ''DELETED''" if "vState v' = ''DELETED''"
    using that by (simp add: deleted(6) request_delete_def Let_def split: if_splits)
  moreover have "D (rID r) = None" if "vState v = ''DELETED''"
    using that deleted(3) sys_okD(5) [OF ok] by (simp add: deleted_gone_def)
  moreover have "vState v' \<in> {''DELETING'', ''DELETED''}"
    by (simp add: deleted(6) request_delete_def Let_def)
  ultimately show ?thesis
    using wf' unfolding deleted(8) by (intro sys_ok_put_volume [OF ok]) auto
next
  case (resized v v')
  have "wf_volume v" by (rule wf_volumeD(2) [OF sys_okD(1) [OF ok] resized(3)])
  then have "vState v \<in> {''AVAILABLE'', ''RESIZING''}" using resized(5,6) by (auto simp: wf_volume_def)
  moreover have "vState v' = vState v \<or> vState v' = ''RESIZING''" "vSizeBytes v' = vSizeBytes v"
      "vDeviceKey v' = vDeviceKey v"
    by (auto simp: resized(9) request_size_def Let_def)
  ultimately show ?thesis
    using wf' backedD [OF sys_okD(6) [OF ok] resized(3)] unfolding resized(11)
    by (intro sys_ok_put_volume [OF ok]) auto
qed (use ok in simp_all)

lemma create_attachment_ok:
  assumes "create_attachment cfg env p r s = (out, x, s')" and ok: "sys_ok s D" and wf': "wf s'"
    and fresh: "fresh_ids env s" and cfg: "config_ok cfg"
  shows "sys_ok s' D"
  using assms(1)
proof (cases rule: create_attachment_cases)
  case (created v v' i a)
  have "fmlookup (Attachments s) (aID a) = None"
    using fresh by (simp add: created(12) fresh_ids_def)
  then have free: "dAttachmentID d \<noteq> aID a" if "D j = Some d" "dInstanceID d \<noteq> ''''" for j d
    using that holder_liveD [OF sys_okD(3) [OF ok]] by fastforce
  have inst: "iID i \<noteq> ''''" using created(4) cfg by (auto simp: engine_instance_None config_ok_def)
  have stock: "\<exists>d. D (rVolumeID r) = Some d \<and> vSizeBytes v' \<le> dSizeBytes d \<and> vDeviceKey v' = dDeviceKey d"
    using sys_okD(6) [OF ok] created(2,8) by (auto simp: backed_def created(11))
  have parts: "named s'" "holder_live s' D" "use_attached s' D" "deleted_gone s' D"
    using sys_okD [OF ok] inst free created(8)
    by (auto simp: created(14,12,11) named_def holder_live_def use_attached_def deleted_gone_def)
  moreover have "backed s' D"
    using sys_okD(6) [OF ok] stock unfolding created(14) backed_def by simp
  ultimately show ?thesis using wf' by (simp add: sys_ok_def)
qed (use ok in simp_all)

lemma attachment_case_ok:
  assumes "attachment_case env p op r s = (out, x, s')" and ok: "sys_ok s D" and wf': "wf s'"
  shows "sys_ok s' D"
  using assms(1)
proof (cases rule: attachment_case_cases)
  case (deleted k a a')
  note facts = sys_okD [OF ok] deleted(4)
  have "aUses a \<noteq> fmempty \<Longrightarrow> \<exists>d. D (aVolumeID a) = Some d \<and> attached_to d (aInstanceID a) (aID a)"
    using facts unfolding use_attached_def by blast
  moreover have "aInstanceID a \<noteq> ''''" using facts by (auto simp: named_def)
  moreover have "aVolumeID a = j \<and> aInstanceID a = dInstanceID d"
    if "D j = Some d" "dInstanceID d \<noteq> ''''" "dAttachmentID d = k" for j d
    using facts that unfolding holder_live_def by fastforce
  ultimately show ?thesis
    using wf' unfolding deleted(10)
    by (intro sys_ok_put_attachment [OF ok]) (auto simp: deleted(8) live_def)
qed (use ok in simp_all)

lemma node_op_ok:
  assumes "node_op cfg p op r s = (out, x, s')" and ok: "sys_ok s D" and wf': "wf s'"
  shows "sys_ok s' D"
  using assms(1)
proof (cases rule: node_op_cases)
  case (released i a a')
  have a: "fmlookup (Attachments s) (rAttachmentID r) = Some a" using released(3) by (simp add: node_authorised_def)
  note facts = sys_okD [OF ok] a
  have "aUses a' \<noteq> fmempty \<Longrightarrow> aUses a \<noteq> fmempty" by (auto simp: released(4))
  then have "aState a' = ''ATTACHED'' \<or> aUses a' \<noteq> fmempty \<Longrightarrow>
      \<exists>d. D (aVolumeID a) = Some d \<and> attached_to d (aInstanceID a) (aID a)"
    using facts unfolding use_attached_def by (auto simp: released(4))
  moreover have "aInstanceID a \<noteq> ''''" using facts by (auto simp: named_def)
  moreover have "aVolumeID a = j \<and> aInstanceID a = dInstanceID d \<and> live a"
    if "D j = Some d" "dInstanceID d \<noteq> ''''" "dAttachmentID d = rAttachmentID r" for j d
    using facts that unfolding holder_live_def by fastforce
  ultimately show ?thesis
    using wf' unfolding released(6)
    by (intro sys_ok_put_attachment [OF ok]) (auto simp: released(4) live_def)
next
  case (acquired i a v a')
  have a: "fmlookup (Attachments s) (rAttachmentID r) = Some a" using acquired(3) by (simp add: node_authorised_def)
  note facts = sys_okD [OF ok] a
  have "\<exists>d. D (aVolumeID a) = Some d \<and> attached_to d (aInstanceID a) (aID a)"
    using facts acquired(4) unfolding use_attached_def healthy_def by blast
  moreover have "aInstanceID a \<noteq> ''''" using facts by (auto simp: named_def)
  moreover have "aVolumeID a = j \<and> aInstanceID a = dInstanceID d \<and> live a"
    if "D j = Some d" "dInstanceID d \<noteq> ''''" "dAttachmentID d = rAttachmentID r" for j d
    using facts that unfolding holder_live_def by fastforce
  ultimately show ?thesis
    using wf' unfolding acquired(9)
    by (intro sys_ok_put_attachment [OF ok]) (auto simp: acquired(7) live_def)
next
  case (initialised i a v v')
  have v: "fmlookup (Volumes s) (aVolumeID a) = Some v" using initialised(4) by (simp add: healthy_def)
  have "vState v' = ''DELETED'' \<Longrightarrow> D (aVolumeID a) = None"
    using sys_okD(5) [OF ok] v by (simp add: initialised(6) deleted_gone_def)
  moreover have "vState v' \<in> {''AVAILABLE'', ''RESIZING''} \<Longrightarrow>
      \<exists>d. D (aVolumeID a) = Some d \<and> vSizeBytes v' \<le> dSizeBytes d \<and> vDeviceKey v' = dDeviceKey d"
    using backedD [OF sys_okD(6) [OF ok] v] by (simp add: initialised(6))
  ultimately show ?thesis
    using wf' unfolding initialised(8) by (intro sys_ok_put_volume [OF ok]) auto
qed (use ok in simp_all)

lemma apply_op_ok:
  assumes run: "apply_op cfg env p op r s = (out, x, s')" and ok: "sys_ok s D"
    and env: "env_for env s" "fresh_ids env s" and room: "generations_le n s" "n < 2 ^ 64 - 1"
    and cfg: "config_ok cfg"
  shows "sys_ok s' D"
proof -
  have wf': "wf s'" by (rule apply_op_wf [OF run sys_okD(1) [OF ok] env room])
  from run show ?thesis
  proof (cases rule: apply_op_cases)
    case create_volume
    from create_volume(3) show ?thesis
    proof (cases rule: create_volume_cases)
      case (created v)
      then show ?thesis using wf' unfolding created(4) by (intro sys_ok_put_volume [OF ok]) simp_all
    qed (use ok in simp_all)
  next
    case volume_case
    then show ?thesis using volume_case_ok ok wf' by blast
  next
    case create_attachment
    then show ?thesis using create_attachment_ok ok wf' env cfg by blast
  next
    case attachment_case
    then show ?thesis using attachment_case_ok ok wf' by blast
  next
    case node
    then show ?thesis using node_op_ok ok wf' by blast
  next
    case get_instance
    then show ?thesis using ok by (auto dest: get_instance_state)
  qed (use ok in simp)
qed

section \<open>Runs of the system\<close>

text \<open>
  One step is a call or a reconcile run, on the committed database and the cloud, with any
  configuration, context, clock, random bytes, loop order and transaction outcome. The two
  premises on the environment say that loops visit each entry once and that 16 random bytes do
  not name an existing record. A restart of the service is no step: it holds no other state.
\<close>

inductive sys_step ::
  "('tx, 'b) bolt \<Rightarrow> ('b, platform) codec \<Rightarrow> ('b, audit_entry) codec \<Rightarrow> 'p provider
     \<Rightarrow> 'tx \<times> 'p \<Rightarrow> 'tx \<times> 'p \<Rightarrow> bool"
  for B cds cda P where
  call: "atomic_update upd \<Longrightarrow> config_ok cfg \<Longrightarrow>
    (\<And>s. platform_read B cds db = Inr s \<Longrightarrow> env_for env s \<and> fresh_ids env s) \<Longrightarrow>
    Call B cds cda upd cfg env p op r db = (res, db') \<Longrightarrow>
    sys_step B cds cda P (db, cloud) (db', cloud)"
| reconcile: "atomic_update upd \<Longrightarrow>
    (\<And>s. platform_read B cds db = Inr s \<Longrightarrow> reconcile_for z s) \<Longrightarrow>
    Reconcile B cds upd P cfg z cloud db = (e, (cloud', panicked), db') \<Longrightarrow>
    sys_step B cds cda P (db, cloud) (db', cloud')"

inductive_cases sys_stepE [consumes 1, case_names call reconcile]: "sys_step B cds cda P c c'"

text \<open>The start: an empty platform state, and a cloud with no disk attached.\<close>

definition sys_init ::
  "('tx, 'b) bolt \<Rightarrow> ('b, platform) codec \<Rightarrow> ('p \<Rightarrow> string \<Rightarrow> disk option) \<Rightarrow> 'tx \<times> 'p \<Rightarrow> bool" where
  "sys_init B cds disks_of c \<longleftrightarrow> platform_read B cds (fst c) = Inr zero_platform
     \<and> (\<forall>k d. disks_of (snd c) k = Some d \<longrightarrow> dInstanceID d = '''')"

definition sys_inv ::
  "('tx, 'b) bolt \<Rightarrow> ('b, platform) codec \<Rightarrow> ('p \<Rightarrow> string \<Rightarrow> disk option) \<Rightarrow> nat \<Rightarrow> 'tx \<times> 'p \<Rightarrow> platform \<Rightarrow> bool" where
  "sys_inv B cds disks_of n c s \<longleftrightarrow> platform_read B cds (fst c) = Inr s
     \<and> sys_ok s (disks_of (snd c)) \<and> generations_le n s"

lemma sys_init_inv: "sys_init B cds disks_of c \<Longrightarrow> sys_inv B cds disks_of 0 c zero_platform"
  using wf_empty
  by (auto simp: sys_init_def sys_inv_def sys_ok_def named_def holder_live_def use_attached_def
      deleted_gone_def backed_def generations_le_def zero_platform_def)

lemma generations_le_mono: "generations_le m s \<Longrightarrow> m \<le> n \<Longrightarrow> generations_le n s"
  unfolding generations_le_def by (meson order_trans)

lemma generations_put:
  "generations_le n s \<Longrightarrow> unat (vGeneration v) \<le> m \<Longrightarrow> n \<le> m \<Longrightarrow> generations_le m (put_volume k v s)"
  "generations_le n s \<Longrightarrow> n \<le> m \<Longrightarrow> generations_le m (put_attachment k a s)"
  using generations_le_mono [of n s m] by (auto simp: generations_le_def)

lemma apply_op_generations:
  assumes run: "apply_op cfg env p op r s = (out, x, s')" and room: "generations_le n s" "n < 2 ^ 64 - 1"
  shows "generations_le (Suc n) s'"
proof -
  have le: "unat (vGeneration v) \<le> n" if "fmlookup (Volumes s) k = Some v" for k v
    using room(1) that by (simp add: generations_le_def)
  have keep: "generations_le (Suc n) s" using generations_le_mono [OF room(1)] by simp
  from run show ?thesis
  proof (cases rule: apply_op_cases)
    case create_volume
    from create_volume(3) show ?thesis
    proof (cases rule: create_volume_cases)
      case (created v)
      then show ?thesis unfolding created(4) by (intro generations_put [OF room(1)]) simp_all
    qed (use keep in simp_all)
  next
    case volume_case
    from volume_case(3) show ?thesis
    proof (cases rule: volume_case_cases)
      case (deleted v v')
      then show ?thesis unfolding deleted(8) using le [OF deleted(3)]
        by (intro generations_put [OF room(1)]) (simp_all add: wf_request_delete)
    next
      case (resized v v')
      then show ?thesis unfolding resized(11) using le [OF resized(3)]
        by (intro generations_put [OF room(1)]) (simp_all add: wf_request_size)
    qed (use keep in simp_all)
  next
    case create_attachment
    from create_attachment(3) show ?thesis
    proof (cases rule: create_attachment_cases)
      case (created v v' i a)
      have "unat (vGeneration v') \<le> Suc n"
        using generation_room(1) [OF room created(2)] le [OF created(2)] by (simp add: created(11))
      then have "generations_le (Suc n) (put_volume (rVolumeID r) v' s)"
        by (intro generations_put [OF room(1)]) simp_all
      then show ?thesis unfolding created(14) by (rule generations_put(2)) simp
    qed (use keep in simp_all)
  next
    case attachment_case
    from attachment_case(3) show ?thesis
    proof (cases rule: attachment_case_cases)
      case (deleted k a a')
      show ?thesis unfolding deleted(10) by (rule generations_put [OF room(1)]) simp
    qed (use keep in simp_all)
  next
    case node
    from node(2) show ?thesis
    proof (cases rule: node_op_cases)
      case (released i a a')
      show ?thesis unfolding released(6) by (rule generations_put [OF room(1)]) simp
    next
      case (acquired i a v a')
      show ?thesis unfolding acquired(9) by (rule generations_put [OF room(1)]) simp
    next
      case (initialised i a v v')
      have "fmlookup (Volumes s) (aVolumeID a) = Some v" using initialised(4) by (simp add: healthy_def)
      then show ?thesis unfolding initialised(8) using le
        by (intro generations_put [OF room(1)]) (auto simp: initialised(6) intro: le_SucI)
    qed (use keep in simp_all)
  next
    case get_instance
    then show ?thesis using keep by (auto dest: get_instance_state)
  qed (use keep in simp)
qed

lemma progressed_generations: "progressed s s' \<Longrightarrow> generations_le n s \<Longrightarrow> generations_le n s'"
  unfolding generations_le_def by (auto dest: progressed_volumeD simp: reconciled_volume_def)

context storage_provider
begin

lemma sys_step_inv:
  assumes B: "bolt_ok B" and cd: "codec_ok cds zero_platform" and step: "sys_step B cds cda P c c'"
    and inv: "sys_inv B cds disks_of n c s" and n: "n < 2 ^ 64 - 1"
  shows "\<exists>s'. sys_inv B cds disks_of (Suc n) c' s' \<and> evolves s s'"
proof -
  have s: "platform_read B cds (fst c) = Inr s" and ok: "sys_ok s (disks_of (snd c))"
    and gen: "generations_le n s"
    using inv by (simp_all add: sys_inv_def)
  have gen': "generations_le (Suc n) s" using generations_le_mono [OF gen] by simp
  from step show ?thesis
  proof (cases rule: sys_stepE)
    case (call upd cfg db env p op r res db' cloud)
    obtain out e where run: "Call B cds cda upd cfg env p op r db = ((out, e), db')"
      using call(6) by (metis prod.exhaust)
    have env: "env_for env s" "fresh_ids env s" using call s by auto
    from B cd call(3) run show ?thesis
    proof (cases rule: Call_cases)
      case failed
      then show ?thesis using s ok gen' call(1,2) by (auto simp: sys_inv_def)
    next
      case (completed s1 s')
      then have op: "apply_op cfg env p op r s = (out, e, s')" using s call(1) by simp
      show ?thesis
      proof (cases e)
        case None
        have "sys_ok s' (disks_of cloud)"
          using apply_op_ok [OF op ok env gen n call(4)] call(1) by simp
        then show ?thesis
          using apply_op_evolves [OF op sys_okD(1) [OF ok] env(2) gen n] completed(5) None
            apply_op_generations [OF op gen n] call(2) by (auto simp: sys_inv_def)
      next
        case (Some x)
        then show ?thesis using completed s ok gen' call(1,2) by (auto simp: sys_inv_def)
      qed
    qed
  next
    case (reconcile upd db z cfg cloud e cloud' panicked db')
    have keys: "reconcile_for z s" using reconcile s by auto
    from B cd reconcile(3,5) show ?thesis
    proof (cases rule: Reconcile_cases)
      case not_begun
      then show ?thesis using s ok gen' reconcile(1,2) by (auto simp: sys_inv_def)
    next
      case (rolled_back s1 os)
      then have "s1 = s" using s reconcile(1) by simp
      with reconcile_state_run [OF rolled_back(4)] sys_okD(1) [OF ok] keys
      have "sys_ok s (disks_of cloud')"
        using cloud_effects_ok ok reconcile(1) by fastforce
      then show ?thesis using rolled_back s gen' reconcile(1,2) by (auto simp: sys_inv_def)
    next
      case (committed s1 s')
      then have "s1 = s" using s reconcile(1) by simp
      with reconcile_state_run [OF committed(4)] sys_okD(1) [OF ok] keys
      have "sys_ok s' (disks_of cloud')" and "progressed s s'"
        using ok reconcile(1) by auto
      then show ?thesis
        using progressed_evolves progressed_generations gen' committed(5) reconcile(2)
        by (auto simp: sys_inv_def)
    qed
  qed
qed

lemma sys_run_inv:
  assumes B: "bolt_ok B" and cd: "codec_ok cds zero_platform"
    and run: "(sys_step B cds cda P ^^ m) c c'"
    and inv: "sys_inv B cds disks_of n c s" and room: "n + m \<le> 2 ^ 64 - 1"
  shows "\<exists>s'. sys_inv B cds disks_of (n + m) c' s' \<and> evolves s s'"
  using run room
proof (induction m arbitrary: c')
  case 0
  then show ?case using inv by auto
next
  case (Suc m)
  then obtain c1 where c1: "(sys_step B cds cda P ^^ m) c c1" "sys_step B cds cda P c1 c'" by auto
  then obtain s1 where s1: "sys_inv B cds disks_of (n + m) c1 s1" "evolves s s1"
    using Suc by fastforce
  then obtain s' where "sys_inv B cds disks_of (Suc (n + m)) c' s'" "evolves s1 s'"
    using sys_step_inv [OF B cd c1(2) s1(1)] Suc.prems(2) by auto
  then show ?case using s1(2) evolves_trans by auto
qed

end

end
