(* ===== verification/EngineSpec.thy ===== *)
theory EngineSpec
  imports System
begin

text \<open>
  What the platform promises its callers, call by call: who may do what, what a retry returns,
  and what each call leaves in the database.
\<close>

section \<open>A concrete platform\<close>

text \<open>Two tenants with one instance each, one volume that is attached and in use, and the calls
  that the concrete instances below make.\<close>

definition ex_instance :: "string \<Rightarrow> string \<Rightarrow> inst" where
  "ex_instance i t = \<lparr>iID = i, iTenantID = t, iClusterID = ''c1'', iRegion = ''r1'', iZone = ''z1'', iActive = True\<rparr>"

definition ex_config :: config where
  "ex_config = \<lparr>Principals = fmempty,
     Instances = fmupd ''vm-a'' (ex_instance ''vm-a'' ''t1'') (fmupd ''vm-b'' (ex_instance ''vm-b'' ''t2'') fmempty),
     Zones = fmupd ''r1'' [''z1''] fmempty\<rparr>"

definition ex_controller :: "string \<Rightarrow> principal" where
  "ex_controller t = \<lparr>pRole = ''controller'', pTenantID = t, pClusterID = ''c1'', pInstanceID = ''''\<rparr>"

definition ex_node :: "string \<Rightarrow> string \<Rightarrow> principal" where
  "ex_node t i = \<lparr>pRole = ''node'', pTenantID = t, pClusterID = ''c1'', pInstanceID = i\<rparr>"

definition ex_volume :: volume where
  "ex_volume = zero_volume\<lparr>vID := ''v1'', vTenantID := ''t1'', vClusterID := ''c1'', vName := ''pvc-1'',
     vType := ''standard'', vRegion := ''r1'', vZone := ''z1'', vState := ''AVAILABLE'', vMode := ''mount'',
     vFSType := ''ext4'', vDeviceKey := ''platform-v1'', vInitialSizeBytes := 10, vSizeBytes := 10,
     vDesiredSizeBytes := 10, vGeneration := 1, vAllowFormat := True\<rparr>"

definition ex_attachment :: attachment where
  "ex_attachment = \<lparr>aID = ''a1'', aTenantID = ''t1'', aClusterID = ''c1'', aVolumeID = ''v1'',
     aInstanceID = ''vm-a'', aState = ''ATTACHED'', aGeneration = 1, aDeleteRequested = False,
     aUses = fmupd ''u1'' True fmempty, aLastError = ''''\<rparr>"

definition ex_platform :: platform where
  "ex_platform = \<lparr>Volumes = fmupd ''v1'' ex_volume fmempty, Attachments = fmupd ''a1'' ex_attachment fmempty\<rparr>"

definition ex_env :: call_env where
  "ex_env = \<lparr>eCtx = None, eNow = ''2024-01-01T00:00:00Z'', eKeyTime = ''2024-01-01T00:00:00Z'', eRandom = [1, 2], eVolumes = [''v1''],
     eAttachments = [''a1'']\<rparr>"

lemmas ex_defs = ex_instance_def ex_config_def ex_controller_def ex_node_def ex_volume_def
  ex_attachment_def ex_platform_def ex_env_def zero_volume_def zero_request_def

lemma enumerates_single [simp]: "enumerates [k] (fmupd k v fmempty)"
  by (simp add: enumerates_def)

lemma ValidID_examples [simp]:
  "ValidID ''pvc-1''" "ValidID ''pvc-2''" "ValidID ''u1''" "ValidID ''u2''" "ValidID ''pod-1''" "\<not> ValidID ''''"
  by (simp_all add: ValidID_def id_first_char_def id_rest_char_def less_eq_char_def)

lemma ex_platform_wf: "wf ex_platform"
  by (simp add: wf_def keys_ok_def one_live_def one_generation_def one_name_def deleted_idle_def
      wf_volume_def wf_attachment_def belongs_def live_def ex_defs)

lemma ex_env_for: "env_for ex_env ex_platform" "fresh_ids ex_env ex_platform"
  by (simp_all add: env_for_def fresh_ids_def newID_def ex_defs)

lemma ex_simps [simp]:
  "fmlookup (Attachments ex_platform) ''a1'' = Some ex_attachment"
  "fmlookup (Volumes ex_platform) ''v1'' = Some ex_volume"
  "aTenantID ex_attachment = ''t1''" "aClusterID ex_attachment = ''c1''" "aVolumeID ex_attachment = ''v1''"
  "aInstanceID ex_attachment = ''vm-a''" "aState ex_attachment = ''ATTACHED''" "aGeneration ex_attachment = 1"
  "\<not> aDeleteRequested ex_attachment" "aUses ex_attachment = fmupd ''u1'' True fmempty" "aLastError ex_attachment = ''''"
  "vGeneration ex_volume = 1" "vLastError ex_volume = ''''" "\<not> vDeleteRequested ex_volume"
  "vMode ex_volume = ''mount''" "vFSType ex_volume = ''ext4''" "vTenantID ex_volume = ''t1''" "vClusterID ex_volume = ''c1''"
  "engine_instance ex_config (ex_node ''t1'' ''vm-a'') ''vm-a'' = (ex_instance ''vm-a'' ''t1'', None)"
  "iTenantID (ex_instance i t) = t" "iClusterID (ex_instance i t) = ''c1''" "iID (ex_instance i t) = i"
  "pRole (ex_node t i) = ''node''" "pInstanceID (ex_node t i) = i" "pRole (ex_controller t) = ''controller''"
  "eCtx ex_env = None" "config_ok ex_config"
  by (simp_all add: ex_defs engine_instance_def config_ok_def)

section \<open>Tenants\<close>

definition own_response :: "principal \<Rightarrow> response \<Rightarrow> go_error option \<Rightarrow> bool" where
  "own_response p out x \<longleftrightarrow>
     (\<forall>v. oVolume out = Some v \<longrightarrow> vTenantID v = pTenantID p \<and> vClusterID v = pClusterID p)
     \<and> (\<forall>a. oAttachment out = Some a \<longrightarrow> aTenantID a = pTenantID p \<and> aClusterID a = pClusterID p)
     \<and> (\<forall>i. x = None \<longrightarrow> oInstance out = Some i \<longrightarrow> iTenantID i = pTenantID p \<and> iClusterID i = pClusterID p)"

definition foreign_same :: "principal \<Rightarrow> platform \<Rightarrow> platform \<Rightarrow> bool" where
  "foreign_same p s s' \<longleftrightarrow>
     (\<forall>k v. \<not> (vTenantID v = pTenantID p \<and> vClusterID v = pClusterID p) \<longrightarrow>
         (fmlookup (Volumes s') k = Some v \<longleftrightarrow> fmlookup (Volumes s) k = Some v))
     \<and> (\<forall>k a. \<not> (aTenantID a = pTenantID p \<and> aClusterID a = pClusterID p) \<longrightarrow>
         (fmlookup (Attachments s') k = Some a \<longleftrightarrow> fmlookup (Attachments s) k = Some a))"

lemma foreign_same_refl [simp]: "foreign_same p s s"
  by (simp add: foreign_same_def)

lemma foreign_same_put_volume:
  assumes "vTenantID w = pTenantID p" "vClusterID w = pClusterID p"
    and "fmlookup (Volumes s) j = None \<or> (\<exists>w0. fmlookup (Volumes s) j = Some w0
      \<and> vTenantID w0 = pTenantID p \<and> vClusterID w0 = pClusterID p)"
  shows "foreign_same p s (put_volume j w s)"
  using assms by (auto simp: foreign_same_def)

lemma foreign_same_put_attachment:
  assumes "aTenantID w = pTenantID p" "aClusterID w = pClusterID p"
    and "fmlookup (Attachments s) j = None \<or> (\<exists>w0. fmlookup (Attachments s) j = Some w0
      \<and> aTenantID w0 = pTenantID p \<and> aClusterID w0 = pClusterID p)"
  shows "foreign_same p s (put_attachment j w s)"
  using assms by (auto simp: foreign_same_def)

lemma foreign_same_trans: "foreign_same p s s1 \<Longrightarrow> foreign_same p s1 s' \<Longrightarrow> foreign_same p s s'"
  by (simp add: foreign_same_def)

lemma own_response_simps [simp]:
  "own_response p zero_response x"
  "own_response p (respond_volume v) x \<longleftrightarrow> vTenantID v = pTenantID p \<and> vClusterID v = pClusterID p"
  "own_response p (respond_attachment a) x \<longleftrightarrow> aTenantID a = pTenantID p \<and> aClusterID a = pClusterID p"
  "own_response p (respond_use a ov) x \<longleftrightarrow> aTenantID a = pTenantID p \<and> aClusterID a = pClusterID p
     \<and> (\<forall>v. ov = Some v \<longrightarrow> vTenantID v = pTenantID p \<and> vClusterID v = pClusterID p)"
  by (auto simp: own_response_def)

lemma volume_case_scope:
  assumes "volume_case env p op r s = (out, x, s')"
  shows "own_response p out x \<and> foreign_same p s s'"
  using assms
proof (cases rule: volume_case_cases)
  case (rejected e)
  then show ?thesis by auto
next
  case (deleted v v')
  moreover have "vTenantID v' = vTenantID v" "vClusterID v' = vClusterID v"
    by (simp_all add: deleted(6) request_delete_def Let_def)
  ultimately show ?thesis by (auto intro!: foreign_same_put_volume)
next
  case (resized v v')
  moreover have "vTenantID v' = vTenantID v" "vClusterID v' = vClusterID v"
    by (simp_all add: resized(9) request_size_def Let_def)
  ultimately show ?thesis by (auto intro!: foreign_same_put_volume)
qed simp_all

lemma create_attachment_scope:
  assumes "create_attachment cfg env p r s = (out, x, s')" and wf: "wf s" and fresh: "fresh_ids env s"
  shows "own_response p out x \<and> foreign_same p s s'"
  using assms(1)
proof (cases rule: create_attachment_cases)
  case (existing v i k a)
  then show ?thesis
    using wf_attachmentD(4) [OF wf existing(9)] wf_volumeD(1) [OF wf existing(4)] by (auto simp: belongs_def)
next
  case (created v v' i a)
  have "foreign_same p s (put_volume (rVolumeID r) v' s)"
    using created(2,3) by (intro foreign_same_put_volume) (auto simp: created(11))
  moreover have "foreign_same p (put_volume (rVolumeID r) v' s) s'"
    unfolding created(14) using created(3) fresh
    by (intro foreign_same_put_attachment) (auto simp: created(11,12) fresh_ids_def)
  ultimately have "foreign_same p s s'" by (rule foreign_same_trans)
  then show ?thesis using created(3) by (simp add: created(11-13))
qed simp_all

lemma attachment_case_scope:
  assumes "attachment_case env p op r s = (out, x, s')"
  shows "own_response p out x \<and> foreign_same p s s'"
  using assms
proof (cases rule: attachment_case_cases)
  case (deleted k a a')
  then show ?thesis by (auto intro!: foreign_same_put_attachment)
qed simp_all

lemma node_authorised_scope:
  assumes "node_authorised cfg p r s i a" and wf: "wf s"
  shows "aTenantID a = pTenantID p" "aClusterID a = pClusterID p"
    "fmlookup (Attachments s) (rAttachmentID r) = Some a"
    "fmlookup (Volumes s) (aVolumeID a) = Some v \<Longrightarrow> vTenantID v = pTenantID p \<and> vClusterID v = pClusterID p"
proof -
  show a: "fmlookup (Attachments s) (rAttachmentID r) = Some a"
    and t: "aTenantID a = pTenantID p" "aClusterID a = pClusterID p"
    using assms(1) by (auto simp: node_authorised_def engine_instance_None)
  show "vTenantID v = pTenantID p \<and> vClusterID v = pClusterID p"
    if "fmlookup (Volumes s) (aVolumeID a) = Some v"
    using wf_attachmentD(4) [OF wf a] that t by (auto simp: belongs_def)
qed

lemma node_op_scope:
  assumes "node_op cfg p op r s = (out, x, s')" and wf: "wf s"
  shows "own_response p out x \<and> foreign_same p s s'"
  using assms(1)
proof (cases rule: node_op_cases)
  case (rejected e)
  then show ?thesis using node_authorised_scope [OF _ wf] by fastforce
next
  case (self i)
  then show ?thesis by (auto simp: engine_instance_None own_response_def)
next
  case (released i a a')
  note scope = node_authorised_scope [OF released(3) wf]
  have "foreign_same p s s'" unfolding released(6) using scope
    by (intro foreign_same_put_attachment) (auto simp: released(4))
  then show ?thesis using scope by (simp add: released(4,5))
next
  case (acquired i a v a')
  note scope = node_authorised_scope [OF acquired(3) wf]
  have "foreign_same p s s'" unfolding acquired(9) using scope
    by (intro foreign_same_put_attachment) (auto simp: acquired(7))
  then show ?thesis using scope acquired(4) by (simp add: acquired(7,8) healthy_def)
next
  case (initialised i a v v')
  note scope = node_authorised_scope [OF initialised(3) wf]
  have v: "fmlookup (Volumes s) (aVolumeID a) = Some v" using initialised(4) by (simp add: healthy_def)
  have "foreign_same p s s'" unfolding initialised(8) using scope(4) [OF v] v
    by (intro foreign_same_put_volume) (auto simp: initialised(6))
  then show ?thesis using scope(1,2) scope(4) [OF v] by (simp add: initialised(6,7))
next
  case (checked i a v)
  note scope = node_authorised_scope [OF checked(4) wf]
  then show ?thesis using checked by (simp add: healthy_def)
qed

lemma apply_op_scope:
  assumes "apply_op cfg env p op r s = (out, x, s')" and wf: "wf s" and fresh: "fresh_ids env s"
  shows "own_response p out x \<and> foreign_same p s s'"
  using assms(1)
proof (cases rule: apply_op_cases)
  case create_volume
  from create_volume(3) show ?thesis
  proof (cases rule: create_volume_cases)
    case (created v)
    have "foreign_same p s s'" unfolding created(4)
      using fresh by (intro foreign_same_put_volume) (auto simp: created(2) fresh_ids_def)
    then show ?thesis by (simp add: created(2,3))
  qed simp_all
next
  case get_instance
  then show ?thesis by (auto simp: get_instance_def engine_instance_None own_response_def split: prod.splits)
next
  case volume_case
  then show ?thesis using volume_case_scope by blast
next
  case create_attachment
  then show ?thesis using create_attachment_scope wf fresh by blast
next
  case attachment_case
  then show ?thesis using attachment_case_scope by blast
next
  case node
  then show ?thesis using node_op_scope wf by blast
qed simp

text \<open>
  C12: tenants are isolated. Whatever call a principal makes, on any well-formed state, the volume
  and the attachment in the response belong to the principal's tenant and cluster, an instance
  returned without an error does too, and every volume and attachment outside that scope is
  exactly as before: none is created, changed or removed.
\<close>

theorem tenant_isolation:
  assumes "wf s" and "fresh_ids env s" and "apply_op cfg env p op r s = (out, x, s')"
  shows "(\<forall>v. oVolume out = Some v \<longrightarrow> vTenantID v = pTenantID p \<and> vClusterID v = pClusterID p)
    \<and> (\<forall>a. oAttachment out = Some a \<longrightarrow> aTenantID a = pTenantID p \<and> aClusterID a = pClusterID p)
    \<and> (\<forall>i. x = None \<longrightarrow> oInstance out = Some i \<longrightarrow> iTenantID i = pTenantID p \<and> iClusterID i = pClusterID p)
    \<and> (\<forall>k v. \<not> (vTenantID v = pTenantID p \<and> vClusterID v = pClusterID p) \<longrightarrow>
         (fmlookup (Volumes s') k = Some v \<longleftrightarrow> fmlookup (Volumes s) k = Some v))
    \<and> (\<forall>k a. \<not> (aTenantID a = pTenantID p \<and> aClusterID a = pClusterID p) \<longrightarrow>
         (fmlookup (Attachments s') k = Some a \<longleftrightarrow> fmlookup (Attachments s) k = Some a))"
  using apply_op_scope [OF assms(3,1,2)] unfolding own_response_def foreign_same_def
  by (elim conjE, intro conjI) assumption+

theorem tenant_isolation_witness:
  "\<exists>out x s'. apply_op ex_config ex_env (ex_controller ''t2'') ''DeleteVolume'' (zero_request\<lparr>rID := ''v1''\<rparr>) ex_platform
      = (out, x, s') \<and> fmlookup (Volumes s') ''v1'' = Some ex_volume \<and> oVolume out \<noteq> Some ex_volume"
proof -
  obtain out x s' where run: "apply_op ex_config ex_env (ex_controller ''t2'') ''DeleteVolume''
      (zero_request\<lparr>rID := ''v1''\<rparr>) ex_platform = (out, x, s')" by (metis prod_cases3)
  note iso = tenant_isolation [OF ex_platform_wf ex_env_for(2) run]
  have other: "\<not> (vTenantID ex_volume = pTenantID (ex_controller ''t2'') \<and> vClusterID ex_volume = pClusterID (ex_controller ''t2''))"
    by (simp add: ex_defs)
  from iso have "\<forall>k v. \<not> (vTenantID v = pTenantID (ex_controller ''t2'') \<and> vClusterID v = pClusterID (ex_controller ''t2''))
      \<longrightarrow> (fmlookup (Volumes s') k = Some v \<longleftrightarrow> fmlookup (Volumes ex_platform) k = Some v)"
    by (elim conjE)
  from this [rule_format, OF other] have "fmlookup (Volumes s') ''v1'' = Some ex_volume"
    by (simp add: ex_platform_def)
  moreover have "oVolume out \<noteq> Some ex_volume" using iso [THEN conjunct1] other by auto
  ultimately show ?thesis using run by blast
qed

section \<open>Durable uses\<close>

lemma node_op_acquire:
  assumes "node_authorised cfg p r s i a" and "healthy s a v" and "rMode r = vMode v" and "rFSType r = vFSType v"
  shows "node_op cfg p ''AcquireUse'' r s =
    (respond_use (a\<lparr>aUses := fmupd (rUseID r) True (aUses a)\<rparr>) (Some v), None,
     put_attachment (rAttachmentID r) (a\<lparr>aUses := fmupd (rUseID r) True (aUses a)\<rparr>) s)"
  using assms by (simp add: node_op_def node_authorised_def healthy_def Let_def)

lemma node_op_acquire_iff:
  assumes "node_op cfg p ''AcquireUse'' r s = (out, x, s')"
  shows "x = None \<longleftrightarrow> (\<exists>i a v. node_authorised cfg p r s i a \<and> healthy s a v
    \<and> rMode r = vMode v \<and> rFSType r = vFSType v)"
proof
  assume "x = None"
  with assms show "\<exists>i a v. node_authorised cfg p r s i a \<and> healthy s a v \<and> rMode r = vMode v \<and> rFSType r = vFSType v"
    by (cases rule: node_op_cases) auto
qed (use assms node_op_acquire in fastforce)

lemma node_op_acquire_state:
  assumes "node_op cfg p ''AcquireUse'' r s = (out, x, s')"
  shows "(x = None \<longrightarrow> (\<exists>a. fmlookup (Attachments s) (rAttachmentID r) = Some a
         \<and> s' = put_attachment (rAttachmentID r) (a\<lparr>aUses := fmupd (rUseID r) True (aUses a)\<rparr>) s))
      \<and> (x \<noteq> None \<longrightarrow> s' = s)"
  using assms
proof (cases rule: node_op_cases)
  case (acquired i a v a')
  have "fmlookup (Attachments s) (rAttachmentID r) = Some a"
    using acquired(3) by (simp add: node_authorised_def)
  then show ?thesis using acquired(1,7,9) by blast
qed simp_all

text \<open>
  C4: exactly who may mount. A node's \<open>AcquireUse\<close> succeeds if and only if the node's own
  instance is active and in the principal's tenant and cluster, the attachment it names exists,
  belongs to that instance, tenant and cluster and to the volume and generation it names, the
  use ID is valid, the attachment is attached, not being deleted and without error, and the
  volume exists, is not being deleted, has no error and has the mode and filesystem asked for.
  On success the use is recorded and nothing else changes; otherwise nothing changes.
\<close>

theorem acquire_use_iff:
  assumes "pRole p = ''node''" and "apply_op cfg env p ''AcquireUse'' r s = (out, x, s')"
  shows "(x = None \<longleftrightarrow>
      (\<exists>i a v. fmlookup (Instances cfg) (pInstanceID p) = Some i \<and> iActive i
         \<and> iTenantID i = pTenantID p \<and> iClusterID i = pClusterID p
         \<and> fmlookup (Attachments s) (rAttachmentID r) = Some a
         \<and> aTenantID a = iTenantID i \<and> aClusterID a = iClusterID i \<and> aInstanceID a = iID i
         \<and> aVolumeID a = rVolumeID r \<and> aGeneration a = rGeneration r \<and> ValidID (rUseID r)
         \<and> aState a = ''ATTACHED'' \<and> \<not> aDeleteRequested a \<and> aLastError a = ''''
         \<and> fmlookup (Volumes s) (rVolumeID r) = Some v \<and> \<not> vDeleteRequested v \<and> vLastError v = ''''
         \<and> vMode v = rMode r \<and> vFSType v = rFSType r))
    \<and> (x = None \<longrightarrow> (\<exists>a. fmlookup (Attachments s) (rAttachmentID r) = Some a
         \<and> s' = put_attachment (rAttachmentID r) (a\<lparr>aUses := fmupd (rUseID r) True (aUses a)\<rparr>) s))
    \<and> (x \<noteq> None \<longrightarrow> s' = s)"
proof -
  have run: "node_op cfg p ''AcquireUse'' r s = (out, x, s')" using assms by (simp add: apply_op_def)
  have success: "x = None \<longleftrightarrow> (\<exists>i a v. node_authorised cfg p r s i a \<and> healthy s a v
      \<and> rMode r = vMode v \<and> rFSType r = vFSType v)"
    by (rule node_op_acquire_iff [OF run])
  have effect: "(x = None \<longrightarrow> (\<exists>a. fmlookup (Attachments s) (rAttachmentID r) = Some a
         \<and> s' = put_attachment (rAttachmentID r) (a\<lparr>aUses := fmupd (rUseID r) True (aUses a)\<rparr>) s))
      \<and> (x \<noteq> None \<longrightarrow> s' = s)"
    by (rule node_op_acquire_state [OF run])
  have spelled: "(\<exists>i a v. node_authorised cfg p r s i a \<and> healthy s a v
        \<and> rMode r = vMode v \<and> rFSType r = vFSType v) \<longleftrightarrow>
      (\<exists>i a v. fmlookup (Instances cfg) (pInstanceID p) = Some i \<and> iActive i
         \<and> iTenantID i = pTenantID p \<and> iClusterID i = pClusterID p
         \<and> fmlookup (Attachments s) (rAttachmentID r) = Some a
         \<and> aTenantID a = iTenantID i \<and> aClusterID a = iClusterID i \<and> aInstanceID a = iID i
         \<and> aVolumeID a = rVolumeID r \<and> aGeneration a = rGeneration r \<and> ValidID (rUseID r)
         \<and> aState a = ''ATTACHED'' \<and> \<not> aDeleteRequested a \<and> aLastError a = ''''
         \<and> fmlookup (Volumes s) (rVolumeID r) = Some v \<and> \<not> vDeleteRequested v \<and> vLastError v = ''''
         \<and> vMode v = rMode r \<and> vFSType v = rFSType r)"
    unfolding node_authorised_def healthy_def engine_instance_None
    by (intro iff_exI iffI; elim conjE; intro conjI) simp_all
  show ?thesis by (rule conjI [OF trans [OF success spelled] effect])
qed

definition ex_use_request :: "string \<Rightarrow> request" where
  "ex_use_request u = zero_request\<lparr>rVolumeID := ''v1'', rAttachmentID := ''a1'', rGeneration := 1,
     rUseID := u, rMode := ''mount'', rFSType := ''ext4'', rPodUID := ''pod-1''\<rparr>"

theorem acquire_use_iff_witness:
  "\<exists>out s'. apply_op ex_config ex_env (ex_node ''t1'' ''vm-a'') ''AcquireUse'' (ex_use_request ''u2'') ex_platform
     = (out, None, s') \<and> s' \<noteq> ex_platform"
proof -
  obtain out x s' where run: "apply_op ex_config ex_env (ex_node ''t1'' ''vm-a'') ''AcquireUse''
      (ex_use_request ''u2'') ex_platform = (out, x, s')" by (metis prod_cases3)
  have node: "pRole (ex_node ''t1'' ''vm-a'') = ''node''" by (simp add: ex_defs)
  note iff = acquire_use_iff [OF node run]
  have "x = None"
    by (rule iff [THEN conjunct1, THEN iffD2], rule exI [of _ "ex_instance ''vm-a'' ''t1''"],
        rule exI [of _ ex_attachment], rule exI [of _ ex_volume]) (simp add: ex_defs ex_use_request_def)
  from iff [THEN conjunct2, THEN conjunct1, rule_format, OF this]
  have "fmlookup (Attachments s') ''a1'' = Some (ex_attachment\<lparr>aUses := fmupd ''u2'' True (aUses ex_attachment)\<rparr>)"
    by (auto simp: ex_use_request_def)
  moreover have "ex_attachment\<lparr>aUses := fmupd ''u2'' True (aUses ex_attachment)\<rparr> \<noteq> ex_attachment"
  proof
    assume "ex_attachment\<lparr>aUses := fmupd ''u2'' True (aUses ex_attachment)\<rparr> = ex_attachment"
    then have "fmupd ''u2'' True (aUses ex_attachment) = aUses ex_attachment"
      by (metis attachment.select_convs(9) attachment.surjective attachment.update_convs(9))
    then have "fmlookup (fmupd ''u1'' True fmempty) ''u2'' = Some True" by (metis ex_simps(10) fmupd_lookup)
    then show False by simp
  qed
  ultimately have "s' \<noteq> ex_platform" by auto
  then show ?thesis using run \<open>x = None\<close> by blast
qed

lemma healthy_live: "healthy s a v \<Longrightarrow> aState a = ''ATTACHED'' \<and> live a"
  by (simp add: healthy_def live_def)

text \<open>
  C21: uses are fenced by generation. When any
  use operation of a node succeeds, the attachment it named is one of the
  volume to the node's own instance and has the generation presented. For \<open>AcquireUse\<close>, \<open>CheckUse\<close>, \<open>RecordPublish\<close> and
  \<open>MarkInitialized\<close>, and for a \<open>ReleaseUse\<close> that changes anything, that generation is moreover the volume's current one, the
  attachment is the only live one of the volume, and every other attachment of the volume has a smaller generation. So a request
  that carries the generation of a superseded attachment is refused or, to release a use that is long gone, does nothing.
\<close>

theorem use_fenced:
  assumes "wf s" and "pRole p = ''node''" and "config_ok cfg"
    and "op \<in> {''AcquireUse'', ''CheckUse'', ''RecordPublish'', ''MarkInitialized'', ''ReleaseUse''}"
    and "apply_op cfg env p op r s = (out, None, s')"
  shows "\<exists>a v. fmlookup (Attachments s) (rAttachmentID r) = Some a \<and> fmlookup (Volumes s) (rVolumeID r) = Some v
    \<and> aVolumeID a = rVolumeID r \<and> aInstanceID a = pInstanceID p \<and> rGeneration r = aGeneration a
    \<and> (op = ''ReleaseUse'' \<or> aState a = ''ATTACHED'')
    \<and> (op = ''ReleaseUse'' \<and> s' = s \<or> live a \<and> rGeneration r = vGeneration v
       \<and> (\<forall>k b. fmlookup (Attachments s) k = Some b \<longrightarrow> aVolumeID b = rVolumeID r \<longrightarrow> k \<noteq> rAttachmentID r \<longrightarrow>
            \<not> live b \<and> aGeneration b < rGeneration r))"
proof -
  have run: "node_op cfg p op r s = (out, None, s')" using assms(2,5) by (simp add: apply_op_def)
  then have "\<exists>i a. node_authorised cfg p r s i a \<and> (op = ''ReleaseUse'' \<or> aState a = ''ATTACHED'')
      \<and> (op = ''ReleaseUse'' \<and> s' = s \<or> live a)"
  proof (cases rule: node_op_cases)
    case (released i a a')
    have a: "fmlookup (Attachments s) (rAttachmentID r) = Some a" using released(3) by (simp add: node_authorised_def)
    have "s' = s" if "aUses a = fmempty" using released(4,6) that a by simp
    moreover have "live a" if "aUses a \<noteq> fmempty" using live_uses [OF wf_attachmentD(3) [OF assms(1) a] that] .
    ultimately show ?thesis using released(2,3) by blast
  next
    case (self i)
    then show ?thesis using assms(4) by simp
  next
    case (acquired i a v a')
    then show ?thesis using healthy_live [OF acquired(4)] by blast
  next
    case (initialised i a v v')
    then show ?thesis using healthy_live [OF initialised(4)] by blast
  next
    case (checked i a v)
    then show ?thesis using healthy_live [OF checked(5)] by blast
  qed simp
  then obtain i a where auth: "node_authorised cfg p r s i a" and st: "op = ''ReleaseUse'' \<or> aState a = ''ATTACHED''"
    and la: "op = ''ReleaseUse'' \<and> s' = s \<or> live a" by blast
  have a: "fmlookup (Attachments s) (rAttachmentID r) = Some a" "aVolumeID a = rVolumeID r"
      "aGeneration a = rGeneration r" "aInstanceID a = pInstanceID p"
    using auth assms(3) by (auto simp: node_authorised_def engine_instance_None config_ok_def)
  obtain v where v: "fmlookup (Volumes s) (rVolumeID r) = Some v" and bel: "belongs a v"
    using wf_attachmentD(4) [OF assms(1) a(1)] a(2) by auto
  have "\<not> live b \<and> aGeneration b < rGeneration r"
    if la: "live a" and b: "fmlookup (Attachments s) k = Some b" "aVolumeID b = rVolumeID r" "k \<noteq> rAttachmentID r" for k b
  proof -
    have "\<not> live b" using one_liveD(1) [OF assms(1) a(1) b(1) la] b a(2) by auto
    moreover have "aGeneration b \<noteq> aGeneration a" using one_generationD [OF assms(1) b(1) a(1)] b a(2) by auto
    moreover have "aGeneration b \<le> vGeneration v"
      using wf_attachmentD(4) [OF assms(1) b(1)] v b(2) by (auto simp: belongs_def)
    ultimately show ?thesis using bel la a(3) by (auto simp: belongs_def)
  qed
  then show ?thesis using a v st la bel by (intro exI [of _ a] exI [of _ v]) (auto simp: belongs_def)
qed

theorem use_fenced_witness:
  "\<exists>out s'. apply_op ex_config ex_env (ex_node ''t1'' ''vm-a'') ''CheckUse'' (ex_use_request ''u1'') ex_platform
     = (out, None, s') \<and> rGeneration (ex_use_request ''u1'') = vGeneration ex_volume"
proof -
  have run: "apply_op ex_config ex_env (ex_node ''t1'' ''vm-a'') ''CheckUse'' (ex_use_request ''u1'') ex_platform
      = (respond_use ex_attachment (Some ex_volume), None, ex_platform)"
    by (simp add: apply_op_def node_op_def engine_instance_def ex_defs ex_use_request_def)
  have "config_ok ex_config" by (simp add: config_ok_def ex_defs)
  moreover have "pRole (ex_node ''t1'' ''vm-a'') = ''node''" by (simp add: ex_defs)
  ultimately have "\<exists>v. fmlookup (Volumes ex_platform) ''v1'' = Some v \<and> rGeneration (ex_use_request ''u1'') = vGeneration v"
    using use_fenced [OF ex_platform_wf _ _ _ run] by (fastforce simp: ex_use_request_def)
  then show ?thesis using run by (auto simp: ex_platform_def)
qed

section \<open>Retries and the single writer\<close>

lemma create_volume_lookup:
  assumes "create_volume cfg env p r s = (out, None, s')" and wf: "wf s"
  shows "\<exists>v. out = respond_volume v \<and> fmlookup (Volumes s') (vID v) = Some v \<and> owned p (Some v) \<and> vName v = rName r
    \<and> \<not> vDeleteRequested v \<and> vInitialSizeBytes v = rSizeBytes r \<and> vType v = rType r \<and> vRegion v = rRegion r
    \<and> vZone v = rZone r \<and> vMode v = rMode r \<and> vFSType v = rFSType r"
  using assms(1)
proof (cases rule: create_volume_cases)
  case (existing k v)
  then show ?thesis using wf_volumeD(1) [OF wf existing(5)] by (intro exI [of _ v]) simp
next
  case (created v)
  have "vInitialSizeBytes v = rSizeBytes r \<and> vType v = rType r \<and> vRegion v = rRegion r
    \<and> vZone v = rZone r \<and> vMode v = rMode r \<and> vFSType v = rFSType r"
    by (simp add: created(2) new_volume_def zero_volume_def)
  then show ?thesis by (intro exI [of _ v]) (simp add: created(2,3,4))
qed simp

lemma create_volume_valid:
  "create_volume cfg env p r s = (out, None, s') \<Longrightarrow> valid_create cfg r \<and> valid_capability r"
  by (simp add: create_volume_def split: if_splits)

lemma find_named_volume:
  assumes wf: "wf s" and keys: "enumerates ks (Volumes s)" and v: "fmlookup (Volumes s) k = Some v"
    and own: "owned p (Some v)" "vName v = n"
  shows "List.find (\<lambda>v. owned p (Some v) \<and> vName v = n) (range_values (Volumes s) ks) = Some v"
proof (cases "List.find (\<lambda>v. owned p (Some v) \<and> vName v = n) (range_values (Volumes s) ks)")
  case None
  then show ?thesis using v own by (auto simp: find_range_values_None [OF keys])
next
  case (Some w)
  from find_range_values_Some [OF this] obtain k' where
    "owned p (Some w)" "vName w = n" "fmlookup (Volumes s) k' = Some w" by blast
  then have "k' = k" using one_nameD [OF wf _ v] own by auto
  then show ?thesis using Some v \<open>fmlookup (Volumes s) k' = Some w\<close> by simp
qed

text \<open>
  C22: \<open>CreateVolume\<close> can be retried. Once a call has succeeded, the same request by the same
  principal in any later state, after any sequence of operations that keeps the lifecycle,
  creates nothing: it returns the same volume while that volume is not marked for deletion,
  and \<open>AlreadyExists\<close> after that. And whatever a later request of that name asks for, from any controller of the same tenant and
  cluster, it changes nothing and returns that very volume or an error: a name never gets a second volume, deleted or not.
\<close>

theorem create_volume_retry:
  assumes "wf s" and "pRole p = ''controller''"
    and "apply_op cfg env p ''CreateVolume'' r s = (out, None, s1)" and "oVolume out = Some v"
    and "wf s2" and "evolves s1 s2" and "env_for env2 s2"
  shows "\<exists>v2. fmlookup (Volumes s2) (vID v) = Some v2 \<and> vID v2 = vID v
    \<and> apply_op cfg env2 p ''CreateVolume'' r s2 =
        (if vDeleteRequested v2
         then (zero_response, Err ''AlreadyExists''
                 ''idempotency key reused with different configuration or deleted volume'', s2)
         else (respond_volume v2, None, s2))
    \<and> (\<forall>cfg' p' r' out' x' s3. pRole p' = ''controller'' \<longrightarrow> pTenantID p' = pTenantID p \<longrightarrow> pClusterID p' = pClusterID p \<longrightarrow>
         rName r' = rName r \<longrightarrow> apply_op cfg' env2 p' ''CreateVolume'' r' s2 = (out', x', s3) \<longrightarrow>
         s3 = s2 \<and> (x' \<noteq> None \<and> oVolume out' = None \<or> x' = None \<and> out' = respond_volume v2))"
proof -
  have run: "create_volume cfg env p r s = (out, None, s1)" using assms(2,3) by (simp add: apply_op_def)
  from create_volume_lookup [OF run assms(1)] assms(4) have
    v: "fmlookup (Volumes s1) (vID v) = Some v" "owned p (Some v)" "vName v = rName r"
      "vInitialSizeBytes v = rSizeBytes r" "vType v = rType r" "vRegion v = rRegion r"
      "vZone v = rZone r" "vMode v = rMode r" "vFSType v = rFSType r"
    by auto
  obtain v2 where v2: "fmlookup (Volumes s2) (vID v) = Some v2" and ev: "volume_evolves v v2"
    using evolves_volumeD [OF assms(6) v(1)] by blast
  have keys: "enumerates (eVolumes env2) (Volumes s2)" using assms(7) by (simp add: env_for_def)
  have "owned p (Some v2)" "vName v2 = rName r" using v ev by (auto simp: volume_evolves_def)
  note found = find_named_volume [OF assms(5) keys v2 this]
  have "apply_op cfg env2 p ''CreateVolume'' r s2 = create_volume cfg env2 p r s2"
    using assms(2) by (simp add: apply_op_def)
  also have "\<dots> = (if vDeleteRequested v2
         then (zero_response, Err ''AlreadyExists''
                 ''idempotency key reused with different configuration or deleted volume'', s2)
         else (respond_volume v2, None, s2))"
    using create_volume_valid [OF run] found v ev by (simp add: create_volume_def volume_evolves_def)
  finally have same: "apply_op cfg env2 p ''CreateVolume'' r s2 = (if vDeleteRequested v2
         then (zero_response, Err ''AlreadyExists''
                 ''idempotency key reused with different configuration or deleted volume'', s2)
         else (respond_volume v2, None, s2))" .
  have "s3 = s2 \<and> (x' \<noteq> None \<and> oVolume out' = None \<or> x' = None \<and> out' = respond_volume v2)"
    if p': "pRole p' = ''controller''" "pTenantID p' = pTenantID p" "pClusterID p' = pClusterID p" and n: "rName r' = rName r"
      and op: "apply_op cfg' env2 p' ''CreateVolume'' r' s2 = (out', x', s3)" for cfg' p' r' out' x' s3
  proof -
    have own: "owned p' (Some v2)" "vName v2 = rName r'"
      using \<open>owned p (Some v2)\<close> \<open>vName v2 = rName r\<close> p' n by (simp_all add: owned_def)
    have "create_volume cfg' env2 p' r' s2 = (out', x', s3)" using op p'(1) by (simp add: apply_op_def)
    then show ?thesis
    proof (cases rule: create_volume_cases)
      case (existing k w)
      have "k = vID v"
        by (rule one_nameD [OF assms(5) existing(5) v2]) (use existing(6,7) own in \<open>simp_all add: owned_def\<close>)
      then show ?thesis using existing v2 by simp
    next
      case (created w)
      then show ?thesis using find_named_volume [OF assms(5) keys v2 own] by simp
    qed simp
  qed
  then have later: "\<forall>cfg' p' r' out' x' s3. pRole p' = ''controller'' \<longrightarrow> pTenantID p' = pTenantID p \<longrightarrow>
      pClusterID p' = pClusterID p \<longrightarrow> rName r' = rName r \<longrightarrow>
      apply_op cfg' env2 p' ''CreateVolume'' r' s2 = (out', x', s3) \<longrightarrow>
      s3 = s2 \<and> (x' \<noteq> None \<and> oVolume out' = None \<or> x' = None \<and> out' = respond_volume v2)" by blast
  have id: "vID v2 = vID v" using ev by (simp add: volume_evolves_def)
  show ?thesis by (rule exI [of _ v2]) (intro conjI, fact v2, fact id, fact same, fact later)
qed

definition ex_create_request :: request where
  "ex_create_request = zero_request\<lparr>rName := ''pvc-2'', rType := ''standard'', rRegion := ''r1'', rZone := ''z1'',
     rMode := ''block'', rSizeBytes := 5\<rparr>"

theorem create_volume_retry_witness:
  "\<exists>out v s1 env2. apply_op ex_config ex_env (ex_controller ''t1'') ''CreateVolume'' ex_create_request ex_platform
      = (out, None, s1) \<and> oVolume out = Some v
    \<and> apply_op ex_config env2 (ex_controller ''t1'') ''CreateVolume'' ex_create_request s1 = (respond_volume v, None, s1)"
proof -
  define v where "v = new_volume ''volume-0102'' (ex_controller ''t1'') ex_create_request"
  define s1 where "s1 = put_volume ''volume-0102'' v ex_platform"
  define env2 where "env2 = ex_env\<lparr>eVolumes := [''volume-0102'', ''v1'']\<rparr>"
  have ids: "newID ''volume-'' (eRandom ex_env) = ''volume-0102''"
    by (simp add: newID_def hex_encode_def hex_digit_def hex_digits_def ex_env_def)
  have valid: "valid_create ex_config ex_create_request" "valid_capability ex_create_request"
    by (simp_all add: valid_create_def valid_capability_def ex_create_request_def ex_defs)
  have role: "pRole (ex_controller ''t1'') = ''controller''" by (simp add: ex_defs)
  have none: "List.find (\<lambda>v. owned (ex_controller ''t1'') (Some v) \<and> vName v = rName ex_create_request)
      (range_values (Volumes ex_platform) (eVolumes ex_env)) = None"
    by (simp add: ex_create_request_def ex_defs)
  have run: "apply_op ex_config ex_env (ex_controller ''t1'') ''CreateVolume'' ex_create_request ex_platform
      = (respond_volume v, None, s1)"
    using valid role none ids by (simp add: apply_op_def create_volume_def v_def s1_def Let_def)
  have room: "generations_le 1 ex_platform" by (simp add: generations_le_def ex_defs)
  have wf1: "wf s1" by (rule apply_op_wf [OF run ex_platform_wf ex_env_for room]) simp
  have env2: "env_for env2 s1"
    by (simp add: env_for_def enumerates_def env2_def s1_def ex_defs finsert_commute)
  have lookup: "fmlookup (Volumes s1) (vID v) = Some v" and "\<not> vDeleteRequested v"
    by (simp_all add: s1_def v_def)
  from create_volume_retry [OF ex_platform_wf role run _ wf1 evolves_refl(3) env2, of v]
  have "apply_op ex_config env2 (ex_controller ''t1'') ''CreateVolume'' ex_create_request s1
      = (respond_volume v, None, s1)"
    using lookup \<open>\<not> vDeleteRequested v\<close> by auto
  then show ?thesis using run by fastforce
qed

lemma create_attachment_refused:
  assumes wf: "wf s" and env: "env_for env s" and b: "fmlookup (Attachments s) k = Some b"
    and on: "aVolumeID b = rVolumeID r" "live b" and bad: "aInstanceID b \<noteq> rInstanceID r \<or> aDeleteRequested b"
    and cfg: "config_ok cfg" and run: "create_attachment cfg env p r s = (out, x, s')"
  shows "x \<noteq> None"
  using run
proof (cases rule: create_attachment_cases)
  case (existing v i k' a)
  have "aVolumeID a = aVolumeID b"
    using existing(4,10) wf_volumeD(1) [OF wf existing(4)] on(1) by simp
  then have "a = b" using one_liveD(2) [OF wf existing(9) b existing(11) on(2)] by simp
  moreover have "iID i = rInstanceID r"
    using existing(6) cfg by (auto simp: engine_instance_None config_ok_def)
  ultimately show ?thesis using existing(12,13) bad by simp
next
  case (created v v' i a)
  have "vID v = rVolumeID r" by (rule wf_volumeD(1) [OF wf created(2)])
  then show ?thesis using created(10) env b on
    by (auto simp: env_for_def find_range_values_None)
qed simp

lemma create_attachment_result:
  assumes wf: "wf s" and env: "env_for env s" and cfg: "config_ok cfg" and fresh: "fresh_ids env s"
    and run: "create_attachment cfg env p r s = (out, None, s')"
  shows "\<exists>a. out = respond_attachment a \<and> fmlookup (Attachments s') (aID a) = Some a \<and> live a
    \<and> \<not> aDeleteRequested a \<and> aVolumeID a = rVolumeID r \<and> aInstanceID a = rInstanceID r
    \<and> aTenantID a = pTenantID p \<and> aClusterID a = pClusterID p"
  using run
proof (cases rule: create_attachment_cases)
  case (existing v i k a)
  have "aID a = k" by (rule wf_attachmentD(1) [OF wf existing(9)])
  moreover have "aVolumeID a = rVolumeID r"
    using existing(10) wf_volumeD(1) [OF wf existing(4)] by simp
  moreover have "aInstanceID a = rInstanceID r"
    using existing(6,12) cfg by (auto simp: engine_instance_None config_ok_def)
  moreover have "aTenantID a = pTenantID p \<and> aClusterID a = pClusterID p"
    using wf_attachmentD(4) [OF wf existing(9)] existing(4,5) \<open>aVolumeID a = rVolumeID r\<close>
    by (auto simp: belongs_def)
  ultimately show ?thesis using existing by (intro exI [of _ a]) simp
next
  case (created v v' i a)
  have "iID i = rInstanceID r" using created(4) cfg by (auto simp: engine_instance_None config_ok_def)
  moreover have "vID v = rVolumeID r" by (rule wf_volumeD(1) [OF wf created(2)])
  ultimately show ?thesis using created(3)
    by (intro exI [of _ a]) (simp add: created(11-14))
qed simp

text \<open>
  C13: one writer. A successful \<open>CreateAttachment\<close> returns a live attachment of the requested volume
  and instance, stored under its ID and in the caller's scope, and afterwards it is the only
  live attachment of that volume. While the volume has a live attachment for another instance,
  or one that is being deleted, every \<open>CreateAttachment\<close> is refused and changes nothing.
\<close>

theorem create_attachment_exclusive:
  assumes "wf s" and "env_for env s" and "fresh_ids env s" and "generations_le n s" and "n < 2 ^ 64 - 1"
    and "config_ok cfg" and "pRole p = ''controller''"
    and "apply_op cfg env p ''CreateAttachment'' r s = (out, x, s')"
  shows "(x = None \<longrightarrow> (\<exists>a. oAttachment out = Some a \<and> fmlookup (Attachments s') (aID a) = Some a \<and> live a
        \<and> aVolumeID a = rVolumeID r \<and> aInstanceID a = rInstanceID r
        \<and> aTenantID a = pTenantID p \<and> aClusterID a = pClusterID p
        \<and> (\<forall>k b. fmlookup (Attachments s') k = Some b \<longrightarrow> aVolumeID b = rVolumeID r \<longrightarrow> live b \<longrightarrow> k = aID a)))
    \<and> ((\<exists>k b. fmlookup (Attachments s) k = Some b \<and> aVolumeID b = rVolumeID r \<and> live b
          \<and> (aInstanceID b \<noteq> rInstanceID r \<or> aDeleteRequested b)) \<longrightarrow> x \<noteq> None \<and> s' = s)"
proof -
  have run: "create_attachment cfg env p r s = (out, x, s')" using assms(7,8) by (simp add: apply_op_def)
  have wf': "wf s'" by (rule apply_op_wf [OF assms(8,1-5)])
  have "\<exists>a. oAttachment out = Some a \<and> fmlookup (Attachments s') (aID a) = Some a \<and> live a
        \<and> aVolumeID a = rVolumeID r \<and> aInstanceID a = rInstanceID r
        \<and> aTenantID a = pTenantID p \<and> aClusterID a = pClusterID p
        \<and> (\<forall>k b. fmlookup (Attachments s') k = Some b \<longrightarrow> aVolumeID b = rVolumeID r \<longrightarrow> live b \<longrightarrow> k = aID a)"
    if "x = None"
  proof -
    have ok: "create_attachment cfg env p r s = (out, None, s')" using run that by simp
    obtain a where a: "out = respond_attachment a" "fmlookup (Attachments s') (aID a) = Some a" "live a"
        "aVolumeID a = rVolumeID r" "aInstanceID a = rInstanceID r"
        "aTenantID a = pTenantID p" "aClusterID a = pClusterID p"
      using create_attachment_result [OF assms(1,2,6,3) ok] by blast
    show ?thesis
    proof (intro exI [of _ a] conjI allI impI)
      fix k b
      assume b: "fmlookup (Attachments s') k = Some b" "aVolumeID b = rVolumeID r" "live b"
      have "aVolumeID b = aVolumeID a" using b(2) a(4) by simp
      then show "k = aID a" by (rule one_liveD(1) [OF wf' b(1) a(2) b(3) a(3)])
    qed (simp_all add: a)
  qed
  moreover have "x \<noteq> None \<and> s' = s"
    if "\<exists>k b. fmlookup (Attachments s) k = Some b \<and> aVolumeID b = rVolumeID r \<and> live b
          \<and> (aInstanceID b \<noteq> rInstanceID r \<or> aDeleteRequested b)"
  proof -
    have "x \<noteq> None" using that create_attachment_refused [OF assms(1,2) _ _ _ _ assms(6) run] by blast
    with run show ?thesis by (cases rule: create_attachment_cases) simp_all
  qed
  ultimately show ?thesis by blast
qed

theorem create_attachment_exclusive_witness:
  "\<exists>out x s'. apply_op ex_config ex_env (ex_controller ''t1'') ''CreateAttachment''
     (zero_request\<lparr>rVolumeID := ''v1'', rInstanceID := ''vm-b''\<rparr>) ex_platform = (out, x, s')
     \<and> x \<noteq> None \<and> s' = ex_platform"
proof -
  obtain out x s' where run: "apply_op ex_config ex_env (ex_controller ''t1'') ''CreateAttachment''
      (zero_request\<lparr>rVolumeID := ''v1'', rInstanceID := ''vm-b''\<rparr>) ex_platform = (out, x, s')"
    by (metis prod_cases3)
  have room: "generations_le 1 ex_platform" by (simp add: generations_le_def ex_defs)
  have cfg: "config_ok ex_config" and role: "pRole (ex_controller ''t1'') = ''controller''"
    by (simp_all add: config_ok_def ex_defs)
  have "\<exists>k b. fmlookup (Attachments ex_platform) k = Some b \<and> aVolumeID b = ''v1'' \<and> live b
      \<and> (aInstanceID b \<noteq> ''vm-b'' \<or> aDeleteRequested b)"
    by (intro exI [of _ "''a1''"] exI [of _ ex_attachment]) (simp add: live_def ex_defs)
  then have "x \<noteq> None \<and> s' = ex_platform"
    using create_attachment_exclusive [OF ex_platform_wf ex_env_for room _ cfg role run] by simp
  then show ?thesis using run by blast
qed

section \<open>What a node can change\<close>

lemma node_op_changes:
  assumes "node_op cfg p op r s = (out, x, s')"
  obtains
    (same) "s' = s"
  | (uses) i a u where "node_authorised cfg p r s i a"
      "s' = put_attachment (rAttachmentID r) (a\<lparr>aUses := u\<rparr>) s"
      "\<forall>w. w \<noteq> rUseID r \<longrightarrow> fmlookup u w = fmlookup (aUses a) w"
  | (format) i a v where "node_authorised cfg p r s i a" "op = ''MarkInitialized''"
      "fmlookup (Volumes s) (aVolumeID a) = Some v" "fmlookup (aUses a) (rUseID r) = Some True"
      "s' = put_volume (aVolumeID a) (v\<lparr>vAllowFormat := False\<rparr>) s"
  using assms
proof (cases rule: node_op_cases)
  case (released i a a')
  show thesis by (rule uses [OF released(3), of "fmdrop (rUseID r) (aUses a)"]) (simp_all add: released(4,6))
next
  case (acquired i a v a')
  show thesis by (rule uses [OF acquired(3), of "fmupd (rUseID r) True (aUses a)"]) (simp_all add: acquired(7,9))
next
  case (initialised i a v v')
  show thesis by (rule format [OF initialised(3,2) _ initialised(5)])
      (use initialised(4) in \<open>simp_all add: initialised(6,8) healthy_def\<close>)
qed (use same in blast)+

lemma node_authorised_own:
  assumes "node_authorised cfg p r s i a" and "config_ok cfg"
  shows "fmlookup (Attachments s) (rAttachmentID r) = Some a" "aInstanceID a = pInstanceID p"
    "aTenantID a = pTenantID p" "aClusterID a = pClusterID p" "aGeneration a = rGeneration r"
    "instance_active cfg (pInstanceID p)"
  using assms by (auto simp: node_authorised_def engine_instance_None config_ok_def instance_active_def)

text \<open>
  C23: a node is confined to its own mounts. Whatever a node principal sends, no record appears or
  disappears; an attachment may only change in its set of uses, only at the one use ID the
  request names, and only when it belongs to the node's own active instance, in the node's
  tenant and cluster, with the generation presented; a volume may only lose the permission to
  format, and only through \<open>MarkInitialized\<close> under a recorded use of such an attachment.
\<close>

theorem node_confined:
  assumes "pRole p = ''node''" and "config_ok cfg" and "apply_op cfg env p op r s = (out, x, s')"
  shows "fmdom (Attachments s') = fmdom (Attachments s) \<and> fmdom (Volumes s') = fmdom (Volumes s)
    \<and> (\<forall>k a a'. fmlookup (Attachments s) k = Some a \<longrightarrow> fmlookup (Attachments s') k = Some a' \<longrightarrow>
         (\<exists>u. a' = a\<lparr>aUses := u\<rparr>)
         \<and> (a' \<noteq> a \<longrightarrow> k = rAttachmentID r \<and> aInstanceID a = pInstanceID p \<and> aTenantID a = pTenantID p
              \<and> aClusterID a = pClusterID p \<and> aGeneration a = rGeneration r
              \<and> instance_active cfg (pInstanceID p)
              \<and> (\<forall>u. u \<noteq> rUseID r \<longrightarrow> fmlookup (aUses a') u = fmlookup (aUses a) u)))
    \<and> (\<forall>k v v'. fmlookup (Volumes s) k = Some v \<longrightarrow> fmlookup (Volumes s') k = Some v' \<longrightarrow>
         v' = v \<or> v' = v\<lparr>vAllowFormat := False\<rparr> \<and> op = ''MarkInitialized''
           \<and> (\<exists>a. fmlookup (Attachments s) (rAttachmentID r) = Some a \<and> aVolumeID a = k
                \<and> aInstanceID a = pInstanceID p \<and> fmlookup (aUses a) (rUseID r) = Some True))"
proof -
  have "node_op cfg p op r s = (out, x, s')" using assms(1,3) by (simp add: apply_op_def)
  then show ?thesis
  proof (cases rule: node_op_changes)
    case same
    have "\<exists>u. a = a\<lparr>aUses := u\<rparr>" for a :: attachment by (rule exI [of _ "aUses a"]) simp
    then show ?thesis using same by auto
  next
    case (uses i a u)
    note own = node_authorised_own [OF uses(1) assms(2)]
    show ?thesis
    proof (intro conjI allI impI)
      show "fmdom (Attachments s') = fmdom (Attachments s)"
        using fmdomI [OF own(1)] by (simp add: uses(2) finsert_absorb)
    next
      fix k b b'
      assume b: "fmlookup (Attachments s) k = Some b" "fmlookup (Attachments s') k = Some b'"
      then have same: "b' = b" if "k \<noteq> rAttachmentID r" using that by (simp add: uses(2))
      have new: "b = a \<and> b' = a\<lparr>aUses := u\<rparr>" if "k = rAttachmentID r" using that b own(1) by (simp add: uses(2))
      have "b = b\<lparr>aUses := aUses b\<rparr>" by simp
      then show "\<exists>u. b' = b\<lparr>aUses := u\<rparr>" using same new by metis
      assume "b' \<noteq> b"
      then show k: "k = rAttachmentID r" using same by blast
      show "aInstanceID b = pInstanceID p" "aTenantID b = pTenantID p" "aClusterID b = pClusterID p"
        "aGeneration b = rGeneration r" "instance_active cfg (pInstanceID p)"
        using new [OF k] own by simp_all
      show "fmlookup (aUses b') w = fmlookup (aUses b) w" if "w \<noteq> rUseID r" for w
        using new [OF k] uses(3) that by simp
    qed (simp_all add: uses(2))
  next
    case (format i a v)
    note own = node_authorised_own [OF format(1) assms(2)]
    have "\<exists>u. b = b\<lparr>aUses := u\<rparr>" for b :: attachment by (rule exI [of _ "aUses b"]) simp
    then show ?thesis
      using own(1,2) fmdomI [OF format(3)] format(2-4) by (simp add: format(5) finsert_absorb)
  qed
qed

theorem node_confined_witness:
  "\<exists>out x s' a'. apply_op ex_config ex_env (ex_node ''t1'' ''vm-a'') ''ReleaseUse'' (ex_use_request ''u1'') ex_platform
     = (out, x, s') \<and> fmlookup (Attachments s') ''a1'' = Some a' \<and> a' \<noteq> ex_attachment \<and> aState a' = ''ATTACHED''"
proof -
  define a' where "a' = ex_attachment\<lparr>aUses := fmdrop ''u1'' (aUses ex_attachment)\<rparr>"
  define s' where "s' = put_attachment ''a1'' a' ex_platform"
  have run: "apply_op ex_config ex_env (ex_node ''t1'' ''vm-a'') ''ReleaseUse'' (ex_use_request ''u1'') ex_platform
      = (respond_use a' (Some ex_volume), None, s')"
    by (simp add: apply_op_def node_op_def ex_use_request_def Let_def a'_def s'_def)
  have role: "pRole (ex_node ''t1'' ''vm-a'') = ''node''" and cfg: "config_ok ex_config" by simp_all
  have look: "fmlookup (Attachments ex_platform) ''a1'' = Some ex_attachment" "fmlookup (Attachments s') ''a1'' = Some a'"
    by (simp_all add: s'_def)
  have "fmlookup (aUses a') ''u1'' \<noteq> fmlookup (aUses ex_attachment) ''u1''"
    by (simp add: a'_def)
  then have "a' \<noteq> ex_attachment" by auto
  moreover have "\<exists>u. a' = ex_attachment\<lparr>aUses := u\<rparr>"
    using node_confined [OF role cfg run] look by blast
  then have "aState a' = ''ATTACHED''" by (auto simp: ex_attachment_def)
  ultimately show ?thesis using run look by blast
qed

section \<open>The transaction of a call\<close>

text \<open>A database and codecs without failures of their own; only the transaction's function can make a transaction fail.\<close>

definition store_works ::
  "('tx, 'b) bolt \<Rightarrow> ('b, platform) codec \<Rightarrow> ('b, audit_entry) codec \<Rightarrow> (('c, 'tx) tx_fun \<Rightarrow> ('c, 'tx) tx_fun) \<Rightarrow> bool" where
  "store_works B cds cda upd \<longleftrightarrow>
     (\<forall>f c db. upd f c db = (case f c db of (e, c', db') \<Rightarrow> (e, c', if e = None then db' else db)))
     \<and> (\<forall>tx b k v. \<exists>tx'. bucket_put B tx b k v = Inr tx') \<and> (\<forall>tx b. \<exists>seq tx'. next_sequence B tx b = Inr (seq, tx'))
     \<and> (\<forall>x. \<exists>b. marshal cda x = Inr b) \<and> (\<forall>s. \<exists>b. marshal cds s = Inr b)"

lemma store_worksD:
  assumes "store_works B cds cda upd"
  shows "upd f c db = (case f c db of (e, c', db') \<Rightarrow> (e, c', if e = None then db' else db))"
    and "\<exists>tx'. store_Audit B cda now tx x = Inr tx'" and "\<exists>tx'. store_Write B cds tx k s = Inr tx'"
proof -
  from assms have upd: "\<forall>f c db. upd f c db = (case f c db of (e, c', db') \<Rightarrow> (e, c', if e = None then db' else db))"
    and put: "\<And>tx b k v. \<exists>tx'. bucket_put B tx b k v = Inr tx'" and sq: "\<And>tx b. \<exists>seq tx'. next_sequence B tx b = Inr (seq, tx')"
    and enc: "\<And>x. \<exists>b. marshal cda x = Inr b" "\<And>s. \<exists>b. marshal cds s = Inr b"
    unfolding store_works_def by blast+
  show "upd f c db = (case f c db of (e, c', db') \<Rightarrow> (e, c', if e = None then db' else db))"
    by (rule upd [rule_format])
  obtain b seq tx1 where b: "marshal cda x = Inr b" and tx1: "next_sequence B tx ''audit'' = Inr (seq, tx1)"
    using enc(1) sq by metis
  obtain tx2 where "bucket_put B tx1 ''audit'' (audit_key now seq) b = Inr tx2" using put by metis
  with b tx1 show "\<exists>tx'. store_Audit B cda now tx x = Inr tx'" by (simp add: store_Audit_def)
  obtain d where d: "marshal cds s = Inr d" using enc(2) by metis
  obtain tx3 where "bucket_put B tx ''state'' k d = Inr tx3" using put by metis
  with d show "\<exists>tx'. store_Write B cds tx k s = Inr tx'" by (simp add: store_Write_def)
qed

lemma working_call:
  assumes B: "bolt_ok B" and cd: "codec_ok cds zero_platform" and works: "store_works B cds cda upd"
    and run: "Call B cds cda upd cfg env p op r db = ((out, e), db')"
    and s: "platform_read B cds db = Inr s" and ctx: "eCtx env = None"
  shows "\<exists>s'. apply_op cfg env p op r s = (out, e, s')
    \<and> audited B cda (eKeyTime env) (audit_of (eNow env) p op r out e) db db'
    \<and> platform_read B cds db' = Inr (if e = None then s' else s)"
proof -
  obtain out1 e1 s1 where op: "apply_op cfg env p op r s = (out1, e1, s1)" by (metis prod_cases3)
  obtain tx1 where a: "store_Audit B cda (eKeyTime env) db (audit_of (eNow env) p op r out1 e1) = Inr tx1"
    using store_worksD(2) [OF works] by blast
  obtain tx2 where w: "store_Write B cds tx1 ''platform'' s1 = Inr tx2" using store_worksD(3) [OF works] by blast
  define tx where "tx = (if e1 = None then tx2 else tx1)"
  have tx: "call_tx B cds cda cfg env p op r (zero_response, None) db = (None, (out1, e1), tx)"
    using s op a w by (simp add: call_tx_def tx_def)
  have "out = out1 \<and> e = e1 \<and> db' = tx"
    using run ctx by (simp add: Call_def store_worksD(1) [OF works] tx)
  with call_tx_committed [OF B cd tx] s op show ?thesis by auto
qed

text \<open>
  C24: a call is all or nothing, and leaves one audit record. Over any database with the bbolt
  laws, a call whose context is over stores nothing and reports that. Any other call either reports an error and stores nothing
  at all, and then the state could not be read or the database or the encoding can fail; or it runs the operation on
  the stored state, answers with exactly the operation's response and error, and stores one
  audit record of them under a key made of the time and the next sequence number, and the new
  state exactly when the operation was not rejected; no other entry of the database changes. So on a database that works every
  call is audited, the rejected ones too.
\<close>

theorem call_atomic_audited:
  assumes "bolt_ok B" and "codec_ok cds zero_platform" and "atomic_update upd"
    and "Call B cds cda upd cfg env p op r db = ((out, e), db')"
  shows "(eCtx env \<noteq> None \<and> e = eCtx env \<and> db' = db)
    \<or> (eCtx env = None \<and> e \<noteq> None \<and> db' = db
        \<and> ((\<exists>x. platform_read B cds db = Inl x) \<or> \<not> store_works B cds cda upd))
    \<or> (eCtx env = None \<and> (\<exists>s s' seq b tx. platform_read B cds db = Inr s \<and> apply_op cfg env p op r s = (out, e, s')
        \<and> platform_read B cds db' = Inr (if e = None then s' else s)
        \<and> next_sequence B db ''audit'' = Inr (seq, tx)
        \<and> marshal cda (audit_of (eNow env) p op r out e) = Inr b
        \<and> bucket_get B db' ''audit'' (audit_key (eKeyTime env) seq) = Some b
        \<and> (\<forall>bk k. (bk, k) \<noteq> (''audit'', audit_key (eKeyTime env) seq) \<longrightarrow> (bk, k) \<noteq> (''state'', ''platform'') \<longrightarrow>
              bucket_get B db' bk k = bucket_get B db bk k)))"
proof (cases "eCtx env")
  case (Some x)
  then have "e = Some x \<and> db' = db" using assms(4) by (simp add: Call_def)
  then show ?thesis using Some by simp
next
  case None
  consider (stored) s s' where "platform_read B cds db = Inr s" "apply_op cfg env p op r s = (out, e, s')"
      "audited B cda (eKeyTime env) (audit_of (eNow env) p op r out e) db db'"
      "platform_read B cds db' = Inr (if e = None then s' else s)"
    | (broken) "e \<noteq> None" "db' = db" "(\<exists>x. platform_read B cds db = Inl x) \<or> \<not> store_works B cds cda upd"
    using assms
  proof (cases rule: Call_cases)
    case failed
    show thesis
    proof (cases "platform_read B cds db")
      case (Inr s)
      then show thesis
        using working_call [OF assms(1,2) _ assms(4) Inr None] stored [OF Inr] broken failed by blast
    qed (use broken failed in blast)
  qed (rule stored)
  then show ?thesis
  proof cases
    case stored
    obtain seq b tx where audit:
      "next_sequence B db ''audit'' = Inr (seq, tx)" "marshal cda (audit_of (eNow env) p op r out e) = Inr b"
      "bucket_get B db' ''audit'' (audit_key (eKeyTime env) seq) = Some b"
      "\<forall>bk k. (bk, k) \<noteq> (''audit'', audit_key (eKeyTime env) seq) \<longrightarrow> (bk, k) \<noteq> (''state'', ''platform'') \<longrightarrow>
                bucket_get B db' bk k = bucket_get B db bk k"
      using stored(3) unfolding audited_def by (elim exE conjE) (rule that)
    show ?thesis
      by (rule disjI2, rule disjI2, rule conjI, fact None, rule exI [of _ s], rule exI [of _ s'], rule exI [of _ seq],
          rule exI [of _ b], rule exI [of _ tx], intro conjI) (rule stored(1,2,4) audit)+
  next
    case broken
    then show ?thesis using None by simp
  qed
qed

text \<open>A database in memory that holds both kinds of documents.\<close>

definition ex_states :: "(platform + audit_entry, platform) codec" where
  "ex_states = mem_codec Inl (\<lambda>b. case b of Inl s \<Rightarrow> Some s | Inr _ \<Rightarrow> None)"

definition ex_audits :: "(platform + audit_entry, audit_entry) codec" where
  "ex_audits = mem_codec Inr (\<lambda>b. case b of Inl _ \<Rightarrow> None | Inr x \<Rightarrow> Some x)"

definition ex_db :: "platform \<Rightarrow> (platform + audit_entry) mem_db" where
  "ex_db s = mem_empty\<lparr>mem_entries := fmupd (''state'', ''platform'') (Inl s) fmempty\<rparr>"

lemma codec_ok_ex_states: "codec_ok ex_states zero_platform"
  unfolding ex_states_def by (rule codec_ok_mem) simp

lemma platform_read_ex_db [simp]: "platform_read mem_bolt ex_states (ex_db s) = Inr s"
  by (simp add: platform_read_def store_Read_def mem_bolt_def ex_db_def ex_states_def mem_codec_def)

lemma ex_audit_write [simp]: "store_Audit mem_bolt ex_audits now tx x \<noteq> Inl e"
  by (simp add: store_Audit_def mem_bolt_def ex_audits_def mem_codec_def Let_def)

lemma ex_state_write [simp]: "store_Write mem_bolt ex_states tx k s \<noteq> Inl e"
  by (simp add: store_Write_def mem_bolt_def ex_states_def mem_codec_def)

lemma mem_store_works: "store_works mem_bolt ex_states ex_audits mem_update"
  by (simp add: store_works_def mem_update_def mem_bolt_def ex_states_def ex_audits_def mem_codec_def Let_def)

text \<open>A successful release is stored and audited; a call that is rejected is audited too, and changes no state.\<close>

theorem call_atomic_audited_witness:
  "(\<exists>out db'. Call mem_bolt ex_states ex_audits mem_update ex_config ex_env (ex_node ''t1'' ''vm-a'') ''ReleaseUse''
       (ex_use_request ''u1'') (ex_db ex_platform) = ((out, None), db')
     \<and> (\<exists>s. platform_read mem_bolt ex_states db' = Inr s
          \<and> fmlookup (Attachments s) ''a1'' = Some (ex_attachment\<lparr>aUses := fmempty\<rparr>)))
   \<and> (\<exists>out e db' seq. Call mem_bolt ex_states ex_audits mem_update ex_config ex_env (ex_node ''t1'' ''vm-a'') ''DeleteVolume''
       (ex_use_request ''u1'') (ex_db ex_platform) = ((out, Some e), db')
     \<and> platform_read mem_bolt ex_states db' = Inr ex_platform
     \<and> bucket_get mem_bolt db' ''audit'' (audit_key (eKeyTime ex_env) seq)
         = Some (Inr (audit_of (eNow ex_env) (ex_node ''t1'' ''vm-a'') ''DeleteVolume'' (ex_use_request ''u1'') out (Some e))))"
proof -
  let ?call = "\<lambda>op. Call mem_bolt ex_states ex_audits mem_update ex_config ex_env (ex_node ''t1'' ''vm-a'') op
      (ex_use_request ''u1'') (ex_db ex_platform)"
  obtain out e db' where run: "?call ''ReleaseUse'' = ((out, e), db')" by (metis prod.exhaust)
  obtain out2 e2 db2 where run2: "?call ''DeleteVolume'' = ((out2, e2), db2)" by (metis prod.exhaust)
  have op: "apply_op ex_config ex_env (ex_node ''t1'' ''vm-a'') ''ReleaseUse'' (ex_use_request ''u1'') ex_platform
      = (respond_use (ex_attachment\<lparr>aUses := fmempty\<rparr>) (Some ex_volume), None,
         put_attachment ''a1'' (ex_attachment\<lparr>aUses := fmempty\<rparr>) ex_platform)"
    by (simp add: apply_op_def node_op_def ex_use_request_def Let_def)
  have op2: "apply_op ex_config ex_env (ex_node ''t1'' ''vm-a'') ''DeleteVolume'' (ex_use_request ''u1'') ex_platform
      = (zero_response, Err ''PermissionDenied'' ''node identity cannot manage cloud resources'', ex_platform)"
    by (simp add: apply_op_def node_op_def ex_use_request_def Let_def)
  have ctx: "eCtx ex_env = None" by (simp add: ex_env_def)
  have stored: "\<exists>s' seq. apply_op ex_config ex_env (ex_node ''t1'' ''vm-a'') op (ex_use_request ''u1'') ex_platform = (out, e, s')
      \<and> platform_read mem_bolt ex_states db' = Inr (if e = None then s' else ex_platform)
      \<and> bucket_get mem_bolt db' ''audit'' (audit_key (eKeyTime ex_env) seq)
         = Some (Inr (audit_of (eNow ex_env) (ex_node ''t1'' ''vm-a'') op (ex_use_request ''u1'') out e))"
    if run: "?call op = ((out, e), db')" for op out e db'
    using call_atomic_audited [OF bolt_ok_mem codec_ok_ex_states atomic_update_mem run]
  proof (elim disjE conjE exE, goal_cases)
    case 1
    then show ?case using ctx by blast
  next
    case (2 x)
    then show ?case by (simp only: platform_read_ex_db sum.distinct)
  next
    case 3
    then show ?case using mem_store_works by blast
  next
    case (4 s s' seq b tx)
    have s: "s = ex_platform" using 4(2) by (simp only: platform_read_ex_db sum.inject)
    have b: "b = Inr (audit_of (eNow ex_env) (ex_node ''t1'' ''vm-a'') op (ex_use_request ''u1'') out e)"
      using 4(6) by (simp only: ex_audits_def mem_codec_def codec.simps sum.inject)
    show ?case
      by (rule exI [of _ s'], rule exI [of _ seq], intro conjI)
        (fact 4(3) [unfolded s], fact 4(4) [unfolded s], fact 4(7) [unfolded b])
  qed
  obtain s1 where "apply_op ex_config ex_env (ex_node ''t1'' ''vm-a'') ''ReleaseUse'' (ex_use_request ''u1'') ex_platform = (out, e, s1)"
    and s1: "platform_read mem_bolt ex_states db' = Inr (if e = None then s1 else ex_platform)"
    using stored [OF run] by blast
  then have e: "e = None" and "s1 = put_attachment ''a1'' (ex_attachment\<lparr>aUses := fmempty\<rparr>) ex_platform"
    unfolding op by (simp_all only: prod.inject)
  then have "platform_read mem_bolt ex_states db' = Inr (put_attachment ''a1'' (ex_attachment\<lparr>aUses := fmempty\<rparr>) ex_platform)"
    using s1 by (simp only: if_True simp_thms)
  moreover have "fmlookup (Attachments (put_attachment ''a1'' (ex_attachment\<lparr>aUses := fmempty\<rparr>) ex_platform)) ''a1''
      = Some (ex_attachment\<lparr>aUses := fmempty\<rparr>)" by simp
  ultimately have one: "\<exists>out db'. ?call ''ReleaseUse'' = ((out, None), db')
     \<and> (\<exists>s. platform_read mem_bolt ex_states db' = Inr s
          \<and> fmlookup (Attachments s) ''a1'' = Some (ex_attachment\<lparr>aUses := fmempty\<rparr>))"
    using run [unfolded e] by blast
  obtain s2 seq where "apply_op ex_config ex_env (ex_node ''t1'' ''vm-a'') ''DeleteVolume'' (ex_use_request ''u1'') ex_platform = (out2, e2, s2)"
    and s2: "platform_read mem_bolt ex_states db2 = Inr (if e2 = None then s2 else ex_platform)"
    and x2: "bucket_get mem_bolt db2 ''audit'' (audit_key (eKeyTime ex_env) seq)
         = Some (Inr (audit_of (eNow ex_env) (ex_node ''t1'' ''vm-a'') ''DeleteVolume'' (ex_use_request ''u1'') out2 e2))"
    using stored [OF run2] by blast
  then have e2: "e2 = Some (ModelError ''PermissionDenied'' ''node identity cannot manage cloud resources'')"
    unfolding op2 Err_def by (simp only: prod.inject)
  have "platform_read mem_bolt ex_states db2 = Inr ex_platform" using s2 unfolding e2 by (simp only: option.distinct if_False)
  then have "\<exists>out e db' seq. ?call ''DeleteVolume'' = ((out, Some e), db')
     \<and> platform_read mem_bolt ex_states db' = Inr ex_platform
     \<and> bucket_get mem_bolt db' ''audit'' (audit_key (eKeyTime ex_env) seq)
         = Some (Inr (audit_of (eNow ex_env) (ex_node ''t1'' ''vm-a'') ''DeleteVolume'' (ex_use_request ''u1'') out (Some e)))"
    using run2 [unfolded e2] x2 [unfolded e2] by blast
  with one show ?thesis by blast
qed

end
