(* ===== verification/SystemSpec.thy ===== *)
theory SystemSpec
  imports EngineSpec
begin

text \<open>
  What the platform and the cloud guarantee together, over every run of the system, and one
  concrete run: a volume is created, provisioned, attached and taken into use by its node.
\<close>

section \<open>A concrete run\<close>

definition cloud_db :: "disks \<Rightarrow> disks mem_db" where
  "cloud_db m = mem_empty\<lparr>mem_entries := fmupd (''state'', ''disks'') m fmempty\<rparr>"

lemmas mem_cloud_defs = mem_cloud_def fake_provider_def fake_run_def fake_mutate_def update_document_def
  mem_update_def mem_view_def store_Read_def store_Write_def mem_bolt_def mem_codec_def cloud_db_def mem_empty_def

lemma fmupd_twice [simp]: "fmupd k v (fmupd k w m) = fmupd k v m"
  by (rule fmap_ext) simp

lemma mem_cloud_disks_db [simp]: "mem_cloud_disks (cloud_db m) = fmlookup m"
  by (simp add: mem_cloud_disks_def fake_disks_def store_Read_def mem_bolt_def mem_codec_def cloud_db_def)

lemma mem_cloud_eval [simp]:
  "GetVolume mem_cloud None i (cloud_db m) = ((fmlookup m i, None), cloud_db m)"
  "fmlookup m (vID v) = None \<Longrightarrow> EnsureVolume mem_cloud None v (cloud_db m) =
     (let d = zero_disk\<lparr>dID := vID v, dDeviceKey := ''platform-'' @ vID v, dSizeBytes := max 0 (vDesiredSizeBytes v)\<rparr>
      in ((d, None), cloud_db (fmupd (vID v) d m)))"
  "fmlookup m i = Some d \<Longrightarrow> dInstanceID d = '''' \<Longrightarrow> EnsureAttached mem_cloud None i vm att (cloud_db m) =
     (None, cloud_db (fmupd i (d\<lparr>dInstanceID := vm, dAttachmentID := att\<rparr>) m))"
  by (auto simp: mem_cloud_defs fake_GetVolume_def fake_EnsureVolume_def fake_ensure_fn_def fake_attach_fn_def
      zero_disk_def Let_def max_def split: option.splits)

lemma mem_Call:
  assumes s: "platform_read mem_bolt ex_states db = Inr s" and op: "apply_op ex_config env p op r s = (out, None, s')"
    and env: "eCtx env = None"
  shows "\<exists>db'. Call mem_bolt ex_states ex_audits mem_update ex_config env p op r db = ((out, None), db')
    \<and> platform_read mem_bolt ex_states db' = Inr s'"
proof -
  obtain out' e db' where run: "Call mem_bolt ex_states ex_audits mem_update ex_config env p op r db = ((out', e), db')"
    by (metis prod.exhaust)
  have "e = None"
    using run s op env
    by (auto simp: Call_def mem_update_def call_tx_def split: sum.splits prod.splits if_splits)
  with bolt_ok_mem codec_ok_ex_states atomic_update_mem run
  have "out' = out \<and> platform_read mem_bolt ex_states db' = Inr s'"
    using s op by (cases rule: Call_cases) auto
  with run \<open>e = None\<close> show ?thesis by blast
qed

lemma mem_call_step:
  assumes s: "platform_read mem_bolt ex_states db = Inr s" and op: "apply_op ex_config env p op r s = (out, None, s')"
    and env: "env_for env s" "fresh_ids env s" "eCtx env = None"
  shows "\<exists>db'. sys_step mem_bolt ex_states ex_audits mem_cloud (db, cloud) (db', cloud)
    \<and> platform_read mem_bolt ex_states db' = Inr s'"
proof -
  obtain db' where run: "Call mem_bolt ex_states ex_audits mem_update ex_config env p op r db = ((out, None), db')"
    and s': "platform_read mem_bolt ex_states db' = Inr s'"
    using mem_Call [OF s op env(3)] by blast
  moreover have "sys_step mem_bolt ex_states ex_audits mem_cloud (db, cloud) (db', cloud)"
    by (rule sys_step.call [OF atomic_update_mem _ _ run]) (use s env in auto)
  ultimately show ?thesis by blast
qed

lemma mem_reconcile_step:
  assumes s: "platform_read mem_bolt ex_states db = Inr s"
    and run: "reconcile_state mem_cloud ex_config z s cloud = (Some s', cloud')" and keys: "reconcile_for z s"
  shows "\<exists>db'. sys_step mem_bolt ex_states ex_audits mem_cloud (db, cloud) (db', cloud')
    \<and> platform_read mem_bolt ex_states db' = Inr s'
    \<and> Reconcile mem_bolt ex_states mem_update mem_cloud ex_config z cloud db = (None, (cloud', False), db')"
proof -
  obtain e c' b db' where rec: "Reconcile mem_bolt ex_states mem_update mem_cloud ex_config z cloud db = (e, (c', b), db')"
    by (metis prod.exhaust)
  then have "e = None \<and> c' = cloud' \<and> \<not> b"
    using s run by (auto simp: Reconcile_def mem_update_def reconcile_tx_def split: sum.splits prod.splits if_splits)
  moreover from bolt_ok_mem codec_ok_ex_states atomic_update_mem rec this
  have "platform_read mem_bolt ex_states db' = Inr s'"
    using s run by (cases rule: Reconcile_cases) auto
  moreover have "sys_step mem_bolt ex_states ex_audits mem_cloud (db, cloud) (db', c')"
    by (rule sys_step.reconcile [OF atomic_update_mem _ rec]) (use s keys in auto)
  ultimately show ?thesis using rec by auto
qed

definition run_env :: "8 word list \<Rightarrow> string list \<Rightarrow> string list \<Rightarrow> call_env" where
  "run_env rnd vs as = \<lparr>eCtx = None, eNow = ''2024-01-01T00:00:00Z'', eKeyTime = ''2024-01-01T00:00:00Z'', eRandom = rnd, eVolumes = vs, eAttachments = as\<rparr>"

definition run_keys :: "string list \<Rightarrow> string list \<Rightarrow> reconcile_env" where
  "run_keys vs as = \<lparr>zVolumes = vs, zAttachments = as, zVolumeCtx = (\<lambda>_ _. None), zAttachmentCtx = (\<lambda>_ _. None)\<rparr>"

definition run_request :: request where
  "run_request = zero_request\<lparr>rName := ''pvc-1'', rType := ''standard'', rRegion := ''r1'', rZone := ''z1'',
     rMode := ''mount'', rFSType := ''ext4'', rSizeBytes := 10, rVolumeID := ''volume-01'', rInstanceID := ''vm-a'',
     rAttachmentID := ''attachment-02'', rGeneration := 1, rUseID := ''u1''\<rparr>"

definition run_volume :: volume where
  "run_volume = new_volume ''volume-01'' (ex_controller ''t1'') run_request"

definition run_available :: volume where
  "run_available = run_volume\<lparr>vSizeBytes := 10, vDeviceKey := ''platform-volume-01'', vState := ''AVAILABLE''\<rparr>"

definition run_disk :: disk where
  "run_disk = zero_disk\<lparr>dID := ''volume-01'', dDeviceKey := ''platform-volume-01'', dSizeBytes := 10\<rparr>"

definition run_attachment :: attachment where
  "run_attachment = new_attachment ''attachment-02'' (run_available\<lparr>vGeneration := 1\<rparr>) (ex_instance ''vm-a'' ''t1'')"

definition run_mounted :: attachment where
  "run_mounted = run_attachment\<lparr>aState := ''ATTACHED'', aUses := fmupd ''u1'' True fmempty\<rparr>"

definition run_state :: "volume \<Rightarrow> attachment option \<Rightarrow> platform" where
  "run_state v oa = \<lparr>Volumes = fmupd ''volume-01'' v fmempty,
     Attachments = (case oa of None \<Rightarrow> fmempty | Some a \<Rightarrow> fmupd ''attachment-02'' a fmempty)\<rparr>"

lemmas run_defs = run_env_def run_keys_def run_request_def run_volume_def run_available_def run_disk_def
  run_attachment_def run_mounted_def run_state_def new_volume_def new_attachment_def zero_disk_def

lemma run_ids [simp]:
  "newID ''volume-'' [1] = ''volume-01''" "newID ''attachment-'' [2] = ''attachment-02''"
  by (simp_all add: newID_def hex_encode_def hex_digit_def hex_digits_def)

lemma run_create_volume:
  "apply_op ex_config (run_env [1] [] []) (ex_controller ''t1'') ''CreateVolume'' run_request zero_platform
     = (respond_volume run_volume, None, run_state run_volume None)"
proof -
  have "valid_create ex_config run_request" "valid_capability run_request"
    by (simp_all add: valid_create_def valid_capability_def run_request_def ex_defs)
  then show ?thesis
    by (simp add: apply_op_def create_volume_def Let_def run_volume_def run_env_def run_state_def zero_platform_def)
qed

lemma run_provision:
  "reconcile_state mem_cloud ex_config (run_keys [''volume-01''] []) (run_state run_volume None) (cloud_db fmempty)
     = (Some (run_state run_available None), cloud_db (fmupd ''volume-01'' run_disk fmempty))"
  by (simp add: reconcile_state_def reconcile_volume_def observe_volume_def Let_def run_defs zero_volume_def
      ex_controller_def zero_request_def)

lemma run_create_attachment:
  "apply_op ex_config (run_env [2] [''volume-01''] []) (ex_controller ''t1'') ''CreateAttachment'' run_request
      (run_state run_available None)
     = (respond_attachment run_attachment, None, run_state (run_available\<lparr>vGeneration := 1\<rparr>) (Some run_attachment))"
  by (simp add: apply_op_def create_attachment_def engine_instance_def Let_def run_defs ex_defs)

lemma run_attach:
  "reconcile_state mem_cloud ex_config (run_keys [''volume-01''] [''attachment-02''])
      (run_state (run_available\<lparr>vGeneration := 1\<rparr>) (Some run_attachment)) (cloud_db (fmupd ''volume-01'' run_disk fmempty))
     = (Some (run_state (run_available\<lparr>vGeneration := 1\<rparr>) (Some (run_attachment\<lparr>aState := ''ATTACHED''\<rparr>))),
        cloud_db (fmupd ''volume-01'' (run_disk\<lparr>dInstanceID := ''vm-a'', dAttachmentID := ''attachment-02''\<rparr>) fmempty))"
  by (simp add: reconcile_state_def reconcile_volume_def observe_volume_def reconcile_attachment_def Let_def run_defs
      ex_defs)

lemma run_acquire:
  "apply_op ex_config (run_env [3] [''volume-01''] [''attachment-02'']) (ex_node ''t1'' ''vm-a'') ''AcquireUse'' run_request
      (run_state (run_available\<lparr>vGeneration := 1\<rparr>) (Some (run_attachment\<lparr>aState := ''ATTACHED''\<rparr>)))
     = (respond_use run_mounted (Some (run_available\<lparr>vGeneration := 1\<rparr>)), None,
        run_state (run_available\<lparr>vGeneration := 1\<rparr>) (Some run_mounted))"
  by (simp add: apply_op_def node_op_def Let_def run_defs ex_defs engine_instance_def)

definition run_start :: "(platform + audit_entry) mem_db \<times> disks mem_db" where
  "run_start = (mem_empty, cloud_db fmempty)"

abbreviation run_final :: platform where
  "run_final \<equiv> run_state (run_available\<lparr>vGeneration := 1\<rparr>) (Some run_mounted)"

abbreviation run_cloud :: "disks mem_db" where
  "run_cloud \<equiv> cloud_db (fmupd ''volume-01'' (run_disk\<lparr>dInstanceID := ''vm-a'', dAttachmentID := ''attachment-02''\<rparr>) fmempty)"

lemma run_init: "sys_init mem_bolt ex_states mem_cloud_disks run_start"
  by (simp add: sys_init_def run_start_def platform_read_def store_Read_def mem_bolt_def mem_empty_def)

lemma run_envs:
  "env_for (run_env rnd [] []) zero_platform" "fresh_ids (run_env rnd vs as) zero_platform"
  "env_for (run_env rnd [''volume-01''] []) (run_state v None)"
  "env_for (run_env rnd [''volume-01''] [''attachment-02'']) (run_state v (Some a))"
  "reconcile_for (run_keys [''volume-01''] []) (run_state v None)"
  "reconcile_for (run_keys [''volume-01''] [''attachment-02'']) (run_state v (Some a))"
  "fresh_ids (run_env [2] vs as) (run_state v None)" "fresh_ids (run_env [3] vs as) (run_state v (Some a))"
  by (simp_all add: env_for_def reconcile_for_def run_env_def run_keys_def run_state_def zero_platform_def
      fresh_ids_def newID_def hex_encode_def hex_digit_def hex_digits_def)

lemma few: "(5 :: nat) \<le> 2 ^ 64 - 1"
  by simp

lemma run_steps:
  "\<exists>db. (sys_step mem_bolt ex_states ex_audits mem_cloud ^^ 5) run_start (db, run_cloud)
     \<and> platform_read mem_bolt ex_states db = Inr run_final"
proof -
  let ?step = "sys_step mem_bolt ex_states ex_audits mem_cloud"
  have ctx: "eCtx (run_env rnd vs as) = None" for rnd vs as by (simp add: run_env_def)
  have r0: "platform_read mem_bolt ex_states mem_empty = Inr zero_platform"
    using run_init by (simp add: sys_init_def run_start_def)
  from mem_call_step [OF r0 run_create_volume run_envs(1,2) ctx] obtain db1 where
    s1: "?step run_start (db1, cloud_db fmempty)" and
    r1: "platform_read mem_bolt ex_states db1 = Inr (run_state run_volume None)"
    unfolding run_start_def by blast
  from mem_reconcile_step [OF r1 run_provision run_envs(5)] obtain db2 where
    s2: "?step (db1, cloud_db fmempty) (db2, cloud_db (fmupd ''volume-01'' run_disk fmempty))" and
    r2: "platform_read mem_bolt ex_states db2 = Inr (run_state run_available None)" by blast
  from mem_call_step [OF r2 run_create_attachment run_envs(3,7) ctx] obtain db3 where
    s3: "?step (db2, cloud_db (fmupd ''volume-01'' run_disk fmempty)) (db3, cloud_db (fmupd ''volume-01'' run_disk fmempty))" and
    r3: "platform_read mem_bolt ex_states db3 = Inr (run_state (run_available\<lparr>vGeneration := 1\<rparr>) (Some run_attachment))"
    by blast
  from mem_reconcile_step [OF r3 run_attach run_envs(6)] obtain db4 where
    s4: "?step (db3, cloud_db (fmupd ''volume-01'' run_disk fmempty)) (db4, run_cloud)" and
    r4: "platform_read mem_bolt ex_states db4
      = Inr (run_state (run_available\<lparr>vGeneration := 1\<rparr>) (Some (run_attachment\<lparr>aState := ''ATTACHED''\<rparr>)))" by blast
  from mem_call_step [OF r4 run_acquire run_envs(4,8) ctx] obtain db5 where
    s5: "?step (db4, run_cloud) (db5, run_cloud)" and r5: "platform_read mem_bolt ex_states db5 = Inr run_final"
    by blast
  have "(?step ^^ 5) run_start (db5, run_cloud)"
    using s1 s2 s3 s4 s5 by (simp add: eval_nat_numeral relcompp.simps OO_def) blast
  with r5 show ?thesis by blast
qed

section \<open>Single writer, end to end\<close>

text \<open>
  C2: one writer from the mount to the cloud. In every state the system can reach, by any
  interleaving of calls and reconcile runs, with transactions failing anywhere and provider
  answers lost, over any provider that keeps the contract: an attachment that has a durable use
  holds its disk in the cloud, for its own instance; two attachments of one volume never both
  have uses; and a disk attached in the cloud belongs to the one live attachment of its volume.
\<close>

theorem single_writer_end_to_end:
  assumes "storage_provider P disks_of" and "bolt_ok B" and "codec_ok cds zero_platform"
    and "sys_init B cds disks_of c0" and "(sys_step B cds cda P ^^ n) c0 (db, cloud)" and "n \<le> 2 ^ 64 - 1"
  shows "\<exists>s. platform_read B cds db = Inr s
    \<and> (\<forall>k a. fmlookup (Attachments s) k = Some a \<longrightarrow> aUses a \<noteq> fmempty \<longrightarrow>
         (\<exists>d. disks_of cloud (aVolumeID a) = Some d \<and> dInstanceID d = aInstanceID a \<and> dAttachmentID d = k))
    \<and> (\<forall>k a k' a'. fmlookup (Attachments s) k = Some a \<longrightarrow> fmlookup (Attachments s) k' = Some a' \<longrightarrow>
         aUses a \<noteq> fmempty \<longrightarrow> aUses a' \<noteq> fmempty \<longrightarrow> aVolumeID a = aVolumeID a' \<longrightarrow> k = k')
    \<and> (\<forall>k d. disks_of cloud k = Some d \<longrightarrow> dInstanceID d \<noteq> '''' \<longrightarrow>
         (\<exists>a. fmlookup (Attachments s) (dAttachmentID d) = Some a \<and> aVolumeID a = k
            \<and> aInstanceID a = dInstanceID d \<and> live a
            \<and> (\<forall>k' b. fmlookup (Attachments s) k' = Some b \<longrightarrow> aVolumeID b = k \<longrightarrow> live b \<longrightarrow> k' = dAttachmentID d)))"
proof -
  obtain s where s: "platform_read B cds db = Inr s" and ok: "sys_ok s (disks_of cloud)"
    using storage_provider.sys_run_inv [OF assms(1-3,5) sys_init_inv [OF assms(4)]] assms(6)
    by (auto simp: sys_inv_def)
  note wf = sys_okD(1) [OF ok]
  have held: "\<exists>d. disks_of cloud (aVolumeID a) = Some d \<and> dInstanceID d = aInstanceID a \<and> dAttachmentID d = k"
    if "fmlookup (Attachments s) k = Some a" "aUses a \<noteq> fmempty" for k a
    using use_attachedD [OF sys_okD(4) [OF ok] that(1)] that wf_attachmentD(1) [OF wf that(1)]
    by (auto simp: attached_to_def)
  have one: "k = k'" if "fmlookup (Attachments s) k = Some a" "fmlookup (Attachments s) k' = Some a'"
      "aUses a \<noteq> fmempty" "aUses a' \<noteq> fmempty" "aVolumeID a = aVolumeID a'" for k a k' a'
    using held [OF that(1,3)] held [OF that(2,4)] that(5) by auto
  have holder: "\<exists>a. fmlookup (Attachments s) (dAttachmentID d) = Some a \<and> aVolumeID a = k
            \<and> aInstanceID a = dInstanceID d \<and> live a
            \<and> (\<forall>k' b. fmlookup (Attachments s) k' = Some b \<longrightarrow> aVolumeID b = k \<longrightarrow> live b \<longrightarrow> k' = dAttachmentID d)"
    if d: "disks_of cloud k = Some d" "dInstanceID d \<noteq> ''''" for k d
  proof -
    obtain a where a: "fmlookup (Attachments s) (dAttachmentID d) = Some a" "aVolumeID a = k"
        "aInstanceID a = dInstanceID d" "live a"
      using holder_liveD [OF sys_okD(3) [OF ok] d] by blast
    have "k' = dAttachmentID d" if "fmlookup (Attachments s) k' = Some b" "aVolumeID b = k" "live b" for k' b
      using one_liveD(1) [OF wf that(1) a(1) that(3) a(4)] that(2) a(2) by simp
    then show ?thesis using a by blast
  qed
  show ?thesis using s held one holder by blast
qed

theorem single_writer_end_to_end_witness:
  "\<exists>db d. (sys_step mem_bolt ex_states ex_audits mem_cloud ^^ 5) run_start (db, run_cloud)
     \<and> mem_cloud_disks run_cloud ''volume-01'' = Some d \<and> dInstanceID d = ''vm-a''"
proof -
  obtain db where run: "(sys_step mem_bolt ex_states ex_audits mem_cloud ^^ 5) run_start (db, run_cloud)"
    and read: "platform_read mem_bolt ex_states db = Inr run_final" using run_steps by blast
  have mounted: "fmlookup (Attachments run_final) ''attachment-02'' = Some run_mounted" "aUses run_mounted \<noteq> fmempty"
      "aVolumeID run_mounted = ''volume-01''" "aInstanceID run_mounted = ''vm-a''"
    by (simp_all add: run_defs ex_instance_def)
  from single_writer_end_to_end [OF mem_fake.storage_provider_axioms bolt_ok_mem codec_ok_ex_states run_init run few]
  obtain s where s: "platform_read mem_bolt ex_states db = Inr s" and held: "\<forall>k a. fmlookup (Attachments s) k = Some a \<longrightarrow>
      aUses a \<noteq> fmempty \<longrightarrow> (\<exists>d. mem_cloud_disks run_cloud (aVolumeID a) = Some d
        \<and> dInstanceID d = aInstanceID a \<and> dAttachmentID d = k)"
    by (elim exE conjE) (rule that)
  have "s = run_final" using s read by simp
  with held mounted(1,2) obtain d where "mem_cloud_disks run_cloud (aVolumeID run_mounted) = Some d"
      "dInstanceID d = aInstanceID run_mounted" by blast
  then show ?thesis using run mounted(3,4) by auto
qed

text \<open>
  C6: recorded data stays in the cloud. In every reachable state a volume that is available or
  being resized has its disk in the cloud, with the recorded device key and at least the
  recorded size, and a volume recorded as deleted has none; lost answers and rolled back
  transactions included.
\<close>

theorem recorded_volumes_backed:
  assumes "storage_provider P disks_of" and "bolt_ok B" and "codec_ok cds zero_platform"
    and "sys_init B cds disks_of c0" and "(sys_step B cds cda P ^^ n) c0 (db, cloud)" and "n \<le> 2 ^ 64 - 1"
  shows "\<exists>s. platform_read B cds db = Inr s
    \<and> (\<forall>k v. fmlookup (Volumes s) k = Some v \<longrightarrow> vState v \<in> {''AVAILABLE'', ''RESIZING''} \<longrightarrow>
         (\<exists>d. disks_of cloud k = Some d \<and> dDeviceKey d = vDeviceKey v \<and> vSizeBytes v \<le> dSizeBytes d))
    \<and> (\<forall>k v. fmlookup (Volumes s) k = Some v \<longrightarrow> vState v = ''AVAILABLE'' \<longrightarrow> vDesiredSizeBytes v \<le> vSizeBytes v)
    \<and> (\<forall>k v. fmlookup (Volumes s) k = Some v \<longrightarrow> vState v = ''DELETED'' \<longrightarrow> disks_of cloud k = None)"
proof -
  obtain s where s: "platform_read B cds db = Inr s" and ok: "sys_ok s (disks_of cloud)"
    using storage_provider.sys_run_inv [OF assms(1-3,5) sys_init_inv [OF assms(4)]] assms(6)
    by (auto simp: sys_inv_def)
  have "\<exists>d. disks_of cloud k = Some d \<and> dDeviceKey d = vDeviceKey v \<and> vSizeBytes v \<le> dSizeBytes d"
    if "fmlookup (Volumes s) k = Some v" "vState v \<in> {''AVAILABLE'', ''RESIZING''}" for k v
    using backedD [OF sys_okD(6) [OF ok] that] by auto
  moreover have "vDesiredSizeBytes v \<le> vSizeBytes v"
    if "fmlookup (Volumes s) k = Some v" "vState v = ''AVAILABLE''" for k v
    using wf_volumeD(2) [OF sys_okD(1) [OF ok] that(1)] that(2) by (simp add: wf_volume_def)
  moreover have "disks_of cloud k = None" if "fmlookup (Volumes s) k = Some v" "vState v = ''DELETED''" for k v
    using sys_okD(5) [OF ok] that unfolding deleted_gone_def by blast
  ultimately show ?thesis using s by blast
qed

theorem recorded_volumes_backed_witness:
  "\<exists>db d. (sys_step mem_bolt ex_states ex_audits mem_cloud ^^ 5) run_start (db, run_cloud)
     \<and> mem_cloud_disks run_cloud ''volume-01'' = Some d \<and> dDeviceKey d = ''platform-volume-01''"
proof -
  obtain db where run: "(sys_step mem_bolt ex_states ex_audits mem_cloud ^^ 5) run_start (db, run_cloud)"
    and read: "platform_read mem_bolt ex_states db = Inr run_final" using run_steps by blast
  have v: "fmlookup (Volumes run_final) ''volume-01'' = Some (run_available\<lparr>vGeneration := 1\<rparr>)"
      "vState (run_available\<lparr>vGeneration := 1\<rparr>) \<in> {''AVAILABLE'', ''RESIZING''}"
      "vDeviceKey (run_available\<lparr>vGeneration := 1\<rparr>) = ''platform-volume-01''"
    by (simp_all add: run_defs)
  from recorded_volumes_backed [OF mem_fake.storage_provider_axioms bolt_ok_mem codec_ok_ex_states run_init run few]
  obtain s where s: "platform_read mem_bolt ex_states db = Inr s" and held: "\<forall>k v. fmlookup (Volumes s) k = Some v \<longrightarrow>
      vState v \<in> {''AVAILABLE'', ''RESIZING''} \<longrightarrow> (\<exists>d. mem_cloud_disks run_cloud k = Some d
        \<and> dDeviceKey d = vDeviceKey v \<and> vSizeBytes v \<le> dSizeBytes d)"
    by (elim exE conjE) (rule that)
  have "s = run_final" using s read by simp
  with held v(1,2) obtain d where "mem_cloud_disks run_cloud ''volume-01'' = Some d"
      "dDeviceKey d = vDeviceKey (run_available\<lparr>vGeneration := 1\<rparr>)" by blast
  then show ?thesis using run v(3) by auto
qed

section \<open>The records of every reachable state\<close>

text \<open>
  C19: what the records can be. In every state the system reaches within the range of the generation counters, each
  volume sits under its own ID, has one of five states, is marked for deletion exactly when it is deleting or
  deleted, has sizes between one byte and \<open>2 ^ 50\<close>, a valid name and one of the three capabilities, and an available one has at least
  the desired size; each attachment sits under its own ID, has one of four states, is marked for deletion
  exactly when it is detaching or detached, has uses only between the two, and belongs to a volume of the same
  tenant and cluster with a positive generation not beyond the volume's, equal to it while it is live.
\<close>

theorem reachable_records:
  assumes "storage_provider P disks_of" and "bolt_ok B" and "codec_ok cds zero_platform"
    and "sys_init B cds disks_of c0" and "(sys_step B cds cda P ^^ n) c0 c" and "n \<le> 2 ^ 64 - 1"
  shows "\<exists>s. platform_read B cds (fst c) = Inr s
    \<and> (\<forall>k v. fmlookup (Volumes s) k = Some v \<longrightarrow> vID v = k
        \<and> vState v \<in> {''CREATING'', ''AVAILABLE'', ''RESIZING'', ''DELETING'', ''DELETED''}
        \<and> (vDeleteRequested v \<longleftrightarrow> vState v \<in> {''DELETING'', ''DELETED''})
        \<and> 0 < vInitialSizeBytes v \<and> vInitialSizeBytes v \<le> vDesiredSizeBytes v \<and> vDesiredSizeBytes v \<le> 2 ^ 50
        \<and> (vState v = ''AVAILABLE'' \<longrightarrow> vDesiredSizeBytes v \<le> vSizeBytes v) \<and> ValidID (vName v)
        \<and> (vMode v = ''mount'' \<and> vFSType v \<in> {''ext4'', ''xfs''} \<or> vMode v = ''block'' \<and> vFSType v = ''''))
    \<and> (\<forall>k a. fmlookup (Attachments s) k = Some a \<longrightarrow> aID a = k \<and> k \<noteq> ''''
        \<and> aState a \<in> {''ATTACHING'', ''ATTACHED'', ''DETACHING'', ''DETACHED''}
        \<and> (aDeleteRequested a \<longleftrightarrow> aState a \<in> {''DETACHING'', ''DETACHED''})
        \<and> (aUses a \<noteq> fmempty \<longrightarrow> aState a \<in> {''ATTACHED'', ''DETACHING''})
        \<and> (\<exists>v. fmlookup (Volumes s) (aVolumeID a) = Some v \<and> aTenantID a = vTenantID v \<and> aClusterID a = vClusterID v
             \<and> 0 < aGeneration a \<and> aGeneration a \<le> vGeneration v \<and> (live a \<longrightarrow> aGeneration a = vGeneration v)))"
proof -
  obtain s where s: "sys_inv B cds disks_of (0 + n) c s"
    using storage_provider.sys_run_inv [OF assms(1-3,5) sys_init_inv [OF assms(4)]] assms(6) by auto
  then have read: "platform_read B cds (fst c) = Inr s" and wf: "wf s" by (simp_all add: sys_inv_def sys_ok_def)
  have vol: "vID v = k \<and> wf_volume v" if "fmlookup (Volumes s) k = Some v" for k v
    using wf_volumeD [OF wf that] by simp
  have att: "aID a = k \<and> k \<noteq> '''' \<and> wf_attachment a
      \<and> (\<exists>v. fmlookup (Volumes s) (aVolumeID a) = Some v \<and> belongs a v)" if "fmlookup (Attachments s) k = Some a" for k a
    using wf_attachmentD [OF wf that] by blast
  show ?thesis
    using read vol att unfolding wf_volume_def wf_attachment_def belongs_def word_neq_0_conv
    by (intro exI [of _ s] conjI allI impI) blast+
qed

theorem reachable_records_witness:
  "\<exists>db s. (sys_step mem_bolt ex_states ex_audits mem_cloud ^^ 5) run_start (db, run_cloud)
     \<and> platform_read mem_bolt ex_states db = Inr s
     \<and> (\<exists>v. fmlookup (Volumes s) ''volume-01'' = Some v \<and> vID v = ''volume-01'' \<and> 0 < vInitialSizeBytes v)"
proof -
  obtain db where run: "(sys_step mem_bolt ex_states ex_audits mem_cloud ^^ 5) run_start (db, run_cloud)"
    and final: "platform_read mem_bolt ex_states db = Inr run_final"
    using run_steps by blast
  obtain s where s: "platform_read mem_bolt ex_states db = Inr s"
    and v: "\<forall>k v. fmlookup (Volumes s) k = Some v \<longrightarrow> vID v = k \<and> 0 < vInitialSizeBytes v"
    using reachable_records [OF mem_fake.storage_provider_axioms bolt_ok_mem codec_ok_ex_states run_init run few]
    by (metis fst_conv)
  have "s = run_final" using s final by simp
  then have "fmlookup (Volumes s) ''volume-01'' = Some (run_available\<lparr>vGeneration := 1\<rparr>)"
    by (simp add: run_state_def)
  with run s v show ?thesis by blast
qed

end
