(* ===== verification/Converge.thy ===== *)
theory Converge
  imports System
begin

text \<open>
  Progress of the reconciler. When the provider answers (\<open>reliable_provider\<close>), one run settles
  every record whose goal is reachable: each volume is available or deleted, each attachment
  attached or detached, unless it still drains or its instance is inactive.
\<close>

section \<open>Settled records\<close>

definition settled_volume :: "volume \<Rightarrow> bool" where
  "settled_volume v \<longleftrightarrow>
     (if vDeleteRequested v then vState v = ''DELETED''
      else vState v = ''AVAILABLE'' \<and> vLastError v = '''' \<and> vDesiredSizeBytes v \<le> vSizeBytes v)"

definition settled_attachment :: "config \<Rightarrow> attachment \<Rightarrow> bool" where
  "settled_attachment cfg a \<longleftrightarrow>
     (if aDeleteRequested a then aState a = (if aUses a = fmempty then ''DETACHED'' else ''DETACHING'')
      else if instance_active cfg (aInstanceID a) then aState a = ''ATTACHED'' \<and> aLastError a = ''''
      else aState a \<in> {''ATTACHING'', ''ATTACHED''} \<and> aLastError a = ''instance inactive: fencing required'')"

section \<open>Each key is visited once\<close>

lemma reconcile_volumes_others:
  "reconcile_volumes P z ks s p = (s', p') \<Longrightarrow> k \<notin> set ks \<Longrightarrow> fmlookup (Volumes s') k = fmlookup (Volumes s) k"
proof (induction ks arbitrary: s p)
  case Nil
  then show ?case by simp
next
  case (Cons j ks)
  show ?case
  proof (cases "fmlookup (Volumes s) j")
    case None
    then show ?thesis using Cons by simp
  next
    case (Some v)
    obtain v' q where "reconcile_volume P (zVolumeCtx z j) (zAttachments z) s v p = (v', q)" by fastforce
    then have "reconcile_volumes P z ks (put_volume j v' s) q = (s', p')" using Cons.prems(1) Some by simp
    then show ?thesis using Cons.IH Cons.prems(2) by simp
  qed
qed

lemma reconcile_volumes_each:
  assumes "reconcile_volumes P z ks s p = (s', p')" and "distinct ks" and "I s p"
    and "\<And>k s p v v' p'. I s p \<Longrightarrow> fmlookup (Volumes s) k = Some v \<Longrightarrow>
      reconcile_volume P (zVolumeCtx z k) (zAttachments z) s v p = (v', p') \<Longrightarrow> I (put_volume k v' s) p' \<and> Q v'"
  shows "I s' p' \<and> (\<forall>k v. k \<in> set ks \<longrightarrow> fmlookup (Volumes s') k = Some v \<longrightarrow> Q v)"
  using assms
proof (induction ks arbitrary: s p)
  case Nil
  then show ?case by simp
next
  case (Cons j ks)
  show ?case
  proof (cases "fmlookup (Volumes s) j")
    case None
    then have run: "reconcile_volumes P z ks s p = (s', p')" using Cons.prems(1) by simp
    have "fmlookup (Volumes s') j = None"
      using reconcile_volumes_others [OF run] Cons.prems(2) None by simp
    then show ?thesis using Cons.IH [OF run] Cons.prems(2-4) by auto
  next
    case (Some v)
    obtain v' q where step: "reconcile_volume P (zVolumeCtx z j) (zAttachments z) s v p = (v', q)" by fastforce
    then have run: "reconcile_volumes P z ks (put_volume j v' s) q = (s', p')" using Cons.prems(1) Some by simp
    have one: "I (put_volume j v' s) q \<and> Q v'" using Cons.prems(4) [OF Cons.prems(3) Some step] .
    have "fmlookup (Volumes s') j = Some v'"
      using reconcile_volumes_others [OF run] Cons.prems(2) by simp
    moreover have "I s' p' \<and> (\<forall>k v. k \<in> set ks \<longrightarrow> fmlookup (Volumes s') k = Some v \<longrightarrow> Q v)"
      using one Cons.prems(2) by (intro Cons.IH [OF run _ _ Cons.prems(4)]) auto
    ultimately show ?thesis using one by auto
  qed
qed

lemma reconcile_attachments_others:
  "reconcile_attachments P cfg z ks s p = (Some s', p') \<Longrightarrow> k \<notin> set ks \<Longrightarrow>
     fmlookup (Attachments s') k = fmlookup (Attachments s) k"
proof (induction ks arbitrary: s p)
  case Nil
  then show ?case by simp
next
  case (Cons j ks)
  show ?case
  proof (cases "fmlookup (Attachments s) j")
    case None
    then show ?thesis using Cons by simp
  next
    case (Some a)
    obtain oa q where step: "reconcile_attachment P cfg (zAttachmentCtx z j) s a p = (oa, q)" by fastforce
    with Cons.prems(1) Some obtain a' where "oa = Some a'" by (cases oa) auto
    then have "reconcile_attachments P cfg z ks (put_attachment j a' s) q = (Some s', p')"
      using Cons.prems(1) Some step by simp
    then show ?thesis using Cons.IH Cons.prems(2) by simp
  qed
qed

lemma reconcile_attachments_each:
  assumes "reconcile_attachments P cfg z ks s p = (Some s', p')" and "distinct ks" and "I s p"
    and "\<And>k s p a a' p'. I s p \<Longrightarrow> fmlookup (Attachments s) k = Some a \<Longrightarrow>
      reconcile_attachment P cfg (zAttachmentCtx z k) s a p = (Some a', p') \<Longrightarrow> I (put_attachment k a' s) p' \<and> Q a'"
  shows "I s' p' \<and> (\<forall>k a. k \<in> set ks \<longrightarrow> fmlookup (Attachments s') k = Some a \<longrightarrow> Q a)"
  using assms
proof (induction ks arbitrary: s p)
  case Nil
  then show ?case by simp
next
  case (Cons j ks)
  show ?case
  proof (cases "fmlookup (Attachments s) j")
    case None
    then have run: "reconcile_attachments P cfg z ks s p = (Some s', p')" using Cons.prems(1) by simp
    have "fmlookup (Attachments s') j = None"
      using reconcile_attachments_others [OF run] Cons.prems(2) None by simp
    then show ?thesis using Cons.IH [OF run] Cons.prems(2-4) by auto
  next
    case (Some a)
    obtain oa q where step: "reconcile_attachment P cfg (zAttachmentCtx z j) s a p = (oa, q)" by fastforce
    with Cons.prems(1) Some obtain a' where oa: "oa = Some a'" by (cases oa) auto
    then have run: "reconcile_attachments P cfg z ks (put_attachment j a' s) q = (Some s', p')"
      using Cons.prems(1) Some step by simp
    have one: "I (put_attachment j a' s) q \<and> Q a'"
      using Cons.prems(4) [OF Cons.prems(3) Some] step oa by simp
    have "fmlookup (Attachments s') j = Some a'"
      using reconcile_attachments_others [OF run] Cons.prems(2) by simp
    moreover have "I s' p' \<and> (\<forall>k a. k \<in> set ks \<longrightarrow> fmlookup (Attachments s') k = Some a \<longrightarrow> Q a)"
      using one Cons.prems(2) by (intro Cons.IH [OF run _ _ Cons.prems(4)]) auto
    ultimately show ?thesis using one by auto
  qed
qed

section \<open>Each visit settles\<close>

lemma idle_disk_free:
  assumes ok: "sys_ok s D" and v: "fmlookup (Volumes s) k = Some v" "vDeleteRequested v" and d: "D k = Some d"
  shows "dInstanceID d = ''''"
proof (rule ccontr)
  assume "dInstanceID d \<noteq> ''''"
  then obtain a where a: "fmlookup (Attachments s) (dAttachmentID d) = Some a" "aVolumeID a = k" "live a"
    using holder_liveD [OF sys_okD(3) [OF ok] d] by blast
  then show False using deleted_idleD [OF sys_okD(1) [OF ok] _ v(2) a(1)] v(1) by simp
qed

lemma live_disk:
  assumes ok: "sys_ok s D" and a: "fmlookup (Attachments s) k = Some a" "live a"
  shows "\<exists>v d. fmlookup (Volumes s) (aVolumeID a) = Some v \<and> \<not> vDeleteRequested v \<and> D (aVolumeID a) = Some d
    \<and> (dInstanceID d = '''' \<or> attached_to d (aInstanceID a) (aID a))"
proof -
  note wf = sys_okD(1) [OF ok]
  obtain v where v: "fmlookup (Volumes s) (aVolumeID a) = Some v" "belongs a v"
    using wf_attachmentD(4) [OF wf a(1)] by blast
  have nd: "\<not> vDeleteRequested v" using deleted_idleD [OF wf v(1) _ a(1)] a(2) by blast
  then have "vState v \<in> {''AVAILABLE'', ''RESIZING''}"
    using wf_volumeD(2) [OF wf v(1)] v(2) by (auto simp: wf_volume_def belongs_def)
  then obtain d where d: "D (aVolumeID a) = Some d" using backedD [OF sys_okD(6) [OF ok] v(1)] by blast
  have "attached_to d (aInstanceID a) (aID a)" if held: "dInstanceID d \<noteq> ''''"
  proof -
    obtain b where b: "fmlookup (Attachments s) (dAttachmentID d) = Some b" "aVolumeID b = aVolumeID a"
        "aInstanceID b = dInstanceID d" "live b"
      using holder_liveD [OF sys_okD(3) [OF ok] d held] by blast
    then have "b = a" using one_liveD(2) [OF wf b(1) a(1) b(4) a(2)] by simp
    then show ?thesis using b wf_attachmentD(1) [OF wf b(1)] by (simp add: attached_to_def)
  qed
  then show ?thesis using v nd d by blast
qed

context reliable_provider
begin

lemma observe_up: "up p \<Longrightarrow> \<exists>d p'. observe_volume P (\<lambda>_. None) v x p = ((d, None), p') \<and> up p'"
  using up_ensure by (auto simp: observe_volume_def split: option.split)

lemma volume_settles:
  assumes ok: "sys_ok s (disks_of p)" and v: "fmlookup (Volumes s) k = Some v" and up: "up p"
    and keys: "enumerates aks (Attachments s)"
    and step: "reconcile_volume P (\<lambda>_. None) aks s v p = (v', p')"
  shows "up p' \<and> settled_volume v'"
proof -
  note wf = sys_okD(1) [OF ok]
  have k: "vID v = k" and wv: "wf_volume v" using wf_volumeD [OF wf v] by auto
  have idle: "\<not> busy s k" if "vDeleteRequested v"
    using deleted_idleD [OF wf _ that] v unfolding busy_def by blast
  have stock: "\<exists>d. disks_of p k = Some d \<and> vDeviceKey v = dDeviceKey d"
    if "\<not> vDeleteRequested v" "vState v \<noteq> ''CREATING''"
    using backedD [OF sys_okD(6) [OF ok] v] wv that by (auto simp: wf_volume_def)
  have get: "\<exists>x p1. GetVolume P None (vID v) p = ((x, None), p1) \<and> up p1" by (rule up_get [OF up])
  from step show ?thesis
  proof (cases rule: reconcile_volume_cases)
    case settled
    then show ?thesis using up wv by (auto simp: settled_volume_def wf_volume_def)
  next
    case busy
    then show ?thesis using idle active_busy [OF keys] k by simp
  next
    case removed
    have "\<exists>p'. DeleteVolume P None (vID v) p = (None, p') \<and> up p'"
      using idle_disk_free [OF ok v removed(2)] k by (intro up_delete [OF up]) simp
    then show ?thesis using removed by (auto simp: settled_volume_def)
  next
    case (kept e)
    have "\<exists>p'. DeleteVolume P None (vID v) p = (None, p') \<and> up p'"
      using idle_disk_free [OF ok v kept(2)] k by (intro up_delete [OF up]) simp
    then show ?thesis using kept(4) by simp
  next
    case (unseen x e)
    then show ?thesis using get by simp
  next
    case missing
    then show ?thesis using get_volume [OF missing(4)] stock k by auto
  next
    case (failed x p1 d e)
    then have "up p1" using get by auto
    then show ?thesis using observe_up [of p1 "cleared v" x] failed(5) by simp
  next
    case (changed x p1 d)
    have "vState v \<noteq> ''CREATING''" using wv changed(6) by (auto simp: wf_volume_def)
    then obtain d0 where "disks_of p k = Some d0" "vDeviceKey v = dDeviceKey d0" using stock changed(2) by blast
    then show ?thesis using observed(2) [OF changed(3,5)] changed(7) k by (auto simp: grown_disk_def)
  next
    case (ensured x p1 d)
    then have "up p1" using get by auto
    then have "up p'" using observe_up [of p1 "cleared v" x] ensured(5) by simp
    then show ?thesis using ensured(2,7) observed_size(1) [OF ensured(3,5)] by (simp add: settled_volume_def)
  qed
qed

lemma attachment_settles:
  assumes ok: "sys_ok s (disks_of p)" and a: "fmlookup (Attachments s) k = Some a" and up: "up p"
    and vols: "\<And>j v. fmlookup (Volumes s) j = Some v \<Longrightarrow> settled_volume v"
    and step: "reconcile_attachment P cfg (\<lambda>_. None) s a p = (Some a', p')"
  shows "up p' \<and> settled_attachment cfg a'"
proof -
  note wf = sys_okD(1) [OF ok]
  have wa: "wf_attachment a" by (rule wf_attachmentD(3) [OF wf a])
  have get: "\<exists>x p1. GetVolume P None (aVolumeID a) p = ((x, None), p1) \<and> up p1" by (rule up_get [OF up])
  have disk: "\<exists>v d. fmlookup (Volumes s) (aVolumeID a) = Some v \<and> vLastError v = '''' \<and> disks_of p (aVolumeID a) = Some d
      \<and> (dInstanceID d = '''' \<or> attached_to d (aInstanceID a) (aID a))" if "live a"
    using live_disk [OF ok a that] vols by (auto simp: settled_volume_def)
  have attach: "\<exists>p2. EnsureAttached P None (aVolumeID a) (aInstanceID a) (aID a) p1 = (None, p2) \<and> up p2"
    if "live a" "GetVolume P None (aVolumeID a) p = ((x, None), p1)" for x p1
    using disk [OF that(1)] get that(2) get_volume [OF that(2)] up_attach [of p1] by auto
  have detach: "\<exists>p'. EnsureDetached P None (aVolumeID a) (aInstanceID a) (aID a) p = (None, p') \<and> up p'"
    if "live a" using disk [OF that] by (intro up_detach [OF up]) auto
  from step show ?thesis
  proof (cases rule: reconcile_attachment_cases)
    case settled
    then show ?thesis using up wa by (auto simp: settled_attachment_def wf_attachment_def live_def)
  next
    case draining
    then show ?thesis using up wa by (auto simp: settled_attachment_def wf_attachment_def live_def)
  next
    case detached
    then show ?thesis using detach by (auto simp: settled_attachment_def)
  next
    case (held e)
    then show ?thesis using detach by simp
  next
    case fenced
    then show ?thesis using up wa by (auto simp: settled_attachment_def wf_attachment_def live_def)
  next
    case (unseen d e)
    then show ?thesis using get by simp
  next
    case (drift d)
    have "d = disks_of p (aVolumeID a)" using get_volume [OF drift(4)] by simp
    then show ?thesis using use_attachedD [OF sys_okD(4) [OF ok] a] drift(5,7) by (auto simp: drifted_def)
  next
    case (panic d)
    then show ?thesis by simp
  next
    case (waiting d v)
    then show ?thesis using disk by auto
  next
    case (attached d v p1)
    then show ?thesis using attach [OF attached(1,4)] by (auto simp: settled_attachment_def)
  next
    case (refused d v p1 e)
    then show ?thesis using attach [OF refused(1,4)] by simp
  qed
qed

lemma reconcile_state_settles:
  assumes run: "reconcile_state P cfg z s0 p0 = (Some s', p')" and ok: "sys_ok s0 (disks_of p0)" and up: "up p0"
    and keys: "reconcile_for z s0" and ctx: "zVolumeCtx z = (\<lambda>_ _. None)" "zAttachmentCtx z = (\<lambda>_ _. None)"
  shows "(\<forall>k v. fmlookup (Volumes s') k = Some v \<longrightarrow> settled_volume v)
    \<and> (\<forall>k a. fmlookup (Attachments s') k = Some a \<longrightarrow> settled_attachment cfg a) \<and> up p'"
proof -
  obtain s1 p1 where vrun: "reconcile_volumes P z (zVolumes z) s0 p0 = (s1, p1)" by fastforce
  then have arun: "reconcile_attachments P cfg z (zAttachments z) s1 p1 = (Some s', p')"
    using run by (simp add: reconcile_state_def)
  have vkeys: "distinct (zVolumes z)" "\<And>k v. fmlookup (Volumes s0) k = Some v \<Longrightarrow> k \<in> set (zVolumes z)"
    using keys by (auto simp: reconcile_for_def enumerates_distinct enumerates_dom)
  have akeys: "distinct (zAttachments z)" "\<And>k a. fmlookup (Attachments s0) k = Some a \<Longrightarrow> k \<in> set (zAttachments z)"
    using keys by (auto simp: reconcile_for_def enumerates_distinct enumerates_dom)
  note one = reconcile_volumes_run [OF vrun sys_okD(1) [OF ok] keys, of cfg]
  define I where "I = (\<lambda>s p. sys_ok s (disks_of p) \<and> up p \<and> Attachments s = Attachments s0)"
  have visited: "I s1 p1 \<and> (\<forall>k v. k \<in> set (zVolumes z) \<longrightarrow> fmlookup (Volumes s1) k = Some v \<longrightarrow> settled_volume v)"
  proof (rule reconcile_volumes_each [OF vrun vkeys(1)])
    show "I s0 p0" using ok up by (simp add: I_def)
  next
    fix k s p v v' p'
    assume I: "I s p" and v: "fmlookup (Volumes s) k = Some v"
      and step: "reconcile_volume P (zVolumeCtx z k) (zAttachments z) s v p = (v', p')"
    have aks: "enumerates (zAttachments z) (Attachments s)" using keys I by (simp add: reconcile_for_def I_def)
    note step' = step [unfolded ctx]
    show "I (put_volume k v' s) p' \<and> settled_volume v'"
      using volume_settles [OF _ v _ aks step'] reconcile_volume_ok(2) [OF _ v aks step'] I by (simp add: I_def)
  qed
  then have s1: "sys_ok s1 (disks_of p1)" "up p1" by (simp_all add: I_def)
  have set1: "settled_volume v" if "fmlookup (Volumes s1) k = Some v" for k v
    using that visited one vkeys(2) progressed_volumeD by blast
  define J where "J = (\<lambda>s p. sys_ok s (disks_of p) \<and> up p \<and> Volumes s = Volumes s1)"
  have ended: "J s' p' \<and> (\<forall>k a. k \<in> set (zAttachments z) \<longrightarrow> fmlookup (Attachments s') k = Some a \<longrightarrow> settled_attachment cfg a)"
  proof (rule reconcile_attachments_each [OF arun akeys(1)])
    show "J s1 p1" using s1 by (simp add: J_def)
  next
    fix k s p a a' p'
    assume J: "J s p" and a: "fmlookup (Attachments s) k = Some a"
      and step: "reconcile_attachment P cfg (zAttachmentCtx z k) s a p = (Some a', p')"
    note step' = step [unfolded ctx]
    show "J (put_attachment k a' s) p' \<and> settled_attachment cfg a'"
      using attachment_settles [OF _ a _ _ step'] reconcile_attachment_ok [OF _ a step'] set1 J by (simp add: J_def)
  qed
  have "progressed s0 s'"
    using reconcile_state_run [OF run sys_okD(1) [OF ok] keys] by auto
  then have known: "k \<in> set (zAttachments z)" if "fmlookup (Attachments s') k = Some a" for k a
    using that progressed_attachmentD akeys(2) by blast
  show ?thesis
  proof (intro conjI allI impI)
    show "settled_volume v" if "fmlookup (Volumes s') k = Some v" for k v
      using that ended set1 by (simp add: J_def)
    show "settled_attachment cfg a" if "fmlookup (Attachments s') k = Some a" for k a
      using that ended known [OF that] by blast
    show "up p'" using ended by (simp add: J_def)
  qed
qed

end

end
