(* ===== verification/ReconcileSpec.thy ===== *)
theory ReconcileSpec
  imports SystemSpec Converge
begin

text \<open>
  What reconcile runs do to disks and attachments: the only reasons a disk appears, disappears
  or changes, the barrier a durable use puts before detaching, the direction every record
  moves in, and convergence.
\<close>

section \<open>Disks\<close>

text \<open>How the disk under one key compares with the disk before the run.\<close>

definition disk_change :: "platform \<Rightarrow> string \<Rightarrow> disk option \<Rightarrow> disk option \<Rightarrow> bool" where
  "disk_change s k od od' \<longleftrightarrow>
     (case od of
        Some d \<Rightarrow>
          (case od' of
             Some d' \<Rightarrow> dSizeBytes d \<le> dSizeBytes d' \<and> dDeviceKey d' = dDeviceKey d
                \<and> (\<not> busy s k \<longrightarrow> dInstanceID d' = dInstanceID d)
           | None \<Rightarrow> \<not> busy s k \<and> dInstanceID d = ''''
                \<and> (\<exists>v. fmlookup (Volumes s) k = Some v \<and> vDeleteRequested v))
      | None \<Rightarrow>
          (case od' of
             Some d' \<Rightarrow> \<exists>v. fmlookup (Volumes s) k = Some v \<and> vState v = ''CREATING'' \<and> \<not> vDeleteRequested v
           | None \<Rightarrow> True))"

lemma disk_change_refl [simp]: "disk_change s k od od"
  by (simp add: disk_change_def split: option.split)

lemma disk_change_grow:
  assumes "disk_change s k od (Some d0)" and "dSizeBytes d0 \<le> dSizeBytes d" and "dDeviceKey d = dDeviceKey d0"
    and "busy s k \<or> dInstanceID d = dInstanceID d0"
  shows "disk_change s k od (Some d)"
  using assms by (auto simp: disk_change_def split: option.splits)

lemma volume_effect_change:
  assumes wf: "wf s" and v: "fmlookup (Volumes s) j = Some v" and eff: "volume_effect v (busy s (vID v)) D D'"
    and before: "disk_change s k od (D k)"
  shows "disk_change s k od (D' k)"
proof (cases "k = vID v")
  case True
  have j: "fmlookup (Volumes s) k = Some v" using wf_volumeD(1) [OF wf v] v True by simp
  from eff show ?thesis
  proof (cases rule: volume_effect_cases)
    case removed
    then show ?thesis using before j True by (auto simp: disk_change_def split: option.splits)
  next
    case (created d)
    then show ?thesis using before j True by (auto simp: disk_change_def split: option.splits)
  next
    case (grown d0 d)
    have "disk_change s k od (Some d0)" using before grown(2) True by simp
    from disk_change_grow [OF this grown(4,5)] show ?thesis using grown(3,6) True by simp
  qed (use before in simp)
next
  case False
  from eff show ?thesis
    by (cases rule: volume_effect_cases) (use before False in auto)
qed

lemma attachment_effect_change:
  assumes a: "fmlookup (Attachments s) j = Some a" and eff: "attachment_effect cfg a D D'"
    and before: "disk_change s k od (D k)"
  shows "disk_change s k od (D' k)"
proof -
  consider "D' = D"
    | d d' where "live a" "D (aVolumeID a) = Some d" "D' = D(aVolumeID a \<mapsto> d')" "dSizeBytes d' = dSizeBytes d"
        "dDeviceKey d' = dDeviceKey d"
    using eff unfolding attachment_effect_def by fastforce
  then show ?thesis
  proof cases
    case 1
    then show ?thesis using before by simp
  next
    case (2 d d')
    have "busy s (aVolumeID a)" using a 2(1) by (auto simp: busy_def)
    then show ?thesis using disk_change_grow [of s k od d d'] before 2 by (cases "k = aVolumeID a") auto
  qed
qed

lemma cloud_effects_change:
  assumes "(cloud_effect cfg s)\<^sup>*\<^sup>* D D'" and wf: "wf s"
  shows "disk_change s k (D k) (D' k)"
  using assms(1)
proof (induction rule: rtranclp_induct)
  case (step D1 D2)
  then show ?case
    unfolding cloud_effect_def using volume_effect_change [OF wf] attachment_effect_change by blast
qed simp

lemma Reconcile_effects:
  assumes "storage_provider P disks_of" and "bolt_ok B" and "codec_ok cds zero_platform" and "atomic_update upd"
    and "platform_read B cds db = Inr s" and "wf s" and "reconcile_for z s"
    and "Reconcile B cds upd P cfg z cloud db = (e, (cloud', panicked), db')"
  shows "(cloud_effect cfg s)\<^sup>*\<^sup>* (disks_of cloud) (disks_of cloud') \<and> \<not> panicked
    \<and> (\<exists>s'. platform_read B cds db' = Inr s' \<and> wf s' \<and> progressed s s' \<and> (e \<noteq> None \<longrightarrow> s' = s))"
  using assms(2-4,8)
proof (cases rule: Reconcile_cases)
  case not_begun
  then show ?thesis using assms(5,6) by auto
next
  case (rolled_back s1 os)
  then have "s1 = s" using assms(5) by simp
  with storage_provider.reconcile_state_run [OF assms(1) rolled_back(4)] assms(6,7)
  show ?thesis using rolled_back assms(5) by fastforce
next
  case (committed s1 s')
  then have "s1 = s" using assms(5) by simp
  with storage_provider.reconcile_state_run [OF assms(1) committed(4)] assms(6,7)
  show ?thesis using committed by fastforce
qed

text \<open>
  C5: why a disk appears, changes or disappears. One reconcile run, committed or rolled back, on
  any well-formed state and any provider that keeps the contract, never panics. A disk it
  removes belongs to a volume whose deletion was requested, which has no live attachment, and
  is not attached; a disk that appears belongs to a volume still being created (a missing disk
  of any other volume is never recreated); a disk that stays keeps its device key and does not
  shrink; the state it leaves is well-formed.
\<close>

theorem reconcile_disk_changes:
  assumes "storage_provider P disks_of" and "bolt_ok B" and "codec_ok cds zero_platform" and "atomic_update upd"
    and "platform_read B cds db = Inr s" and "wf s" and "reconcile_for z s"
    and "Reconcile B cds upd P cfg z cloud db = (e, (cloud', panicked), db')"
  shows "\<not> panicked \<and> (\<exists>s'. platform_read B cds db' = Inr s' \<and> wf s' \<and> (e \<noteq> None \<longrightarrow> s' = s))
    \<and> (\<forall>k d. disks_of cloud k = Some d \<longrightarrow> disks_of cloud' k = None \<longrightarrow> dInstanceID d = ''''
         \<and> (\<exists>v. fmlookup (Volumes s) k = Some v \<and> vDeleteRequested v)
         \<and> (\<forall>j a. fmlookup (Attachments s) j = Some a \<longrightarrow> aVolumeID a = k \<longrightarrow> \<not> live a))
    \<and> (\<forall>k d'. disks_of cloud k = None \<longrightarrow> disks_of cloud' k = Some d' \<longrightarrow>
         (\<exists>v. fmlookup (Volumes s) k = Some v \<and> vState v = ''CREATING'' \<and> \<not> vDeleteRequested v))
    \<and> (\<forall>k d d'. disks_of cloud k = Some d \<longrightarrow> disks_of cloud' k = Some d' \<longrightarrow>
         dSizeBytes d \<le> dSizeBytes d' \<and> dDeviceKey d' = dDeviceKey d)"
proof -
  note run = Reconcile_effects [OF assms]
  have change: "disk_change s k (disks_of cloud k) (disks_of cloud' k)" for k
    by (rule cloud_effects_change [OF run [THEN conjunct1] assms(6)])
  have gone: "dInstanceID d = '''' \<and> (\<exists>v. fmlookup (Volumes s) k = Some v \<and> vDeleteRequested v)
         \<and> (\<forall>j a. fmlookup (Attachments s) j = Some a \<longrightarrow> aVolumeID a = k \<longrightarrow> \<not> live a)"
    if "disks_of cloud k = Some d" "disks_of cloud' k = None" for k d
    using change [of k] that unfolding disk_change_def busy_def by simp
  have new: "\<exists>v. fmlookup (Volumes s) k = Some v \<and> vState v = ''CREATING'' \<and> \<not> vDeleteRequested v"
    if "disks_of cloud k = None" "disks_of cloud' k = Some d'" for k d'
    using change [of k] that unfolding disk_change_def by simp
  have kept: "dSizeBytes d \<le> dSizeBytes d' \<and> dDeviceKey d' = dDeviceKey d"
    if "disks_of cloud k = Some d" "disks_of cloud' k = Some d'" for k d d'
    using change [of k] that unfolding disk_change_def by simp
  show ?thesis using run gone new kept by blast
qed

lemma run_state_wf: "wf (run_state run_volume None)"
proof -
  have "fresh_ids (run_env [1] [] []) zero_platform" by (rule run_envs)
  moreover have "generations_le 1 zero_platform" by (simp add: generations_le_def zero_platform_def)
  ultimately show ?thesis
    using apply_op_wf [OF run_create_volume wf_empty run_envs(1)] by simp
qed

theorem reconcile_disk_changes_witness:
  "\<exists>db db'. platform_read mem_bolt ex_states db = Inr (run_state run_volume None)
     \<and> Reconcile mem_bolt ex_states mem_update mem_cloud ex_config (run_keys [''volume-01''] []) (cloud_db fmempty) db
         = (None, (cloud_db (fmupd ''volume-01'' run_disk fmempty), False), db')
     \<and> (\<exists>v. fmlookup (Volumes (run_state run_volume None)) ''volume-01'' = Some v \<and> vState v = ''CREATING'')"
proof -
  let ?db = "ex_db (run_state run_volume None)"
  obtain db' where run: "Reconcile mem_bolt ex_states mem_update mem_cloud ex_config (run_keys [''volume-01''] [])
      (cloud_db fmempty) ?db = (None, (cloud_db (fmupd ''volume-01'' run_disk fmempty), False), db')"
    using mem_reconcile_step [OF platform_read_ex_db run_provision run_envs(5)] by blast
  have "mem_cloud_disks (cloud_db fmempty) ''volume-01'' = None"
    "mem_cloud_disks (cloud_db (fmupd ''volume-01'' run_disk fmempty)) ''volume-01'' = Some run_disk"
    by simp_all
  with reconcile_disk_changes [OF mem_fake.storage_provider_axioms bolt_ok_mem codec_ok_ex_states atomic_update_mem
      platform_read_ex_db run_state_wf run_envs(5) run]
  have "\<exists>v. fmlookup (Volumes (run_state run_volume None)) ''volume-01'' = Some v \<and> vState v = ''CREATING''"
    by blast
  then show ?thesis using run platform_read_ex_db by blast
qed

section \<open>The drain barrier\<close>

lemma cloud_effect_attached:
  assumes eff: "cloud_effect cfg s D D'" and wf: "wf s" and a: "fmlookup (Attachments s) k = Some a"
    and use: "aUses a \<noteq> fmempty" "aInstanceID a \<noteq> ''''"
    and d: "\<exists>d. D (aVolumeID a) = Some d \<and> attached_to d (aInstanceID a) k"
  shows "\<exists>d. D' (aVolumeID a) = Some d \<and> attached_to d (aInstanceID a) k"
proof -
  obtain d where d: "D (aVolumeID a) = Some d" "attached_to d (aInstanceID a) k" using d by blast
  have k: "aID a = k" by (rule wf_attachmentD(1) [OF wf a])
  from eff consider j v where "fmlookup (Volumes s) j = Some v" "volume_effect v (busy s (vID v)) D D'"
    | j b where "fmlookup (Attachments s) j = Some b" "attachment_effect cfg b D D'"
    unfolding cloud_effect_def by blast
  then show ?thesis
  proof cases
    case (1 j v)
    from 1(2) show ?thesis
      by (cases rule: volume_effect_cases) (use d use(2) in \<open>auto simp: attached_to_def\<close>)
  next
    case (2 j b)
    have j: "aID b = j" by (rule wf_attachmentD(1) [OF wf 2(1)])
    have same: "b = a" if "aID b = k" using that 2(1) a j by simp
    from 2(2) consider "D' = D"
      | d0 where "aUses b = fmempty" "D (aVolumeID b) = Some d0" "attached_to d0 (aInstanceID b) (aID b)"
          "D' = D(aVolumeID b \<mapsto> d0\<lparr>dInstanceID := '''', dAttachmentID := ''''\<rparr>)"
      | d0 where "D (aVolumeID b) = Some d0" "dInstanceID d0 = '''' \<or> attached_to d0 (aInstanceID b) (aID b)"
          "D' = D(aVolumeID b \<mapsto> d0\<lparr>dInstanceID := aInstanceID b, dAttachmentID := aID b\<rparr>)"
      unfolding attachment_effect_def by blast
    then show ?thesis
    proof cases
      case 1
      then show ?thesis using d by simp
    next
      case (2 d0)
      have "aVolumeID b \<noteq> aVolumeID a"
      proof
        assume "aVolumeID b = aVolumeID a"
        then have "aID b = k" using 2(2,3) d by (simp add: attached_to_def)
        then show False using same use(1) 2(1) by simp
      qed
      then show ?thesis using d by (simp add: 2(4))
    next
      case (3 d0)
      have "b = a" if "aVolumeID b = aVolumeID a"
      proof (rule same)
        show "aID b = k" using that 3(1,2) d use(2) by (simp add: attached_to_def)
      qed
      then show ?thesis using d k by (cases "aVolumeID b = aVolumeID a") (simp_all add: 3(3) attached_to_def)
    qed
  qed
qed

text \<open>
  C7: a durable use is a barrier to detaching. While an attachment has a use recorded and its
  disk is attached for it, no reconcile run detaches the disk, moves it to another instance or
  deletes it, committed or rolled back, whatever the provider answers; the attachment keeps its
  uses and stays live, also when its deletion has been requested.
\<close>

theorem use_blocks_detach:
  assumes "storage_provider P disks_of" and "bolt_ok B" and "codec_ok cds zero_platform" and "atomic_update upd"
    and "platform_read B cds db = Inr s" and "wf s" and "reconcile_for z s"
    and "Reconcile B cds upd P cfg z cloud db = (e, (cloud', panicked), db')"
    and "fmlookup (Attachments s) k = Some a" and "aUses a \<noteq> fmempty" and "aInstanceID a \<noteq> ''''"
    and "disks_of cloud (aVolumeID a) = Some d" and "attached_to d (aInstanceID a) k"
  shows "(\<exists>d'. disks_of cloud' (aVolumeID a) = Some d' \<and> attached_to d' (aInstanceID a) k)
    \<and> (\<exists>s' a'. platform_read B cds db' = Inr s' \<and> fmlookup (Attachments s') k = Some a'
         \<and> aUses a' = aUses a \<and> live a' \<and> aInstanceID a' = aInstanceID a \<and> aVolumeID a' = aVolumeID a)"
proof -
  note run = Reconcile_effects [OF assms(1-8)]
  have "\<exists>d'. disks_of cloud' (aVolumeID a) = Some d' \<and> attached_to d' (aInstanceID a) k"
    using run [THEN conjunct1]
    by (induction rule: rtranclp_induct)
      (use assms(12,13) cloud_effect_attached [OF _ assms(6,9-11)] in blast)+
  moreover obtain s' where s': "platform_read B cds db' = Inr s'" "wf s'" "progressed s s'" using run by blast
  obtain a' where a': "fmlookup (Attachments s') k = Some a'" "reconciled_attachment a a'"
    using s'(3) fmrel_left assms(9) unfolding progressed_def by meson
  have "live a'"
    using live_uses [OF wf_attachmentD(3) [OF s'(2) a'(1)]] a'(2) assms(10) by (simp add: reconciled_attachment_def)
  ultimately show ?thesis
    using s'(1) a' by (auto simp: reconciled_attachment_def attachment_evolves_def)
qed

definition run_draining :: attachment where
  "run_draining = run_mounted\<lparr>aDeleteRequested := True, aState := ''DETACHING''\<rparr>"

lemma run_draining_wf: "wf (run_state (run_available\<lparr>vGeneration := 1\<rparr>) (Some run_draining))"
  by (simp add: wf_def keys_ok_def one_live_def one_generation_def one_name_def deleted_idle_def
      wf_volume_def wf_attachment_def belongs_def live_def run_draining_def run_defs ex_defs)

theorem use_blocks_detach_witness:
  "\<exists>e cloud' db' d'. Reconcile mem_bolt ex_states mem_update mem_cloud ex_config (run_keys [''volume-01''] [''attachment-02''])
       run_cloud (ex_db (run_state (run_available\<lparr>vGeneration := 1\<rparr>) (Some run_draining))) = (e, (cloud', False), db')
     \<and> aDeleteRequested run_draining \<and> mem_cloud_disks cloud' ''volume-01'' = Some d' \<and> dInstanceID d' = ''vm-a''"
proof -
  let ?s = "run_state (run_available\<lparr>vGeneration := 1\<rparr>) (Some run_draining)"
  let ?z = "run_keys [''volume-01''] [''attachment-02'']"
  obtain e cloud' panicked db' where run: "Reconcile mem_bolt ex_states mem_update mem_cloud ex_config ?z
      run_cloud (ex_db ?s) = (e, (cloud', panicked), db')" by (metis prod.exhaust)
  note laws = mem_fake.storage_provider_axioms bolt_ok_mem codec_ok_ex_states atomic_update_mem
      platform_read_ex_db run_draining_wf run_envs(6) run
  have a: "fmlookup (Attachments ?s) ''attachment-02'' = Some run_draining" "aUses run_draining \<noteq> fmempty"
      "aInstanceID run_draining \<noteq> ''''" "aDeleteRequested run_draining"
      "aVolumeID run_draining = ''volume-01''" "aInstanceID run_draining = ''vm-a''"
    by (simp_all add: run_draining_def run_defs ex_instance_def)
  have d: "mem_cloud_disks run_cloud (aVolumeID run_draining)
      = Some (run_disk\<lparr>dInstanceID := ''vm-a'', dAttachmentID := ''attachment-02''\<rparr>)"
    using a(5) by simp
  have att: "attached_to (run_disk\<lparr>dInstanceID := ''vm-a'', dAttachmentID := ''attachment-02''\<rparr>)
      (aInstanceID run_draining) ''attachment-02''"
    using a(6) by (simp add: attached_to_def)
  note barrier = use_blocks_detach [OF laws, OF a(1), OF a(2), OF a(3), OF d, OF att]
  obtain d' where "mem_cloud_disks cloud' (aVolumeID run_draining) = Some d'"
      "attached_to d' (aInstanceID run_draining) ''attachment-02''"
    using barrier by (elim conjE exE) (rule that)
  moreover have "\<not> panicked" using Reconcile_effects [OF laws] by blast
  ultimately show ?thesis using run a(4-6) by (auto simp: attached_to_def)
qed

section \<open>The direction of time\<close>

text \<open>
  C20: records only move forward. Between any two moments of a run of the system: an attachment
  is never removed or rebound to another volume, instance or generation, and its phase
  (attaching, attached, detaching, detached) never goes back; a volume keeps its name, owner,
  topology and capability, its generation and desired size never decrease, a withdrawn
  permission to format is never given back, a deletion request is never dropped, a deleted
  volume stays deleted, and a device key once learned never changes.
\<close>

theorem lifecycle_monotone:
  assumes "storage_provider P disks_of" and "bolt_ok B" and "codec_ok cds zero_platform"
    and "sys_init B cds disks_of c0" and "(sys_step B cds cda P ^^ n) c0 c1" and "(sys_step B cds cda P ^^ m) c1 c2"
    and "n + m \<le> 2 ^ 64 - 1"
  shows "\<exists>s1 s2. platform_read B cds (fst c1) = Inr s1 \<and> platform_read B cds (fst c2) = Inr s2
    \<and> (\<forall>k a. fmlookup (Attachments s1) k = Some a \<longrightarrow>
         (\<exists>a'. fmlookup (Attachments s2) k = Some a' \<and> aVolumeID a' = aVolumeID a \<and> aInstanceID a' = aInstanceID a
            \<and> aGeneration a' = aGeneration a \<and> phase_of a \<le> phase_of a'))
    \<and> (\<forall>k v. fmlookup (Volumes s1) k = Some v \<longrightarrow>
         (\<exists>v'. fmlookup (Volumes s2) k = Some v' \<and> vTenantID v' = vTenantID v \<and> vClusterID v' = vClusterID v
            \<and> vName v' = vName v \<and> vRegion v' = vRegion v \<and> vZone v' = vZone v \<and> vMode v' = vMode v \<and> vFSType v' = vFSType v
            \<and> vGeneration v \<le> vGeneration v' \<and> vDesiredSizeBytes v \<le> vDesiredSizeBytes v'
            \<and> (vAllowFormat v' \<longrightarrow> vAllowFormat v) \<and> (vDeleteRequested v \<longrightarrow> vDeleteRequested v')
            \<and> (vState v = ''DELETED'' \<longrightarrow> vState v' = ''DELETED'')
            \<and> (vDeviceKey v \<noteq> '''' \<longrightarrow> vDeviceKey v' = vDeviceKey v)))"
proof -
  obtain s1 where s1: "sys_inv B cds disks_of (0 + n) c1 s1"
    using storage_provider.sys_run_inv [OF assms(1-3,5) sys_init_inv [OF assms(4)]] assms(7) by auto
  then obtain s2 where s2: "sys_inv B cds disks_of (0 + n + m) c2 s2" and ev: "evolves s1 s2"
    using storage_provider.sys_run_inv [OF assms(1-3,6) s1] assms(7) by auto
  have "\<exists>a'. fmlookup (Attachments s2) k = Some a' \<and> aVolumeID a' = aVolumeID a \<and> aInstanceID a' = aInstanceID a
            \<and> aGeneration a' = aGeneration a \<and> phase_of a \<le> phase_of a'"
    if "fmlookup (Attachments s1) k = Some a" for k a
    using evolves_attachmentD [OF ev that] unfolding attachment_evolves_def by blast
  moreover have "\<exists>v'. fmlookup (Volumes s2) k = Some v' \<and> vTenantID v' = vTenantID v \<and> vClusterID v' = vClusterID v
            \<and> vName v' = vName v \<and> vRegion v' = vRegion v \<and> vZone v' = vZone v \<and> vMode v' = vMode v \<and> vFSType v' = vFSType v
            \<and> vGeneration v \<le> vGeneration v' \<and> vDesiredSizeBytes v \<le> vDesiredSizeBytes v'
            \<and> (vAllowFormat v' \<longrightarrow> vAllowFormat v) \<and> (vDeleteRequested v \<longrightarrow> vDeleteRequested v')
            \<and> (vState v = ''DELETED'' \<longrightarrow> vState v' = ''DELETED'')
            \<and> (vDeviceKey v \<noteq> '''' \<longrightarrow> vDeviceKey v' = vDeviceKey v)"
    if "fmlookup (Volumes s1) k = Some v" for k v
    using evolves_volumeD [OF ev that] unfolding volume_evolves_def by blast
  ultimately show ?thesis using s1 s2 unfolding sys_inv_def by blast
qed

theorem lifecycle_monotone_witness:
  "\<exists>c2 s2. (sys_step mem_bolt ex_states ex_audits mem_cloud ^^ 5) run_start c2
     \<and> platform_read mem_bolt ex_states (fst c2) = Inr s2
     \<and> (sys_step mem_bolt ex_states ex_audits mem_cloud ^^ 0) c2 c2 \<and> fmlookup (Volumes s2) ''volume-01'' \<noteq> None"
proof -
  obtain db where run: "(sys_step mem_bolt ex_states ex_audits mem_cloud ^^ 5) run_start (db, run_cloud)"
    and read: "platform_read mem_bolt ex_states db = Inr run_final" using run_steps by blast
  have stay: "(sys_step mem_bolt ex_states ex_audits mem_cloud ^^ 0) (db, run_cloud) (db, run_cloud)" by simp
  have bound: "(5 :: nat) + 0 \<le> 2 ^ 64 - 1" by simp
  from lifecycle_monotone [OF mem_fake.storage_provider_axioms bolt_ok_mem codec_ok_ex_states run_init run stay bound]
  obtain s1 s2 where s: "platform_read mem_bolt ex_states (fst (db, run_cloud)) = Inr s1"
      "platform_read mem_bolt ex_states (fst (db, run_cloud)) = Inr s2"
      "\<forall>k v. fmlookup (Volumes s1) k = Some v \<longrightarrow> (\<exists>v'. fmlookup (Volumes s2) k = Some v')"
    by blast
  have "s1 = run_final" using s(1) read by simp
  then have "fmlookup (Volumes s2) ''volume-01'' \<noteq> None" using s(3) by (auto simp: run_state_def)
  then show ?thesis using run stay s(2) by blast
qed

section \<open>Convergence\<close>

text \<open>
  C8: one healthy run settles everything. From every state the system can reach, when the
  provider answers and the transaction commits, a single reconcile run leaves every volume
  whose deletion was requested deleted, and every other volume available, without error and
  at its desired size. It detaches every attachment that is being deleted and has no use, leaves one with uses
  draining, and leaves every other attachment attached and without error, unless its instance is absent or inactive: such an
  attachment is left attaching or attached, with the error that asks for fencing. So lost
  answers, failed transactions and crashes before that run cost nothing but time.
\<close>

theorem reconcile_converges:
  assumes "reliable_provider P disks_of up" and "bolt_ok B" and "codec_ok cds zero_platform"
    and "sys_init B cds disks_of c0" and "(sys_step B cds cda P ^^ n) c0 (db, cloud)" and "n \<le> 2 ^ 64 - 1"
    and "up cloud" and "atomic_update upd" and "\<forall>s. platform_read B cds db = Inr s \<longrightarrow> reconcile_for z s"
    and "zVolumeCtx z = (\<lambda>_ _. None)" and "zAttachmentCtx z = (\<lambda>_ _. None)"
    and "Reconcile B cds upd P cfg z cloud db = (None, (cloud', panicked), db')"
  shows "\<exists>s'. platform_read B cds db' = Inr s'
    \<and> (\<forall>k v. fmlookup (Volumes s') k = Some v \<longrightarrow>
         (if vDeleteRequested v then vState v = ''DELETED''
          else vState v = ''AVAILABLE'' \<and> vLastError v = '''' \<and> vDesiredSizeBytes v \<le> vSizeBytes v))
    \<and> (\<forall>k a. fmlookup (Attachments s') k = Some a \<longrightarrow>
         (if aDeleteRequested a then aState a = (if aUses a = fmempty then ''DETACHED'' else ''DETACHING'')
          else if (\<exists>i. fmlookup (Instances cfg) (aInstanceID a) = Some i \<and> iActive i)
            then aState a = ''ATTACHED'' \<and> aLastError a = ''''
          else aState a \<in> {''ATTACHING'', ''ATTACHED''} \<and> aLastError a = ''instance inactive: fencing required''))"
proof -
  have sp: "storage_provider P disks_of" using assms(1) by (simp add: reliable_provider_def)
  obtain s where s: "platform_read B cds db = Inr s" and ok: "sys_ok s (disks_of cloud)"
    using storage_provider.sys_run_inv [OF sp assms(2,3,5) sys_init_inv [OF assms(4)]] assms(6)
    by (auto simp: sys_inv_def)
  from assms(2,3,8,12) show ?thesis
  proof (cases rule: Reconcile_cases)
    case (committed s1 s')
    then have "s1 = s" using s by simp
    then have run: "reconcile_state P cfg z s cloud = (Some s', cloud')" using committed(4) by simp
    note settled = reliable_provider.reconcile_state_settles [OF assms(1) run ok assms(7) assms(9) [rule_format, OF s] assms(10,11)]
    show ?thesis
      using committed(5) settled unfolding settled_volume_def settled_attachment_def instance_active_def by blast
  qed simp_all
qed

theorem reconcile_converges_witness:
  "\<exists>db db' cloud' s'. (sys_step mem_bolt ex_states ex_audits mem_cloud ^^ 1) run_start (db, cloud_db fmempty)
     \<and> Reconcile mem_bolt ex_states mem_update mem_cloud ex_config (run_keys [''volume-01''] []) (cloud_db fmempty) db
         = (None, (cloud', False), db')
     \<and> platform_read mem_bolt ex_states db' = Inr s'
     \<and> (\<forall>v. fmlookup (Volumes s') ''volume-01'' = Some v \<longrightarrow> \<not> vDeleteRequested v \<longrightarrow> vState v = ''AVAILABLE'')"
proof -
  have ctx: "eCtx (run_env [1] [] []) = None" by (simp add: run_env_def)
  have r0: "platform_read mem_bolt ex_states mem_empty = Inr zero_platform"
    using run_init by (simp add: sys_init_def run_start_def)
  obtain db where step: "sys_step mem_bolt ex_states ex_audits mem_cloud run_start (db, cloud_db fmempty)"
    and read: "platform_read mem_bolt ex_states db = Inr (run_state run_volume None)"
    using mem_call_step [OF r0 run_create_volume run_envs(1,2) ctx] unfolding run_start_def by blast
  have steps: "(sys_step mem_bolt ex_states ex_audits mem_cloud ^^ 1) run_start (db, cloud_db fmempty)"
    using step by (simp only: relpowp_1)
  obtain db' where run: "Reconcile mem_bolt ex_states mem_update mem_cloud ex_config (run_keys [''volume-01''] [])
      (cloud_db fmempty) db = (None, (cloud_db (fmupd ''volume-01'' run_disk fmempty), False), db')"
    using mem_reconcile_step [OF read run_provision run_envs(5)] by blast
  have keys: "\<forall>s. platform_read mem_bolt ex_states db = Inr s \<longrightarrow> reconcile_for (run_keys [''volume-01''] []) s"
    using read run_envs(5) [of run_volume] by auto
  have ctxs: "zVolumeCtx (run_keys [''volume-01''] []) = (\<lambda>_ _. None)"
      "zAttachmentCtx (run_keys [''volume-01''] []) = (\<lambda>_ _. None)" by (simp_all add: run_keys_def)
  have one: "(1 :: nat) \<le> 2 ^ 64 - 1" by simp
  from reconcile_converges [OF mem_reliable.reliable_provider_axioms bolt_ok_mem codec_ok_ex_states run_init steps one
      TrueI atomic_update_mem keys ctxs run]
  obtain s' where "platform_read mem_bolt ex_states db' = Inr s'"
      "\<forall>k v. fmlookup (Volumes s') k = Some v \<longrightarrow> (if vDeleteRequested v then vState v = ''DELETED''
          else vState v = ''AVAILABLE'' \<and> vLastError v = '''' \<and> vDesiredSizeBytes v \<le> vSizeBytes v)"
    by (elim exE conjE) (rule that)
  then show ?thesis using steps run by (metis (full_types))
qed

end
