(* ===== verification/GoText.thy ===== *)
theory GoText
  imports Model
begin

text \<open>
  The parts of Go's \<open>strconv\<close>, \<open>strings\<close> and \<open>path/filepath\<close> (on Unix) that the hosts, the
  drivers and the transport use, on byte strings, with the laws their callers rest on:
  printing a 64-bit number and parsing it back, splitting and joining, and the canonical form
  of a path as a list of components.
\<close>

section \<open>Numbers\<close>

text \<open>\<open>strconv.FormatUint(n, 10)\<close> and the verb \<open>%d\<close>.\<close>

definition digit_char :: "nat \<Rightarrow> char" where
  "digit_char n = char_of (48 + n)"

fun decimal :: "nat \<Rightarrow> string" where
  "decimal n = (if n < 10 then [digit_char n] else decimal (n div 10) @ [digit_char (n mod 10)])"

declare decimal.simps [simp del]

definition FormatUint :: "64 word \<Rightarrow> string" where
  "FormatUint n = decimal (unat n)"

text \<open>
  \<open>strconv.ParseUint(s, 10, 64)\<close>: at least one digit, nothing but digits, and a value below
  $2^{64}$; the callers only ask whether it failed. \<open>strconv.ParseInt(s, 10, 64)\<close> also takes a
  sign, and on overflow returns the nearest bound beside its error.
\<close>

definition digit_value :: "char \<Rightarrow> nat option" where
  "digit_value c = (if CHR ''0'' \<le> c \<and> c \<le> CHR ''9'' then Some (of_char c - 48) else None)"

fun parse_digits :: "nat \<Rightarrow> string \<Rightarrow> nat option" where
  "parse_digits n [] = Some n"
| "parse_digits n (c # cs) =
     (case digit_value c of None \<Rightarrow> None | Some d \<Rightarrow> parse_digits (10 * n + d) cs)"

definition parse_nat :: "string \<Rightarrow> nat option" where
  "parse_nat s = (if s = [] then None else parse_digits 0 s)"

definition ParseUint :: "string \<Rightarrow> 64 word option" where
  "ParseUint s =
     (case parse_nat s of None \<Rightarrow> None
      | Some n \<Rightarrow> if n < 2 ^ 64 then Some (word_of_nat n) else None)"

datatype num_error = ErrSyntax | ErrRange

definition ParseInt :: "string \<Rightarrow> int \<times> num_error option" where
  "ParseInt s =
     (let (neg, digits) = (case s of
             [] \<Rightarrow> (False, [])
           | c # cs \<Rightarrow> if c = CHR ''-'' then (True, cs) else if c = CHR ''+'' then (False, cs)
                       else (False, s))
      in case parse_nat digits of
           None \<Rightarrow> (0, Some ErrSyntax)
         | Some n \<Rightarrow>
             if \<not> neg \<and> n \<ge> 2 ^ 63 then (2 ^ 63 - 1, Some ErrRange)
             else if neg \<and> n > 2 ^ 63 then (- (2 ^ 63), Some ErrRange)
             else (if neg then - int n else int n, None))"

lemma digit_value_char: "d < 10 \<Longrightarrow> digit_value (digit_char d) = Some d"
  by (auto simp: digit_value_def digit_char_def less_eq_char_def)

lemma parse_digits_append:
  "parse_digits n (xs @ ys) =
     (case parse_digits n xs of None \<Rightarrow> None | Some m \<Rightarrow> parse_digits m ys)"
  by (induction n xs rule: parse_digits.induct) (auto split: option.split)

lemma parse_digits_decimal: "parse_digits 0 (decimal n) = Some n"
proof (induction n rule: decimal.induct)
  case (1 n)
  show ?case
  proof (cases "n < 10")
    case True
    then show ?thesis by (simp add: decimal.simps digit_value_char)
  next
    case False
    have "decimal n = decimal (n div 10) @ [digit_char (n mod 10)]"
      using False by (subst decimal.simps) simp
    then show ?thesis
      by (simp add: parse_digits_append 1 [OF False] digit_value_char)
  qed
qed

lemma decimal_nonempty [simp]: "decimal n \<noteq> []"
  by (subst decimal.simps) simp

lemma decimal_inj: "decimal m = decimal n \<Longrightarrow> m = n"
  by (metis option.inject parse_digits_decimal)

lemma parse_nat_decimal [simp]: "parse_nat (decimal n) = Some n"
  by (simp add: parse_nat_def parse_digits_decimal)

lemma ParseUint_FormatUint [simp]: "ParseUint (FormatUint g) = Some g"
  using unsigned_less [of g] by (simp add: ParseUint_def FormatUint_def)

lemma FormatUint_inj: "FormatUint g = FormatUint h \<Longrightarrow> g = h"
  by (metis ParseUint_FormatUint option.inject)

lemma decimal_digits: "c \<in> set (decimal n) \<Longrightarrow> CHR ''0'' \<le> c \<and> c \<le> CHR ''9''"
proof (induction n rule: decimal.induct)
  case (1 n)
  have "CHR ''0'' \<le> digit_char d \<and> digit_char d \<le> CHR ''9''" if "d < 10" for d
    using that by (simp add: digit_char_def less_eq_char_def)
  moreover have "set (decimal n) =
      (if n < 10 then {digit_char n} else insert (digit_char (n mod 10)) (set (decimal (n div 10))))"
    by (subst decimal.simps) simp
  ultimately show ?case using 1 by (auto split: if_splits)
qed

section \<open>Strings\<close>

definition HasPrefix :: "string \<Rightarrow> string \<Rightarrow> bool" where
  "HasPrefix s p \<longleftrightarrow> take (length p) s = p"

definition TrimPrefix :: "string \<Rightarrow> string \<Rightarrow> string" where
  "TrimPrefix s p = (if HasPrefix s p then drop (length p) s else s)"

text \<open>\<open>strings.TrimRight\<close> with a cut set of one byte.\<close>

definition TrimRight :: "string \<Rightarrow> char \<Rightarrow> string" where
  "TrimRight s c = rev (dropWhile (\<lambda>d. d = c) (rev s))"

text \<open>\<open>strings.Split\<close> with a separator of one byte: always at least one field.\<close>

fun split_on :: "char \<Rightarrow> string \<Rightarrow> string list" where
  "split_on c [] = [[]]"
| "split_on c (d # s) =
     (if d = c then [] # split_on c s
      else case split_on c s of [] \<Rightarrow> [[d]] | f # fs \<Rightarrow> (d # f) # fs)"

fun join_with :: "char \<Rightarrow> string list \<Rightarrow> string" where
  "join_with c [] = []"
| "join_with c [f] = f"
| "join_with c (f # fs) = f @ c # join_with c fs"

text \<open>
  \<open>strings.TrimSpace\<close>. Go's white space is the six ASCII bytes and the UTF-8 encodings of the
  other code points with the property \<open>White_Space\<close>.
\<close>

definition space_runes :: "string list" where
  "space_runes = map (\<lambda>n. [char_of (n :: nat)]) [9, 10, 11, 12, 13, 32]
     @ map (map (\<lambda>n. char_of (n :: nat)))
         ([[0xC2, 0x85], [0xC2, 0xA0], [0xE1, 0x9A, 0x80], [0xE2, 0x80, 0xA8], [0xE2, 0x80, 0xA9],
           [0xE2, 0x80, 0xAF], [0xE2, 0x81, 0x9F], [0xE3, 0x80, 0x80]]
          @ map (\<lambda>n. [0xE2, 0x80, n]) [0x80 ..< 0x8B])"

fun trim_runes :: "nat \<Rightarrow> string list \<Rightarrow> string \<Rightarrow> string" where
  "trim_runes 0 rs s = s"
| "trim_runes (Suc n) rs s =
     (case List.find (HasPrefix s) rs of None \<Rightarrow> s | Some r \<Rightarrow> trim_runes n rs (drop (length r) s))"

definition TrimSpace :: "string \<Rightarrow> string" where
  "TrimSpace s =
     (let s = trim_runes (length s) space_runes s
      in rev (trim_runes (length s) (map rev space_runes) (rev s)))"

lemma HasPrefix_iff: "HasPrefix s p \<longleftrightarrow> (\<exists>t. s = p @ t)"
  by (metis HasPrefix_def append_eq_conv_conj append_take_drop_id)

lemma HasPrefix_append [simp]: "HasPrefix (p @ t) p"
  by (simp add: HasPrefix_def)

lemma TrimPrefix_append [simp]: "TrimPrefix (p @ t) p = t"
  by (simp add: TrimPrefix_def)

lemma split_on_nonempty [simp]: "split_on c s \<noteq> []"
  by (induction s) (auto split: list.split)

lemma join_split [simp]: "join_with c (split_on c s) = s"
proof (induction s)
  case (Cons d s)
  obtain f fs where s: "split_on c s = f # fs" by (metis list.exhaust split_on_nonempty)
  then show ?case using Cons.IH by (cases fs) auto
qed simp

lemma split_on_no_sep: "f \<in> set (split_on c s) \<Longrightarrow> c \<notin> set f"
proof (induction s arbitrary: f)
  case (Cons d s)
  obtain g gs where "split_on c s = g # gs" by (metis list.exhaust split_on_nonempty)
  then show ?case using Cons.IH Cons.prems by (auto split: if_splits)
qed simp

lemma split_on_field: "c \<notin> set f \<Longrightarrow> split_on c f = [f]"
  by (induction f) auto

lemma split_on_append: "c \<notin> set f \<Longrightarrow> split_on c (f @ c # s) = f # split_on c s"
  by (induction f) auto

lemma split_join: "fs \<noteq> [] \<Longrightarrow> (\<And>f. f \<in> set fs \<Longrightarrow> c \<notin> set f) \<Longrightarrow> split_on c (join_with c fs) = fs"
  by (induction c fs rule: join_with.induct) (simp_all add: split_on_field split_on_append)

end
