(* ===== verification/GoPath.thy ===== *)
theory GoPath
  imports GoText
begin

text \<open>
  \<open>path/filepath\<close> on Unix. \<open>Clean\<close> reads the slash-separated components of a path from left to
  right and keeps the cleaned ones on a stack; an absolute canonical path is a slash followed
  by proper components (\<open>abs_path\<close>), and the laws below say how \<open>Clean\<close>, \<open>Dir\<close> and the prefix
  test act on that form.
\<close>

section \<open>The functions\<close>

definition IsAbs :: "string \<Rightarrow> bool" where
  "IsAbs p \<longleftrightarrow> HasPrefix p ''/''"

definition clean_component :: "bool \<Rightarrow> string list \<Rightarrow> string \<Rightarrow> string list" where
  "clean_component rooted out c =
     (if c = '''' \<or> c = ''.'' then out
      else if c = ''..'' then
        (case out of
           [] \<Rightarrow> if rooted then [] else [''..'']
         | d # ds \<Rightarrow> if d = ''..'' then ''..'' # out else ds)
      else c # out)"

definition Clean :: "string \<Rightarrow> string" where
  "Clean p =
     (if p = '''' then ''.''
      else
        let out = rev (foldl (clean_component (IsAbs p)) [] (split_on (CHR ''/'') p));
            body = join_with (CHR ''/'') out
        in if IsAbs p then CHR ''/'' # body else if body = '''' then ''.'' else body)"

text \<open>Everything up to and including the last slash, cleaned.\<close>

definition Dir :: "string \<Rightarrow> string" where
  "Dir p = Clean (rev (dropWhile (\<lambda>c. c \<noteq> CHR ''/'') (rev p)))"

definition Join :: "string \<Rightarrow> string \<Rightarrow> string" where
  "Join a b =
     (if a \<noteq> '''' then Clean (a @ ''/'' @ b) else if b \<noteq> '''' then Clean b else '''')"

section \<open>Canonical absolute paths\<close>

definition proper :: "string \<Rightarrow> bool" where
  "proper c \<longleftrightarrow> c \<noteq> '''' \<and> c \<noteq> ''.'' \<and> c \<noteq> ''..'' \<and> CHR ''/'' \<notin> set c"

definition abs_path :: "string list \<Rightarrow> string" where
  "abs_path cs = CHR ''/'' # join_with (CHR ''/'') cs"

lemma IsAbs_abs_path [simp]: "IsAbs (abs_path cs)"
  by (simp add: IsAbs_def HasPrefix_def abs_path_def)

lemma IsAbs_iff: "IsAbs p \<longleftrightarrow> (\<exists>q. p = CHR ''/'' # q)"
  by (cases p) (auto simp: IsAbs_def HasPrefix_def)

lemma abs_path_nonempty [simp]: "abs_path cs \<noteq> ''''"
  by (simp add: abs_path_def)

lemma proper_no_slash: "proper c \<Longrightarrow> CHR ''/'' \<notin> set c"
  by (simp add: proper_def)

lemma split_join_append:
  "fs \<noteq> [] \<Longrightarrow> (\<And>f. f \<in> set fs \<Longrightarrow> c \<notin> set f) \<Longrightarrow>
     split_on c (join_with c fs @ c # t) = fs @ split_on c t"
  by (induction c fs rule: join_with.induct) (simp_all add: split_on_append)

lemma split_abs_path:
  "list_all proper cs \<Longrightarrow>
     split_on (CHR ''/'') (abs_path cs) = '''' # (if cs = [] then [''''] else cs)"
  by (auto simp: abs_path_def list_all_iff proper_no_slash split_join)

lemma abs_path_inj:
  "list_all proper cs \<Longrightarrow> list_all proper ds \<Longrightarrow> abs_path cs = abs_path ds \<Longrightarrow> cs = ds"
proof -
  assume cs: "list_all proper cs" and ds: "list_all proper ds" and eq: "abs_path cs = abs_path ds"
  have "\<not> list_all proper ['''']" by (simp add: proper_def)
  moreover have "'''' # (if cs = [] then [''''] else cs) = '''' # (if ds = [] then [''''] else ds)"
    using split_abs_path [OF cs] split_abs_path [OF ds] by (simp only: eq)
  ultimately show ?thesis using cs ds by (cases "cs = []"; cases "ds = []") simp_all
qed

lemma foldl_clean_proper:
  "list_all proper cs \<Longrightarrow> foldl (clean_component rooted) out cs = rev cs @ out"
  by (induction cs arbitrary: out) (auto simp: clean_component_def proper_def)

lemma clean_component_proper:
  "CHR ''/'' \<notin> set c \<Longrightarrow> list_all proper out \<Longrightarrow> list_all proper (clean_component True out c)"
  by (auto simp: clean_component_def proper_def split: list.splits)

lemma foldl_clean_invariant:
  "(\<And>c. c \<in> set cs \<Longrightarrow> CHR ''/'' \<notin> set c) \<Longrightarrow> list_all proper out \<Longrightarrow>
     list_all proper (foldl (clean_component True) out cs)"
  by (induction cs arbitrary: out) (simp_all add: clean_component_proper)

lemma Clean_abs_form: "IsAbs p \<Longrightarrow> \<exists>cs. list_all proper cs \<and> Clean p = abs_path cs"
proof -
  assume p: "IsAbs p"
  let ?out = "foldl (clean_component True) [] (split_on (CHR ''/'') p)"
  have "list_all proper ?out"
    by (rule foldl_clean_invariant) (auto dest: split_on_no_sep)
  moreover have "Clean p = abs_path (rev ?out)"
    using p by (auto simp: Clean_def abs_path_def IsAbs_def HasPrefix_def)
  ultimately show ?thesis
    by (metis list_all_rev)
qed

lemma Clean_abs_path [simp]: "list_all proper cs \<Longrightarrow> Clean (abs_path cs) = abs_path cs"
  by (auto simp: Clean_def split_abs_path foldl_clean_proper clean_component_def abs_path_def
      simp flip: abs_path_def)

lemma Clean_fixed_iff: "IsAbs p \<Longrightarrow> p = Clean p \<longleftrightarrow> (\<exists>cs. list_all proper cs \<and> p = abs_path cs)"
  by (metis Clean_abs_form Clean_abs_path)

text \<open>A relative path stays relative.\<close>

lemma clean_component_no_slash:
  "CHR ''/'' \<notin> set c \<Longrightarrow> \<forall>d\<in>set out. d \<noteq> '''' \<and> CHR ''/'' \<notin> set d \<Longrightarrow>
     \<forall>d\<in>set (clean_component r out c). d \<noteq> '''' \<and> CHR ''/'' \<notin> set d"
  by (auto simp: clean_component_def split: list.splits)

lemma foldl_clean_no_slash:
  "(\<And>c. c \<in> set cs \<Longrightarrow> CHR ''/'' \<notin> set c) \<Longrightarrow> \<forall>d\<in>set out. d \<noteq> '''' \<and> CHR ''/'' \<notin> set d \<Longrightarrow>
     \<forall>d\<in>set (foldl (clean_component r) out cs). d \<noteq> '''' \<and> CHR ''/'' \<notin> set d"
proof (induction cs arbitrary: out)
  case (Cons c cs)
  have "\<forall>d\<in>set (clean_component r out c). d \<noteq> '''' \<and> CHR ''/'' \<notin> set d"
    by (rule clean_component_no_slash) (use Cons.prems in auto)
  with Cons.prems(1) show ?case by (simp only: foldl_Cons) (rule Cons.IH, auto)
qed simp

lemma join_with_head: "f \<noteq> '''' \<Longrightarrow> \<exists>t. join_with c (f # fs) = hd f # t"
  by (cases f; cases fs) auto

lemma IsAbs_Clean [simp]: "IsAbs (Clean p) \<longleftrightarrow> IsAbs p"
proof (cases "IsAbs p")
  case True
  then show ?thesis using Clean_abs_form by fastforce
next
  case False
  define out where "out = rev (foldl (clean_component False) [] (split_on (CHR ''/'') p))"
  have out: "\<forall>d\<in>set out. d \<noteq> '''' \<and> CHR ''/'' \<notin> set d"
    unfolding out_def set_rev by (rule foldl_clean_no_slash) (auto dest: split_on_no_sep)
  have "\<not> IsAbs (join_with (CHR ''/'') out)"
  proof (cases out)
    case (Cons f fs)
    then have "hd f \<noteq> CHR ''/''" using out by (cases f) auto
    then show ?thesis
      using join_with_head [of f "CHR ''/''" fs] out Cons by (auto simp: IsAbs_iff)
  qed (simp add: IsAbs_iff)
  then show ?thesis
    using False by (auto simp: Clean_def Let_def IsAbs_iff simp flip: out_def)
qed

lemma Clean_nonempty [simp]: "Clean p \<noteq> ''''"
  by (simp add: Clean_def Let_def)

section \<open>Parents\<close>

lemma dropWhile_last_slash:
  "CHR ''/'' \<notin> set c \<Longrightarrow>
     rev (dropWhile (\<lambda>d. d \<noteq> CHR ''/'') (rev (xs @ CHR ''/'' # c))) = xs @ ''/''"
proof -
  assume "CHR ''/'' \<notin> set c"
  then have "dropWhile (\<lambda>d. d \<noteq> CHR ''/'') (rev c @ CHR ''/'' # rev xs) = CHR ''/'' # rev xs"
    by (subst dropWhile_append2) auto
  then show ?thesis by simp
qed

lemma join_with_snoc: "fs \<noteq> [] \<Longrightarrow> join_with c (fs @ [f]) = join_with c fs @ c # f"
  by (induction c fs rule: join_with.induct) auto

lemma abs_path_snoc:
  "abs_path (cs @ [c]) = (if cs = [] then '''' else abs_path cs) @ CHR ''/'' # c"
  by (simp add: abs_path_def join_with_snoc)

lemma Dir_abs_path:
  assumes "list_all proper cs" and "proper c"
  shows "Dir (abs_path (cs @ [c])) = abs_path cs"
proof -
  have "rev (dropWhile (\<lambda>d. d \<noteq> CHR ''/'') (rev (abs_path (cs @ [c]))))
      = (if cs = [] then '''' else abs_path cs) @ ''/''"
    using dropWhile_last_slash [OF proper_no_slash, OF assms(2)] by (simp add: abs_path_snoc)
  moreover have "Clean ((if cs = [] then '''' else abs_path cs) @ ''/'') = abs_path cs"
  proof (cases "cs = []")
    case True
    then show ?thesis using Clean_abs_path [of "[]"] by (simp add: abs_path_def)
  next
    case False
    have no_slash: "\<And>f. f \<in> set cs \<Longrightarrow> CHR ''/'' \<notin> set f"
      using assms(1) by (auto simp: list_all_iff proper_def)
    have "split_on (CHR ''/'') (abs_path cs @ ''/'') = '''' # cs @ ['''']"
      using split_join_append [OF False, of "CHR ''/''" "''''"] no_slash
      by (simp add: abs_path_def)
    moreover have "IsAbs (abs_path cs @ ''/'')"
      by (simp add: IsAbs_iff abs_path_def)
    ultimately show ?thesis
      using False assms(1) by (simp add: Clean_def foldl_clean_proper clean_component_def abs_path_def)
  qed
  ultimately show ?thesis by (simp add: Dir_def)
qed

section \<open>Descendants\<close>

text \<open>
  The prefix test the drivers use: a canonical absolute path that starts with the cleaned root
  and a slash is the root followed by at least one proper component. No path passes when the
  root is the file system's root, because the tested prefix is then two slashes.
\<close>

lemma descendant_iff:
  "IsAbs p \<and> p = Clean p \<and> HasPrefix p (Clean root @ ''/'') \<longleftrightarrow>
     (\<exists>rs cs. list_all proper (rs @ cs) \<and> rs \<noteq> [] \<and> cs \<noteq> [] \<and> Clean root = abs_path rs
        \<and> p = abs_path (rs @ cs))"
  (is "?L \<longleftrightarrow> ?R")
proof
  assume ?L
  then have abs: "IsAbs p" and fixp: "p = Clean p" and pre: "HasPrefix p (Clean root @ ''/'')"
    by auto
  obtain ps where ps: "list_all proper ps" "p = abs_path ps"
    using abs fixp Clean_fixed_iff by auto
  obtain t where t: "p = Clean root @ CHR ''/'' # t"
    using pre by (auto simp: HasPrefix_iff)
  have "IsAbs root"
    using abs t Clean_nonempty [of root]
    by (metis IsAbs_Clean IsAbs_iff append_Cons list.exhaust list.inject)
  then obtain rs where rs: "list_all proper rs" "Clean root = abs_path rs"
    using Clean_abs_form by blast
  have joins: "join_with (CHR ''/'') ps = join_with (CHR ''/'') rs @ CHR ''/'' # t"
    using t ps(2) rs(2) by (simp add: abs_path_def)
  then have "ps \<noteq> []" by auto
  moreover have no_slash: "\<And>f. f \<in> set ps \<union> set rs \<Longrightarrow> CHR ''/'' \<notin> set f"
    using ps(1) rs(1) by (auto simp: list_all_iff proper_def)
  ultimately have split_ps: "ps = split_on (CHR ''/'') (join_with (CHR ''/'') rs @ CHR ''/'' # t)"
    using split_join [of ps "CHR ''/''"] joins by simp
  have rs_ne: "rs \<noteq> []"
  proof
    assume "rs = []"
    then have "'''' \<in> set ps" using split_ps by simp
    then show False using ps(1) by (auto simp: list_all_iff proper_def)
  qed
  then have "ps = rs @ split_on (CHR ''/'') t"
    using split_ps split_join_append [of rs "CHR ''/''" t] no_slash by simp
  then show ?R
    using ps rs rs_ne split_on_nonempty by blast
next
  assume ?R
  then obtain rs cs where props: "list_all proper (rs @ cs)" "rs \<noteq> []" "cs \<noteq> []"
    and root: "Clean root = abs_path rs" and p: "p = abs_path (rs @ cs)" by blast
  have "join_with c (rs @ cs) = join_with c rs @ c # join_with c cs" for c
    using props(2,3) by (induction c rs rule: join_with.induct) (auto simp: neq_Nil_conv)
  then have "HasPrefix p (Clean root @ ''/'')"
    by (simp add: HasPrefix_iff p root abs_path_def)
  then show ?L using p props(1) by (simp add: Clean_abs_path)
qed

end
