(* ===== verification/Host.thy ===== *)
theory Host
  imports Provider GoPath
begin

text \<open>
  \<^verbatim>\<open>internal/host/host.go\<close>: the operations of a worker node's mounts behind an interface, and
  the simulated host that keeps a mount table in a database of its own. A \<open>host\<close> is the Go
  interface as a record of functions on the host's state; the locale \<open>mount_host\<close> states what
  the node driver relies on, and the simulated host keeps it over every database with the laws
  of the store (the locale \<open>mount_store\<close> and its \<open>sublocale\<close>).
\<close>

section \<open>The interface\<close>

record stats =
  sTotal :: int
  sAvailable :: int
  sUsed :: int
  sInodes :: int
  sInodesFree :: int

definition zero_stats :: stats where
  "zero_stats = \<lparr>sTotal = 0, sAvailable = 0, sUsed = 0, sInodes = 0, sInodesFree = 0\<rparr>"

record 'h host =
  HostStage :: "ctx \<Rightarrow> volume \<Rightarrow> string \<Rightarrow> 'h \<Rightarrow> go_error option \<times> 'h"
  HostPublish :: "ctx \<Rightarrow> volume \<Rightarrow> string \<Rightarrow> string \<Rightarrow> bool \<Rightarrow> 'h \<Rightarrow> go_error option \<times> 'h"
  HostUnmount :: "ctx \<Rightarrow> string \<Rightarrow> 'h \<Rightarrow> go_error option \<times> 'h"
  HostExpand :: "ctx \<Rightarrow> volume \<Rightarrow> string \<Rightarrow> 'h \<Rightarrow> go_error option \<times> 'h"
  HostStats :: "ctx \<Rightarrow> volume \<Rightarrow> string \<Rightarrow> 'h \<Rightarrow> (stats \<times> go_error option) \<times> 'h"

section \<open>The simulated host\<close>

record mount =
  mVolumeID :: string
  mSource :: string
  mMode :: string
  mFSType :: string
  mReadOnly :: bool
  mSize :: int

type_synonym mounts = "(string, mount) fmap"

definition sim_update ::
  "('tx, 'b) bolt \<Rightarrow> ('b, mounts) codec \<Rightarrow> (('c, 'tx) tx_fun \<Rightarrow> ('c, 'tx) tx_fun)
     \<Rightarrow> ('c, mounts) tx_fun \<Rightarrow> ('c, 'tx) tx_fun" where
  "sim_update B cd upd fn = update_document B cd upd ''mounts'' fmempty fn"

definition sim_stage_fn :: "ctx \<Rightarrow> volume \<Rightarrow> string \<Rightarrow> (stats, mounts) tx_fun" where
  "sim_stage_fn ctx v path c m =
     (if ctx \<noteq> None then (ctx, c, m)
      else
        let wanted = \<lparr>mVolumeID = vID v, mSource = vDeviceKey v, mMode = vMode v, mFSType = vFSType v,
                      mReadOnly = False, mSize = vSizeBytes v\<rparr>
        in case fmlookup m path of
             Some old \<Rightarrow>
               if mVolumeID old \<noteq> vID v \<or> mMode old \<noteq> vMode v \<or> mFSType old \<noteq> vFSType v
               then (Some (PlainError ''stage collision''), c, m)
               else (None, c, m)
           | None \<Rightarrow> (None, c, fmupd path wanted m))"

text \<open>\<open>m[stage].VolumeID\<close> of an absent key is the empty string of the zero \<open>Mount\<close>.\<close>

definition sim_publish_fn :: "ctx \<Rightarrow> volume \<Rightarrow> string \<Rightarrow> string \<Rightarrow> bool \<Rightarrow> (stats, mounts) tx_fun" where
  "sim_publish_fn ctx v stage target ro c m =
     (if ctx \<noteq> None then (ctx, c, m)
      else if (case fmlookup m stage of Some x \<Rightarrow> mVolumeID x | None \<Rightarrow> '''') \<noteq> vID v
      then (Some (PlainError ''stage absent''), c, m)
      else
        let wanted = \<lparr>mVolumeID = vID v, mSource = stage, mMode = vMode v, mFSType = vFSType v,
                      mReadOnly = ro, mSize = vSizeBytes v\<rparr>
        in case fmlookup m target of
             Some old \<Rightarrow>
               if mVolumeID old \<noteq> vID v \<or> mSource old \<noteq> stage \<or> mMode old \<noteq> vMode v \<or> mReadOnly old \<noteq> ro
               then (Some (PlainError ''target collision''), c, m)
               else (None, c, m)
           | None \<Rightarrow> (None, c, fmupd target wanted m))"

definition sim_unmount_fn :: "ctx \<Rightarrow> string \<Rightarrow> (stats, mounts) tx_fun" where
  "sim_unmount_fn ctx path c m =
     (if ctx \<noteq> None then (ctx, c, m) else (None, c, fmdrop path m))"

definition sim_expand_fn :: "ctx \<Rightarrow> volume \<Rightarrow> string \<Rightarrow> (stats, mounts) tx_fun" where
  "sim_expand_fn ctx v path c m =
     (if ctx \<noteq> None then (ctx, c, m)
      else
        case fmlookup m path of
          None \<Rightarrow> (Some (PlainError ''mount absent''), c, m)
        | Some x \<Rightarrow>
            if mVolumeID x \<noteq> vID v then (Some (PlainError ''mount absent''), c, m)
            else (None, c, fmmap (\<lambda>entry. if mVolumeID entry = vID v
                                          then entry\<lparr>mSize := vSizeBytes v\<rparr> else entry) m))"

definition sim_stats_fn :: "ctx \<Rightarrow> volume \<Rightarrow> string \<Rightarrow> (stats, mounts) tx_fun" where
  "sim_stats_fn ctx v path out m =
     (if ctx \<noteq> None then (ctx, out, m)
      else
        case fmlookup m path of
          None \<Rightarrow> (Some (PlainError ''mount absent''), out, m)
        | Some x \<Rightarrow>
            if mVolumeID x \<noteq> vID v then (Some (PlainError ''mount absent''), out, m)
            else (None, zero_stats\<lparr>sTotal := mSize x, sAvailable := mSize x, sInodes := 1000,
                                   sInodesFree := 1000\<rparr>, m))"

text \<open>The four operations whose closures capture no result share this call.\<close>

definition sim_run ::
  "('tx, 'b) bolt \<Rightarrow> ('b, mounts) codec \<Rightarrow> ((stats, 'tx) tx_fun \<Rightarrow> (stats, 'tx) tx_fun)
     \<Rightarrow> (stats, mounts) tx_fun \<Rightarrow> 'tx \<Rightarrow> go_error option \<times> 'tx" where
  "sim_run B cd upd fn db =
     (case sim_update B cd upd fn zero_stats db of (err, _, db) \<Rightarrow> (err, db))"

definition simulated ::
  "('tx, 'b) bolt \<Rightarrow> ('b, mounts) codec \<Rightarrow> ((stats, 'tx) tx_fun \<Rightarrow> (stats, 'tx) tx_fun) \<Rightarrow> 'tx host" where
  "simulated B cd upd = \<lparr>
     HostStage = (\<lambda>ctx v path. sim_run B cd upd (sim_stage_fn ctx v path)),
     HostPublish = (\<lambda>ctx v stage target ro. sim_run B cd upd (sim_publish_fn ctx v stage target ro)),
     HostUnmount = (\<lambda>ctx path. sim_run B cd upd (sim_unmount_fn ctx path)),
     HostExpand = (\<lambda>ctx v path. sim_run B cd upd (sim_expand_fn ctx v path)),
     HostStats = (\<lambda>ctx v path db.
       case sim_update B cd upd (sim_stats_fn ctx v path) zero_stats db of
         (err, out, db) \<Rightarrow> ((out, err), db))\<rparr>"

section \<open>The contract\<close>

text \<open>
  \<open>mounted_at\<close> is the observable mount table: for each path the volume mounted there. An
  operation changes nothing but the path it names; it mounts only on a free path or one that
  already holds the same volume, and an unmount that reports success left the path free. An
  operation that fails may or may not have happened. \<open>recording_host\<close> adds that a successful
  mount is visible, and that publishing needs the staged volume.
\<close>

definition may_mount ::
  "(string \<Rightarrow> string option) \<Rightarrow> string \<Rightarrow> string \<Rightarrow> (string \<Rightarrow> string option) \<Rightarrow> bool" where
  "may_mount t path vol t' \<longleftrightarrow> t' = t \<or> (t path \<in> {None, Some vol} \<and> t' = t(path \<mapsto> vol))"

locale mount_host =
  fixes H :: "'h host"
    and mounted_at :: "'h \<Rightarrow> string \<Rightarrow> string option"
  assumes stage: "HostStage H ctx v path h = (e, h') \<Longrightarrow>
      may_mount (mounted_at h) path (vID v) (mounted_at h')"
    and publish: "HostPublish H ctx v stg target ro h = (e, h') \<Longrightarrow>
      may_mount (mounted_at h) target (vID v) (mounted_at h')"
    and unmount: "HostUnmount H ctx path h = (e, h') \<Longrightarrow>
      (mounted_at h' = mounted_at h \<or> mounted_at h' = (mounted_at h)(path := None))
      \<and> (e = None \<longrightarrow> mounted_at h' path = None)"
    and expand: "HostExpand H ctx v path h = (e, h') \<Longrightarrow> mounted_at h' = mounted_at h"
    and stats: "HostStats H ctx v path h = ((out, e), h') \<Longrightarrow> mounted_at h' = mounted_at h"

locale recording_host = mount_host H mounted_at
  for H :: "'h host" and mounted_at :: "'h \<Rightarrow> string \<Rightarrow> string option" +
  assumes stage_mounted: "HostStage H ctx v path h = (None, h') \<Longrightarrow> mounted_at h' path = Some (vID v)"
    and publish_mounted: "HostPublish H ctx v stg target ro h = (None, h') \<Longrightarrow>
      mounted_at h' target = Some (vID v)"
    and publish_staged: "HostPublish H ctx v stg target ro h = (None, h') \<Longrightarrow> vID v \<noteq> '''' \<Longrightarrow>
      mounted_at h stg = Some (vID v)"

context mount_host
begin

lemma stage_elsewhere:
  "HostStage H ctx v path h = (e, h') \<Longrightarrow> p \<noteq> path \<Longrightarrow> mounted_at h' p = mounted_at h p"
  by (drule stage) (auto simp: may_mount_def)

lemma unmount_elsewhere:
  "HostUnmount H ctx path h = (e, h') \<Longrightarrow> p \<noteq> path \<Longrightarrow> mounted_at h' p = mounted_at h p"
  by (drule unmount) auto

end

context recording_host
begin

lemma stage_publish:
  assumes "HostStage H ctx v stg h = (None, h1)"
    and "HostPublish H ctx v stg target ro h1 = (None, h2)"
    and "mounted_at h stg = None" and "mounted_at h target = None"
  shows "mounted_at h2 = (mounted_at h)(stg \<mapsto> vID v, target \<mapsto> vID v)"
proof -
  have "mounted_at h1 = (mounted_at h)(stg \<mapsto> vID v)"
    using stage [OF assms(1)] stage_mounted [OF assms(1)] by (auto simp: may_mount_def)
  moreover have "mounted_at h2 = (mounted_at h1)(target \<mapsto> vID v)"
    using publish [OF assms(2)] publish_mounted [OF assms(2)] by (auto simp: may_mount_def)
  ultimately show ?thesis by simp
qed

lemma stage_publish_unmount:
  assumes "HostStage H ctx v stg h = (None, h1)"
    and "HostPublish H ctx v stg target ro h1 = (None, h2)"
    and "HostUnmount H ctx target h2 = (None, h3)" and "HostUnmount H ctx stg h3 = (None, h4)"
    and "mounted_at h stg = None" and "mounted_at h target = None"
  shows "mounted_at h4 = mounted_at h"
proof -
  have "mounted_at h2 = (mounted_at h)(stg \<mapsto> vID v, target \<mapsto> vID v)"
    by (rule stage_publish [OF assms(1,2,5,6)])
  moreover have "mounted_at h3 = (mounted_at h2)(target := None)"
    using unmount [OF assms(3)] by (metis fun_upd_triv)
  moreover have "mounted_at h4 = (mounted_at h3)(stg := None)"
    using unmount [OF assms(4)] by (metis fun_upd_triv)
  ultimately show ?thesis using assms(5,6) by (auto simp: fun_eq_iff)
qed

end

section \<open>The simulated host keeps the contract\<close>

definition sim_mounts :: "('tx, 'b) bolt \<Rightarrow> ('b, mounts) codec \<Rightarrow> 'tx \<Rightarrow> mounts" where
  "sim_mounts B cd db =
     (case store_Read B cd db ''mounts'' fmempty of Inl _ \<Rightarrow> fmempty | Inr m \<Rightarrow> m)"

definition sim_mounted_at :: "('tx, 'b) bolt \<Rightarrow> ('b, mounts) codec \<Rightarrow> 'tx \<Rightarrow> string \<Rightarrow> string option" where
  "sim_mounted_at B cd db path = map_option mVolumeID (fmlookup (sim_mounts B cd db) path)"

lemma sim_mounted_cong:
  "sim_mounts B cd db' = sim_mounts B cd db \<Longrightarrow> sim_mounted_at B cd db' = sim_mounted_at B cd db"
  by (simp add: sim_mounted_at_def fun_eq_iff)

lemma sim_update_cases:
  assumes "bolt_ok B" and "codec_ok cd fmempty" and "atomic_update upd"
    and "sim_update B cd upd fn c db = (e, c', db')"
  obtains (failed) "e \<noteq> None" "sim_mounts B cd db' = sim_mounts B cd db"
  | (completed) "e = None" "fst (fn c (sim_mounts B cd db)) = None"
      "c' = fst (snd (fn c (sim_mounts B cd db)))"
      "sim_mounts B cd db' = snd (snd (fn c (sim_mounts B cd db)))"
  using assms(1-3) assms(4)[unfolded sim_update_def]
proof (cases rule: update_document_cases)
  case failed
  then show thesis using that(1) by simp
next
  case (completed m m')
  have m: "sim_mounts B cd db = m" and m': "sim_mounts B cd db' = m'"
    using completed(2,4) by (simp_all add: sim_mounts_def)
  show thesis
    by (rule that(2)) (simp_all only: m m' completed(1,3) fst_conv snd_conv)
qed

lemma sim_run_cases:
  assumes "bolt_ok B" and "codec_ok cd fmempty" and "atomic_update upd"
    and "sim_run B cd upd fn db = (e, db')"
  obtains (failed) "e \<noteq> None" "sim_mounts B cd db' = sim_mounts B cd db"
  | (completed) "e = None" "fst (fn zero_stats (sim_mounts B cd db)) = None"
      "sim_mounts B cd db' = snd (snd (fn zero_stats (sim_mounts B cd db)))"
proof -
  obtain c' where "sim_update B cd upd fn zero_stats db = (e, c', db')"
    using assms(4) by (auto simp: sim_run_def split: prod.splits)
  with assms(1-3) show thesis
    by (cases rule: sim_update_cases) (use failed completed in blast)+
qed

text \<open>Any database that keeps the laws of the store, with its codec for the mount table.\<close>

locale mount_store =
  fixes B :: "('tx, 'b) bolt"
    and cd :: "('b, mounts) codec"
    and upd :: "(stats, 'tx) tx_fun \<Rightarrow> (stats, 'tx) tx_fun"
  assumes bolt: "bolt_ok B" and codec: "codec_ok cd fmempty" and update: "atomic_update upd"
begin

lemmas run_cases = sim_run_cases [OF bolt codec update]

lemma stage_cases:
  assumes "HostStage (simulated B cd upd) ctx v path h = (e, h')"
  shows "(e \<noteq> None \<and> sim_mounts B cd h' = sim_mounts B cd h)
    \<or> (e = None \<and> sim_mounted_at B cd h' path = Some (vID v)
         \<and> (sim_mounts B cd h' = sim_mounts B cd h
            \<or> sim_mounted_at B cd h path = None
              \<and> sim_mounted_at B cd h' = (sim_mounted_at B cd h)(path \<mapsto> vID v)))"
proof -
  have "sim_run B cd upd (sim_stage_fn ctx v path) h = (e, h')"
    using assms by (simp add: simulated_def)
  then show ?thesis
    by (cases rule: run_cases)
      (auto simp: sim_stage_fn_def sim_mounted_at_def fun_eq_iff Let_def split: if_splits option.splits)
qed

lemma publish_cases:
  assumes "HostPublish (simulated B cd upd) ctx v stg target ro h = (e, h')"
  shows "(e \<noteq> None \<and> sim_mounts B cd h' = sim_mounts B cd h)
    \<or> (e = None \<and> (vID v \<noteq> '''' \<longrightarrow> sim_mounted_at B cd h stg = Some (vID v))
       \<and> sim_mounted_at B cd h' target = Some (vID v)
       \<and> (sim_mounts B cd h' = sim_mounts B cd h
          \<or> sim_mounted_at B cd h target = None
            \<and> sim_mounted_at B cd h' = (sim_mounted_at B cd h)(target \<mapsto> vID v)))"
proof -
  have "sim_run B cd upd (sim_publish_fn ctx v stg target ro) h = (e, h')"
    using assms by (simp add: simulated_def)
  then show ?thesis
    by (cases rule: run_cases)
      (auto simp: sim_publish_fn_def sim_mounted_at_def fun_eq_iff Let_def split: if_splits option.splits)
qed

end

sublocale mount_store \<subseteq> sim: recording_host "simulated B cd upd" "sim_mounted_at B cd"
proof unfold_locales
  fix ctx v path h e h'
  assume "HostStage (simulated B cd upd) ctx v path h = (e, h')"
  from stage_cases [OF this]
  show "may_mount (sim_mounted_at B cd h) path (vID v) (sim_mounted_at B cd h')"
    using sim_mounted_cong [of B cd h' h] unfolding may_mount_def by blast
next
  fix ctx v stg target ro h e h'
  assume "HostPublish (simulated B cd upd) ctx v stg target ro h = (e, h')"
  from publish_cases [OF this]
  show "may_mount (sim_mounted_at B cd h) target (vID v) (sim_mounted_at B cd h')"
    using sim_mounted_cong [of B cd h' h] unfolding may_mount_def by blast
next
  fix ctx path h e h'
  assume "HostUnmount (simulated B cd upd) ctx path h = (e, h')"
  then have "sim_run B cd upd (sim_unmount_fn ctx path) h = (e, h')" by (simp add: simulated_def)
  then show "(sim_mounted_at B cd h' = sim_mounted_at B cd h
      \<or> sim_mounted_at B cd h' = (sim_mounted_at B cd h)(path := None))
      \<and> (e = None \<longrightarrow> sim_mounted_at B cd h' path = None)"
    by (cases rule: run_cases)
      (auto simp: sim_unmount_fn_def sim_mounted_at_def fun_eq_iff split: if_splits)
next
  fix ctx v path h e h'
  assume "HostExpand (simulated B cd upd) ctx v path h = (e, h')"
  then have "sim_run B cd upd (sim_expand_fn ctx v path) h = (e, h')" by (simp add: simulated_def)
  then show "sim_mounted_at B cd h' = sim_mounted_at B cd h"
    by (cases rule: run_cases)
      (auto simp: sim_expand_fn_def sim_mounted_at_def fun_eq_iff option.map_comp comp_def if_distrib
        cong: if_cong split: if_splits option.splits)
next
  fix ctx v path h out e h'
  assume "HostStats (simulated B cd upd) ctx v path h = ((out, e), h')"
  then have "sim_update B cd upd (sim_stats_fn ctx v path) zero_stats h = (e, out, h')"
    by (auto simp: simulated_def split: prod.splits)
  then show "sim_mounted_at B cd h' = sim_mounted_at B cd h"
    by (cases rule: sim_update_cases [OF bolt codec update])
      (auto simp: sim_stats_fn_def sim_mounted_at_def fun_eq_iff split: if_splits option.splits)
next
  fix ctx v path h h'
  assume "HostStage (simulated B cd upd) ctx v path h = (None, h')"
  then show "sim_mounted_at B cd h' path = Some (vID v)"
    by (blast dest: stage_cases)
next
  fix ctx v stg target ro h h'
  assume "HostPublish (simulated B cd upd) ctx v stg target ro h = (None, h')"
  then show "sim_mounted_at B cd h' target = Some (vID v)"
    by (blast dest: publish_cases)
next
  fix ctx v stg target ro h h'
  assume "HostPublish (simulated B cd upd) ctx v stg target ro h = (None, h')" and "vID v \<noteq> ''''"
  then show "sim_mounted_at B cd h stg = Some (vID v)"
    by (blast dest: publish_cases)
qed

context mount_store
begin

lemmas sim_trip = sim.stage_publish_unmount
lemmas sim_up = sim.stage_publish

end

section \<open>The simulated host on the in-memory database\<close>

definition mem_host :: "mounts mem_db host" where
  "mem_host = simulated mem_bolt (mem_codec (\<lambda>m. m) Some) mem_update"

definition mem_mounted :: "mounts mem_db \<Rightarrow> string \<Rightarrow> string option" where
  "mem_mounted = sim_mounted_at mem_bolt (mem_codec (\<lambda>m. m) Some)"

interpretation mem_mount_store: mount_store mem_bolt "mem_codec (\<lambda>m. m) Some" mem_update
  by unfold_locales (simp_all add: bolt_ok_mem codec_ok_mem atomic_update_mem)

interpretation mem_mounts: recording_host mem_host mem_mounted
  unfolding mem_host_def mem_mounted_def by (rule mem_mount_store.sim.recording_host_axioms)

text \<open>
  C31: taking a volume up and down on a node leaves nothing behind. Over any database with the
  bbolt laws, when the simulated host stages a volume at a free path, publishes it to a free
  target, and both unmounts succeed, the mount table is what it was before; after the two mounts
  exactly these two paths carry the volume.
\<close>

theorem sim_mount_roundtrip:
  assumes "bolt_ok B" and "codec_ok cd fmempty" and "atomic_update upd"
    and "HostStage (simulated B cd upd) ctx v stg h = (None, h1)"
    and "HostPublish (simulated B cd upd) ctx v stg target ro h1 = (None, h2)"
    and "HostUnmount (simulated B cd upd) ctx target h2 = (None, h3)"
    and "HostUnmount (simulated B cd upd) ctx stg h3 = (None, h4)"
    and "sim_mounted_at B cd h stg = None" and "sim_mounted_at B cd h target = None"
  shows "sim_mounted_at B cd h4 = sim_mounted_at B cd h
    \<and> sim_mounted_at B cd h2 = (sim_mounted_at B cd h)(stg \<mapsto> vID v, target \<mapsto> vID v)"
proof -
  have store: "mount_store B cd upd" by (rule mount_store.intro [OF assms(1-3)])
  show ?thesis
    using mount_store.sim_trip [OF store assms(4-9)] mount_store.sim_up [OF store assms(4,5,8,9)] by simp
qed

definition demo_volume :: volume where
  "demo_volume = zero_volume\<lparr>vID := ''volume-1'', vMode := ''mount'', vFSType := ''ext4'', vSizeBytes := 10\<rparr>"

lemmas sim_run_simps = mem_host_def simulated_def sim_run_def sim_update_def update_document_def
  mem_update_def store_Read_def store_Write_def mem_bolt_def mem_codec_def mem_empty_def
  sim_stage_fn_def sim_publish_fn_def sim_unmount_fn_def sim_expand_fn_def sim_stats_fn_def

theorem sim_mount_roundtrip_witness:
  "\<exists>h1 h2 h3 h4. HostStage mem_host None demo_volume ''/s'' mem_empty = (None, h1)
     \<and> HostPublish mem_host None demo_volume ''/s'' ''/t'' True h1 = (None, h2)
     \<and> HostUnmount mem_host None ''/t'' h2 = (None, h3) \<and> HostUnmount mem_host None ''/s'' h3 = (None, h4)
     \<and> mem_mounted h4 = mem_mounted mem_empty \<and> mem_mounted h2 ''/t'' = Some ''volume-1''"
proof -
  have "\<exists>h1 h2 h3 h4. HostStage mem_host None demo_volume ''/s'' mem_empty = (None, h1)
     \<and> HostPublish mem_host None demo_volume ''/s'' ''/t'' True h1 = (None, h2)
     \<and> HostUnmount mem_host None ''/t'' h2 = (None, h3) \<and> HostUnmount mem_host None ''/s'' h3 = (None, h4)"
    by (simp add: sim_run_simps demo_volume_def zero_volume_def Let_def)
  then obtain h1 h2 h3 h4 where h1: "HostStage mem_host None demo_volume ''/s'' mem_empty = (None, h1)"
    and h2: "HostPublish mem_host None demo_volume ''/s'' ''/t'' True h1 = (None, h2)"
    and h3: "HostUnmount mem_host None ''/t'' h2 = (None, h3)"
    and h4: "HostUnmount mem_host None ''/s'' h3 = (None, h4)"
    by blast
  have v: "vID demo_volume = ''volume-1''" by (simp add: demo_volume_def)
  have empty: "mem_mounted mem_empty p = None" for p
    by (simp add: mem_mounted_def sim_mounted_at_def sim_mounts_def sim_run_simps)
  have "mem_mounted h4 = mem_mounted mem_empty
      \<and> mem_mounted h2 = (mem_mounted mem_empty)(''/s'' \<mapsto> vID demo_volume, ''/t'' \<mapsto> vID demo_volume)"
    unfolding mem_mounted_def
    by (rule sim_mount_roundtrip)
      (use h1 h2 h3 h4 empty in \<open>simp_all add: mem_host_def mem_mounted_def bolt_ok_mem codec_ok_mem
          atomic_update_mem\<close>)
  then show ?thesis using h1 h2 h3 h4 by (auto simp: v)
qed

end
