(* ===== verification/Proc.thy ===== *)
theory Proc
  imports Provider
begin

text \<open>
  Computations that change a state and may fail, the shape of the host's and the drivers'
  operations: a Go function that returns a value and an error becomes a function from the state
  to either the error or the value, and the state it leaves behind. The state after a failure is
  kept, because what the function did before it failed stays done. \<open>ensures\<close> is the weakest
  precondition, and its rules are collected in \<open>proc_rules\<close>.
\<close>

named_theorems proc_rules "weakest preconditions of the combinators"

type_synonym ('s, 'e, 'a) proc = "'s \<Rightarrow> ('e + 'a) \<times> 's"

definition give :: "'a \<Rightarrow> ('s, 'e, 'a) proc" where
  "give x s = (Inr x, s)"

definition raise :: "'e \<Rightarrow> ('s, 'e, 'a) proc" where
  "raise e s = (Inl e, s)"

definition andThen :: "('s, 'e, 'a) proc \<Rightarrow> ('a \<Rightarrow> ('s, 'e, 'b) proc) \<Rightarrow> ('s, 'e, 'b) proc" where
  "andThen m f s = (case m s of (Inl e, s) \<Rightarrow> (Inl e, s) | (Inr x, s) \<Rightarrow> f x s)"

text \<open>\<open>if !ok { return err }\<close>\<close>

definition require :: "bool \<Rightarrow> 'e \<Rightarrow> ('s, 'e, unit) proc" where
  "require ok e = (if ok then give () else raise e)"

text \<open>A pure result and a reading of the state as computations.\<close>

definition pure_result :: "'e + 'a \<Rightarrow> ('s, 'e, 'a) proc" where
  "pure_result r s = (r, s)"

definition reading :: "('s \<Rightarrow> 'e + 'a) \<Rightarrow> ('s, 'e, 'a) proc" where
  "reading f s = (f s, s)"

text \<open>Operations that return a Go error, and those that return a value beside it.\<close>

definition failing :: "(go_error \<Rightarrow> 'e) \<Rightarrow> ('s \<Rightarrow> go_error option \<times> 's) \<Rightarrow> ('s, 'e, unit) proc" where
  "failing conv f s = (case f s of (None, s) \<Rightarrow> (Inr (), s) | (Some e, s) \<Rightarrow> (Inl (conv e), s))"

definition valued ::
  "(go_error \<Rightarrow> 'e) \<Rightarrow> ('s \<Rightarrow> ('a \<times> go_error option) \<times> 's) \<Rightarrow> ('s, 'e, 'a) proc" where
  "valued conv f s =
     (case f s of ((x, None), s) \<Rightarrow> (Inr x, s) | ((_, Some e), s) \<Rightarrow> (Inl (conv e), s))"

definition mapError :: "('e \<Rightarrow> 'f) \<Rightarrow> ('s, 'e, 'a) proc \<Rightarrow> ('s, 'f, 'a) proc" where
  "mapError conv m s = (case m s of (Inl e, s) \<Rightarrow> (Inl (conv e), s) | (Inr x, s) \<Rightarrow> (Inr x, s))"

text \<open>The error result of a computation without a value.\<close>

definition outcome_error :: "('s, go_error, unit) proc \<Rightarrow> 's \<Rightarrow> go_error option \<times> 's" where
  "outcome_error m s = (case m s of (Inl e, s) \<Rightarrow> (Some e, s) | (Inr _, s) \<Rightarrow> (None, s))"

section \<open>Weakest preconditions\<close>

definition ensures :: "('s, 'e, 'a) proc \<Rightarrow> ('e + 'a \<Rightarrow> 's \<Rightarrow> bool) \<Rightarrow> 's \<Rightarrow> bool" where
  "ensures m Q s = (case m s of (r, s') \<Rightarrow> Q r s')"

lemma ensuresD: "ensures m Q s \<Longrightarrow> m s = (r, s') \<Longrightarrow> Q r s'"
  by (simp add: ensures_def)

lemma ensuresI: "(\<And>r s'. m s = (r, s') \<Longrightarrow> Q r s') \<Longrightarrow> ensures m Q s"
  by (simp add: ensures_def split: prod.split)

lemma ensures_mono:
  "ensures m Q s \<Longrightarrow> (\<And>r s'. Q r s' \<Longrightarrow> R r s') \<Longrightarrow> ensures m R s"
  by (auto simp: ensures_def)

lemma ensures_give [proc_rules]: "ensures (give x) Q s \<longleftrightarrow> Q (Inr x) s"
  by (simp add: ensures_def give_def)

lemma ensures_raise [proc_rules]: "ensures (raise e) Q s \<longleftrightarrow> Q (Inl e) s"
  by (simp add: ensures_def raise_def)

lemma ensures_andThen [proc_rules]:
  "ensures (andThen m f) Q s \<longleftrightarrow>
     ensures m (\<lambda>r s'. case r of Inl e \<Rightarrow> Q (Inl e) s' | Inr x \<Rightarrow> ensures (f x) Q s') s"
  by (auto simp: ensures_def andThen_def split: prod.splits sum.splits)

lemma ensures_require [proc_rules]:
  "ensures (require ok e) Q s \<longleftrightarrow> (if ok then Q (Inr ()) s else Q (Inl e) s)"
  by (simp add: require_def proc_rules)

lemma ensures_pure_result [proc_rules]: "ensures (pure_result r) Q s \<longleftrightarrow> Q r s"
  by (simp add: ensures_def pure_result_def)

lemma ensures_reading [proc_rules]: "ensures (reading f) Q s \<longleftrightarrow> Q (f s) s"
  by (simp add: ensures_def reading_def)

lemma ensures_failing [proc_rules]:
  "ensures (failing conv f) Q s \<longleftrightarrow>
     (case f s of (e, s') \<Rightarrow> Q (case e of None \<Rightarrow> Inr () | Some x \<Rightarrow> Inl (conv x)) s')"
  by (auto simp: ensures_def failing_def split: prod.splits option.splits)

lemma ensures_valued [proc_rules]:
  "ensures (valued conv f) Q s \<longleftrightarrow>
     (case f s of ((x, e), s') \<Rightarrow> Q (case e of None \<Rightarrow> Inr x | Some y \<Rightarrow> Inl (conv y)) s')"
  by (auto simp: ensures_def valued_def split: prod.splits option.splits)

lemma ensures_mapError [proc_rules]:
  "ensures (mapError conv m) Q s \<longleftrightarrow>
     ensures m (\<lambda>r s'. Q (case r of Inl e \<Rightarrow> Inl (conv e) | Inr x \<Rightarrow> Inr x) s') s"
  by (auto simp: ensures_def mapError_def split: prod.splits sum.splits)

lemma ensures_outcome_error:
  "ensures m (\<lambda>r s'. Q (case r of Inl e \<Rightarrow> Some e | Inr _ \<Rightarrow> None) s') s \<Longrightarrow>
     outcome_error m s = (e, s') \<Longrightarrow> Q e s'"
  by (auto simp: ensures_def outcome_error_def split: prod.splits sum.splits)

section \<open>Invariants\<close>

text \<open>A computation that keeps a property of the state whatever its result.\<close>

named_theorems keeps_rules "computations that keep a property of the state"

definition keeps :: "('s \<Rightarrow> bool) \<Rightarrow> ('s, 'e, 'a) proc \<Rightarrow> bool" where
  "keeps I m \<longleftrightarrow> (\<forall>s. I s \<longrightarrow> I (snd (m s)))"

lemma keepsD: "keeps I m \<Longrightarrow> m s = (r, s') \<Longrightarrow> I s \<Longrightarrow> I s'"
  unfolding keeps_def by (metis snd_conv)

lemma keeps_give [keeps_rules]: "keeps I (give x)"
  by (simp add: keeps_def give_def)

lemma keeps_raise [keeps_rules]: "keeps I (raise e)"
  by (simp add: keeps_def raise_def)

lemma keeps_require [keeps_rules]: "keeps I (require ok e)"
  by (simp add: keeps_def require_def give_def raise_def)

lemma keeps_pure_result [keeps_rules]: "keeps I (pure_result r)"
  by (simp add: keeps_def pure_result_def)

lemma keeps_reading [keeps_rules]: "keeps I (reading f)"
  by (simp add: keeps_def reading_def)

lemma keeps_andThen [keeps_rules]:
  "keeps I m \<Longrightarrow> (\<And>x. keeps I (f x)) \<Longrightarrow> keeps I (andThen m f)"
proof -
  assume m: "keeps I m" and f: "\<And>x. keeps I (f x)"
  show ?thesis
    unfolding keeps_def andThen_def
    by (auto split: prod.splits sum.splits dest: keepsD [OF m] intro: f [unfolded keeps_def, rule_format])
qed

lemma keeps_failing: "(\<And>s e s'. I s \<Longrightarrow> f s = (e, s') \<Longrightarrow> I s') \<Longrightarrow> keeps I (failing conv f)"
  by (auto simp: keeps_def failing_def split: prod.splits option.splits)

lemma keeps_outcome_error: "keeps I m \<Longrightarrow> I s \<Longrightarrow> I (snd (outcome_error m s))"
  by (auto simp: keeps_def outcome_error_def split: prod.splits sum.splits)

section \<open>Success\<close>

text \<open>A computation that reports success went through every step.\<close>

lemma andThen_Inr:
  "andThen m f s = (Inr y, s'') \<longleftrightarrow> (\<exists>x s'. m s = (Inr x, s') \<and> f x s' = (Inr y, s''))"
  by (auto simp: andThen_def split: prod.splits sum.splits)

lemma require_Inr [simp]: "require ok e s = (Inr u, s') \<longleftrightarrow> ok \<and> s' = s"
  by (auto simp: require_def give_def raise_def)

lemma give_Inr [simp]: "give x s = (Inr y, s') \<longleftrightarrow> y = x \<and> s' = s"
  by (auto simp: give_def)

lemma raise_Inr [simp]: "raise e s \<noteq> (Inr y, s')"
  by (simp add: raise_def)

lemma pure_result_Inr [simp]: "pure_result r s = (Inr y, s') \<longleftrightarrow> r = Inr y \<and> s' = s"
  by (auto simp: pure_result_def)

lemma reading_Inr [simp]: "reading f s = (Inr y, s') \<longleftrightarrow> f s = Inr y \<and> s' = s"
  by (auto simp: reading_def)

lemma failing_Inr: "failing conv f s = (Inr u, s') \<longleftrightarrow> f s = (None, s')"
  by (auto simp: failing_def split: prod.splits option.splits)

lemma valued_Inr: "valued conv f s = (Inr x, s') \<longleftrightarrow> f s = ((x, None), s')"
  by (auto simp: valued_def split: prod.splits option.splits)

lemma mapError_Inr: "mapError conv m s = (Inr x, s') \<longleftrightarrow> m s = (Inr x, s')"
  by (auto simp: mapError_def split: prod.splits sum.splits)

lemmas proc_success = andThen_Inr failing_Inr valued_Inr mapError_Inr

text \<open>Running a computation on a concrete state.\<close>

lemmas proc_run = give_def raise_def andThen_def require_def pure_result_def reading_def failing_def
  valued_def mapError_def outcome_error_def

end
