(* ===== verification/Linux.thy ===== *)
theory Linux
  imports Host Proc
begin

unbundle bit_operations_syntax

text \<open>
  \<^verbatim>\<open>internal/host/linux.go\<close>: the host that runs the system's tools. The operating system is a
  parameter, the record \<open>os\<close>: running a command, polling, the file-system calls of \<open>os\<close> and
  \<open>syscall\<close>, and the JSON reports of \<open>findmnt\<close> and \<open>wipefs\<close>. Everything the code decides
  between those calls is defined here: when a device may be formatted, when a mount counts as
  the wanted one, which command runs with which arguments, and what happens on each failure.
\<close>

section \<open>The operating system\<close>

datatype file_kind = RegularFile | Directory | Symlink | BlockDevice | CharDevice | OtherFile

record file_info =
  fKind :: file_kind
  fDev :: "64 word"
  fIno :: "64 word"

record fs_stat =
  qBlocks :: "64 word"
  qBavail :: "64 word"
  qBfree :: "64 word"
  qFiles :: "64 word"
  qFfree :: "64 word"
  qBsize :: "64 word"

record mounted_fs =
  fsSource :: string
  fsType :: string
  fsOptions :: string
  fsDev :: string

text \<open>
  \<open>Output()\<close> of a command: its standard output, an exit code with the error value, or another
  error. \<open>CombinedOutput()\<close> returns the output beside the error.
\<close>

datatype exec_output = Output string | ExitCode int go_error | ExecError go_error

datatype create_result = Created | AlreadyThere | CreateFailed go_error

record 'o os =
  osCombinedOutput :: "ctx \<Rightarrow> string \<Rightarrow> string list \<Rightarrow> 'o \<Rightarrow> (string \<times> go_error option) \<times> 'o"
  osOutput :: "ctx \<Rightarrow> string \<Rightarrow> string list \<Rightarrow> 'o \<Rightarrow> exec_output \<times> 'o"
  osEvalSymlinks :: "'o \<Rightarrow> string \<Rightarrow> go_error + string"
  osStat :: "'o \<Rightarrow> string \<Rightarrow> go_error + file_info"
  osLstat :: "'o \<Rightarrow> string \<Rightarrow> go_error + file_info"
  osRdev :: "'o \<Rightarrow> string \<Rightarrow> go_error + 64 word"
  osStatfs :: "'o \<Rightarrow> string \<Rightarrow> go_error + fs_stat"
  osMkdirAll :: "string \<Rightarrow> 'o \<Rightarrow> go_error option \<times> 'o"
  osCreateExcl :: "string \<Rightarrow> 'o \<Rightarrow> create_result \<times> 'o"
  osSleep :: "'o \<Rightarrow> 'o"
  osRounds :: "int \<Rightarrow> 'o \<Rightarrow> nat"
  jsonFindmnt :: "string \<Rightarrow> go_error + mounted_fs list"
  jsonWipefs :: "string \<Rightarrow> go_error + string list"
  numError :: "string \<Rightarrow> num_error \<Rightarrow> go_error"

record linux =
  DeviceRoot :: string
  DiscoveryTimeout :: int

section \<open>Running commands\<close>

definition run :: "'o os \<Rightarrow> ctx \<Rightarrow> string \<Rightarrow> string list \<Rightarrow> ('o, go_error, string) proc" where
  "run OS ctx name args s =
     (case osCombinedOutput OS ctx name args s of
        ((b, Some err), s) \<Rightarrow>
          (Inl (WrappedError (name @ '': '') err ('': '' @ TrimSpace b)), s)
      | ((b, None), s) \<Rightarrow> (Inr (TrimSpace b), s))"

definition run_tool :: "'o os \<Rightarrow> ctx \<Rightarrow> string \<Rightarrow> string list \<Rightarrow> ('o, go_error, unit) proc" where
  "run_tool OS ctx name args = andThen (run OS ctx name args) (\<lambda>_. give ())"

definition mkdir_all :: "'o os \<Rightarrow> string \<Rightarrow> ('o, go_error, unit) proc" where
  "mkdir_all OS path = failing (\<lambda>e. e) (osMkdirAll OS path)"

text \<open>
  The poll of \<open>device\<close>. How many times the 100 ms timer fires before the derived context is done
  is the environment's choice, \<open>osRounds\<close>; the loop looks for the device once more than that.
\<close>

definition find_device :: "'o os \<Rightarrow> string \<Rightarrow> 'o \<Rightarrow> string option" where
  "find_device OS link s =
     (case osEvalSymlinks OS s link of
        Inl _ \<Rightarrow> None
      | Inr p \<Rightarrow>
          (case osStat OS s p of
             Inl _ \<Rightarrow> None
           | Inr st \<Rightarrow> if fKind st = BlockDevice then Some p else None))"

fun poll_device :: "'o os \<Rightarrow> string \<Rightarrow> nat \<Rightarrow> ('o, go_error, string) proc" where
  "poll_device OS link 0 s =
     (case find_device OS link s of
        Some p \<Rightarrow> (Inr p, s)
      | None \<Rightarrow> (Inl (ModelError ''Unavailable'' ''block device discovery pending''), s))"
| "poll_device OS link (Suc n) s =
     (case find_device OS link s of
        Some p \<Rightarrow> (Inr p, s)
      | None \<Rightarrow> poll_device OS link n (osSleep OS s))"

definition device :: "'o os \<Rightarrow> linux \<Rightarrow> volume \<Rightarrow> ('o, go_error, string) proc" where
  "device OS h v s =
     (if \<not> ValidID (vDeviceKey v) then (Inl (PlainError ''invalid trusted device key''), s)
      else
        let timeout = (if DiscoveryTimeout h \<le> 0 then 10 * 10 ^ 9 else DiscoveryTimeout h)
        in poll_device OS (Join (DeviceRoot h) (vDeviceKey v)) (osRounds OS timeout s) s)"

definition mounted :: "'o os \<Rightarrow> ctx \<Rightarrow> string \<Rightarrow> ('o, go_error, mounted_fs option) proc" where
  "mounted OS ctx path s =
     (case osOutput OS ctx ''findmnt''
             [''--json'', ''--mountpoint'', path, ''--output'', ''SOURCE,FSTYPE,OPTIONS,MAJ:MIN''] s of
        (ExitCode n err, s) \<Rightarrow> if n = 1 then (Inr None, s) else (Inl err, s)
      | (ExecError err, s) \<Rightarrow> (Inl err, s)
      | (Output b, s) \<Rightarrow>
          (case jsonFindmnt OS b of
             Inl err \<Rightarrow> (Inl err, s)
           | Inr [m] \<Rightarrow> (Inr (Some m), s)
           | Inr _ \<Rightarrow> (Inl (PlainError ''ambiguous mountpoint''), s)))"

section \<open>Decisions\<close>

definition dev_major :: "64 word \<Rightarrow> 64 word" where
  "dev_major r = (drop_bit 8 r AND 0xfff) OR (drop_bit 32 r AND 0xfffff000)"

definition dev_minor :: "64 word \<Rightarrow> 64 word" where
  "dev_minor r = (r AND 0xff) OR (drop_bit 12 r AND 0xffffff00)"

definition dev_text :: "64 word \<Rightarrow> string" where
  "dev_text r = FormatUint (dev_major r) @ '':'' @ FormatUint (dev_minor r)"

definition devNumbers :: "'o os \<Rightarrow> string \<Rightarrow> ('o, go_error, string) proc" where
  "devNumbers OS path = reading (\<lambda>s.
     case osRdev OS s path of Inl err \<Rightarrow> Inl err | Inr r \<Rightarrow> Inr (dev_text r))"

definition readOnly :: "string \<Rightarrow> bool" where
  "readOnly opts = list_ex (\<lambda>opt. opt = ''ro'') (split_on (CHR '','') opts)"

definition formatRequired :: "string list \<Rightarrow> string \<Rightarrow> bool \<Rightarrow> go_error + bool" where
  "formatRequired signatures fs allowed =
     (if fs \<noteq> ''ext4'' \<and> fs \<noteq> ''xfs'' then Inl (PlainError ''unsupported filesystem'')
      else if signatures = [] then
        if \<not> allowed then Inl (PlainError ''blank device but format grant absent'') else Inr True
      else
        case List.find (\<lambda>signature. signature \<noteq> fs) signatures of
          Some signature \<Rightarrow>
            Inl (PlainError (''existing signature '' @ signature @ '' differs from '' @ fs
              @ ''; refusing format''))
        | None \<Rightarrow> Inr False)"

definition verifyFilesystemMount ::
  "'o os \<Rightarrow> ctx \<Rightarrow> volume \<Rightarrow> string \<Rightarrow> string \<Rightarrow> ('o, go_error, unit) proc" where
  "verifyFilesystemMount OS ctx v path dev =
     andThen (mounted OS ctx path) (\<lambda>m.
     andThen (devNumbers OS dev) (\<lambda>expected.
     require (case m of None \<Rightarrow> False | Some m \<Rightarrow> fsDev m = expected \<and> fsType m = vFSType v)
       (PlainError ''volume filesystem is not mounted at requested path'')))"

section \<open>The operations\<close>

text \<open>\<open>mkfs\<close> for the two supported file systems; any other name runs nothing.\<close>

definition make_filesystem :: "'o os \<Rightarrow> ctx \<Rightarrow> string \<Rightarrow> string \<Rightarrow> ('o, go_error, unit) proc" where
  "make_filesystem OS ctx fs dev =
     (if fs = ''ext4'' then run_tool OS ctx ''mkfs.ext4'' [dev]
      else if fs = ''xfs'' then run_tool OS ctx ''mkfs.xfs'' [dev]
      else give ())"

definition stage_mounted ::
  "'o os \<Rightarrow> volume \<Rightarrow> string \<Rightarrow> mounted_fs \<Rightarrow> ('o, go_error, unit) proc" where
  "stage_mounted OS v dev found =
     andThen (devNumbers OS dev) (\<lambda>numbers.
     require (fsDev found = numbers \<and> fsType found = vFSType v \<and> \<not> readOnly (fsOptions found))
       (PlainError ''existing staging mount differs''))"

definition stage_fresh ::
  "'o os \<Rightarrow> ctx \<Rightarrow> volume \<Rightarrow> string \<Rightarrow> string \<Rightarrow> ('o, go_error, unit) proc" where
  "stage_fresh OS ctx v dev path =
     andThen (run OS ctx ''wipefs'' [''--no-act'', ''--json'', dev]) (\<lambda>b.
     andThen (pure_result (jsonWipefs OS b)) (\<lambda>types.
     andThen (pure_result (formatRequired types (vFSType v) (vAllowFormat v))) (\<lambda>format.
     andThen (if format then make_filesystem OS ctx (vFSType v) dev else give ()) (\<lambda>_.
     andThen (mkdir_all OS path) (\<lambda>_.
     run_tool OS ctx ''mount'' [''-t'', vFSType v, ''-o'', ''nodev,nosuid'', dev, path])))))"

definition linux_Stage :: "'o os \<Rightarrow> linux \<Rightarrow> ctx \<Rightarrow> volume \<Rightarrow> string \<Rightarrow> ('o, go_error, unit) proc" where
  "linux_Stage OS h ctx v path =
     andThen (device OS h v) (\<lambda>dev.
     if vMode v = ''block'' then mkdir_all OS path
     else
       andThen (mounted OS ctx path) (\<lambda>found.
       case found of
         Some m \<Rightarrow> stage_mounted OS v dev m
       | None \<Rightarrow> stage_fresh OS ctx v dev path))"

definition publish_mounted ::
  "'o os \<Rightarrow> volume \<Rightarrow> string \<Rightarrow> string \<Rightarrow> bool \<Rightarrow> mounted_fs \<Rightarrow> ('o, go_error, unit) proc" where
  "publish_mounted OS v source target ro old =
     andThen
       (if vMode v = ''block'' then
          andThen (devNumbers OS source) (\<lambda>a.
          andThen (devNumbers OS target) (\<lambda>b.
          require (a = b) (PlainError ''target block device differs'')))
        else
          andThen (reading (\<lambda>s. osStat OS s source)) (\<lambda>a.
          andThen (reading (\<lambda>s. osStat OS s target)) (\<lambda>b.
          require (fDev a = fDev b \<and> fIno a = fIno b) (PlainError ''target source differs''))))
       (\<lambda>_. require (readOnly (fsOptions old) = ro) (PlainError ''target readonly differs''))"

definition block_placeholder :: "'o os \<Rightarrow> string \<Rightarrow> ('o, go_error, unit) proc" where
  "block_placeholder OS target =
     andThen (mkdir_all OS (Dir target)) (\<lambda>_ s.
       case osCreateExcl OS target s of
         (CreateFailed e, s) \<Rightarrow> (Inl e, s)
       | (_, s) \<Rightarrow>
           (case osLstat OS s target of
              Inr st \<Rightarrow> require (fKind st = RegularFile)
                (PlainError ''block target must be regular placeholder'') s
            | Inl _ \<Rightarrow> (Inl (PlainError ''block target must be regular placeholder''), s)))"

text \<open>The read-only remount; when it fails the bind mount is taken down again, whatever that returns.\<close>

definition remount_ro :: "'o os \<Rightarrow> ctx \<Rightarrow> string \<Rightarrow> ('o, go_error, unit) proc" where
  "remount_ro OS ctx target s =
     (case run OS ctx ''mount'' [''-o'', ''remount,bind,ro'', target] s of
        (Inl err, s) \<Rightarrow>
          (case run OS ctx ''umount'' [target] s of (_, s) \<Rightarrow> (Inl err, s))
      | (Inr _, s) \<Rightarrow> (Inr (), s))"

definition linux_Publish ::
  "'o os \<Rightarrow> linux \<Rightarrow> ctx \<Rightarrow> volume \<Rightarrow> string \<Rightarrow> string \<Rightarrow> bool \<Rightarrow> ('o, go_error, unit) proc" where
  "linux_Publish OS h ctx v stage target ro =
     andThen (if vMode v = ''block'' then device OS h v else give stage) (\<lambda>source.
     andThen (mounted OS ctx target) (\<lambda>found.
     case found of
       Some old \<Rightarrow> publish_mounted OS v source target ro old
     | None \<Rightarrow>
         andThen (if vMode v = ''block'' then block_placeholder OS target else mkdir_all OS target) (\<lambda>_.
         andThen (run_tool OS ctx ''mount'' [''--bind'', source, target]) (\<lambda>_.
         if ro then remount_ro OS ctx target else give ()))))"

definition linux_Unmount :: "'o os \<Rightarrow> ctx \<Rightarrow> string \<Rightarrow> ('o, go_error, unit) proc" where
  "linux_Unmount OS ctx path =
     andThen (mounted OS ctx path) (\<lambda>old.
     if old = None then give () else run_tool OS ctx ''umount'' [path])"

definition device_size :: "'o os \<Rightarrow> ctx \<Rightarrow> string \<Rightarrow> ('o, go_error, int \<times> go_error option) proc" where
  "device_size OS ctx dev =
     andThen (run OS ctx ''blockdev'' [''--getsize64'', dev]) (\<lambda>size.
     give (case ParseInt size of (n, err) \<Rightarrow> (n, map_option (numError OS size) err)))"

definition linux_Expand :: "'o os \<Rightarrow> linux \<Rightarrow> ctx \<Rightarrow> volume \<Rightarrow> string \<Rightarrow> ('o, go_error, unit) proc" where
  "linux_Expand OS h ctx v path =
     andThen (device OS h v) (\<lambda>dev.
     andThen (device_size OS ctx dev) (\<lambda>(n, err).
     case err of
       Some err \<Rightarrow> raise err
     | None \<Rightarrow>
         if n < vSizeBytes v then raise (ModelError ''Unavailable'' ''device capacity has not grown'')
         else if vMode v = ''block'' then give ()
         else
           andThen (verifyFilesystemMount OS ctx v path dev) (\<lambda>_.
           if vFSType v = ''ext4'' then run_tool OS ctx ''resize2fs'' [dev]
           else if vFSType v = ''xfs'' then run_tool OS ctx ''xfs_growfs'' [path]
           else raise (PlainError ''unsupported FS''))))"

text \<open>\<open>int64\<close> products wrap; \<open>int64(s.Blocks-s.Bfree)\<close> subtracts in \<open>uint64\<close> first.\<close>

definition fs_stats :: "fs_stat \<Rightarrow> stats" where
  "fs_stats q = \<lparr>sTotal = sint (qBlocks q * qBsize q), sAvailable = sint (qBavail q * qBsize q),
     sUsed = sint ((qBlocks q - qBfree q) * qBsize q), sInodes = sint (qFiles q),
     sInodesFree = sint (qFfree q)\<rparr>"

text \<open>\<open>Stats\<close> returns a value beside its error, like \<open>strconv.ParseInt\<close> on overflow.\<close>

definition linux_Stats ::
  "'o os \<Rightarrow> linux \<Rightarrow> ctx \<Rightarrow> volume \<Rightarrow> string \<Rightarrow> 'o \<Rightarrow> (stats \<times> go_error option) \<times> 'o" where
  "linux_Stats OS h ctx v path s =
     (case
        (if vMode v = ''block'' then
           andThen (device OS h v) (\<lambda>dev.
           andThen (device_size OS ctx dev) (\<lambda>(n, err).
           give (zero_stats\<lparr>sTotal := n\<rparr>, err)))
         else
           andThen (device OS h v) (\<lambda>dev.
           andThen (verifyFilesystemMount OS ctx v path dev) (\<lambda>_.
           andThen (reading (\<lambda>s. osStatfs OS s path)) (\<lambda>q.
           give (fs_stats q, None))))) s of
        (Inl err, s) \<Rightarrow> ((zero_stats, Some err), s)
      | (Inr out, s) \<Rightarrow> (out, s))"

definition linux_host :: "'o os \<Rightarrow> linux \<Rightarrow> 'o host" where
  "linux_host OS h = \<lparr>
     HostStage = (\<lambda>ctx v path. outcome_error (linux_Stage OS h ctx v path)),
     HostPublish = (\<lambda>ctx v stage target ro. outcome_error (linux_Publish OS h ctx v stage target ro)),
     HostUnmount = (\<lambda>ctx path. outcome_error (linux_Unmount OS ctx path)),
     HostExpand = (\<lambda>ctx v path. outcome_error (linux_Expand OS h ctx v path)),
     HostStats = linux_Stats OS h\<rparr>"


end
