(* ===== verification/LinuxProps.thy ===== *)
theory LinuxProps
  imports Linux
begin

unbundle bit_operations_syntax

text \<open>
  What the Linux host guarantees, whatever the tools and the kernel answer: device numbers
  identify the device, the device link stays below the trusted root, a device is formatted only
  when it was reported blank and the platform granted it, and usage figures are exact. What a successful
  staging or publication leaves mounted is in \<^verbatim>\<open>LinuxMounts\<close>.
\<close>

section \<open>Device numbers\<close>

lemma mask_words:
  "(0xfff :: 64 word) = mask 12" "(0xff :: 64 word) = mask 8"
  "(0xfffff000 :: 64 word) = push_bit 12 (mask 20)" "(0xffffff00 :: 64 word) = push_bit 8 (mask 24)"
  by (simp_all add: mask_numeral push_bit_eq_mult mask_eq_exp_minus_1)

lemma bit_dev_major:
  "bit (dev_major r) n \<longleftrightarrow> n < 12 \<and> bit r (n + 8) \<or> 12 \<le> n \<and> n < 32 \<and> bit r (n + 32)"
  by (auto simp: dev_major_def mask_words bit_simps ac_simps dest: bit_imp_le_length)

lemma bit_dev_minor:
  "bit (dev_minor r) n \<longleftrightarrow> n < 8 \<and> bit r n \<or> 8 \<le> n \<and> n < 32 \<and> bit r (n + 12)"
  by (auto simp: dev_minor_def mask_words bit_simps ac_simps dest: bit_imp_le_length)

lemma dev_numbers_inj:
  assumes "dev_major r = dev_major q" and "dev_minor r = dev_minor q"
  shows "r = q"
proof (rule bit_word_eqI)
  fix k :: nat
  assume "k < LENGTH(64)"
  then consider "k < 8" | "8 \<le> k" "k < 20" | "20 \<le> k" "k < 44" | "44 \<le> k" "k < 64"
    by fastforce
  then show "bit r k = bit q k"
  proof cases
    case 1
    then show ?thesis using assms(2) bit_dev_minor [of r k] bit_dev_minor [of q k] by simp
  next
    case 2
    then have "k - 8 < 12" and "k - 8 + 8 = k" by linarith+
    then show ?thesis using assms(1) bit_dev_major [of r "k - 8"] bit_dev_major [of q "k - 8"] by simp
  next
    case 3
    then have "8 \<le> k - 12" and "k - 12 < 32" and "k - 12 + 12 = k" by linarith+
    then show ?thesis using assms(2) bit_dev_minor [of r "k - 12"] bit_dev_minor [of q "k - 12"] by simp
  next
    case 4
    then have "12 \<le> k - 32" and "k - 32 < 32" and "k - 32 + 32 = k" by linarith+
    then show ?thesis using assms(1) bit_dev_major [of r "k - 32"] bit_dev_major [of q "k - 32"] by simp
  qed
qed

lemma decimal_no_colon: "CHR '':'' \<notin> set (decimal n)"
  using decimal_digits [of "CHR '':''" n] by (auto simp: less_eq_char_def)

lemma dev_text_inj: "dev_text r = dev_text q \<Longrightarrow> r = q"
proof -
  assume eq: "dev_text r = dev_text q"
  have split: "split_on (CHR '':'') (dev_text x) = [FormatUint (dev_major x), FormatUint (dev_minor x)]"
    for x
    by (simp add: dev_text_def FormatUint_def split_on_append split_on_field decimal_no_colon)
  show "r = q"
    using split [of r] split [of q] eq by (simp add: FormatUint_inj dev_numbers_inj)
qed

text \<open>
  C34: the \<open>major:minor\<close> text by which the host recognises a device is exact. Two device numbers
  have the same text only when all 64 bits agree, so a mount of another device is never taken
  for the wanted one; and both numbers fit in 32 bits.
\<close>

theorem dev_text_injective:
  "(dev_text r = dev_text q \<longleftrightarrow> r = q) \<and> dev_major r < 2 ^ 32 \<and> dev_minor r < 2 ^ 32"
proof -
  have "dev_major r AND mask 32 = dev_major r" and "dev_minor r AND mask 32 = dev_minor r"
    by (rule bit_word_eqI; auto simp: bit_and_iff bit_mask_iff bit_dev_major bit_dev_minor)+
  then have "dev_major r < 2 ^ 32" and "dev_minor r < 2 ^ 32"
    using and_mask_less' [of 32 "dev_major r"] and_mask_less' [of 32 "dev_minor r"] by simp_all
  then show ?thesis using dev_text_inj by blast
qed


section \<open>The device link\<close>

lemma ValidID_proper: "ValidID c \<Longrightarrow> proper c"
proof -
  assume c: "ValidID c"
  then obtain d ds where s: "c = d # ds" and "id_first_char d" and "list_all id_rest_char ds"
    by (auto simp: ValidID_def split: list.splits)
  then have "d \<noteq> CHR ''.''" and "CHR ''/'' \<notin> set c"
    using id_first_char_not_special [of d] id_rest_char_no_slash by (auto simp: list_all_iff)
  then show "proper c" by (auto simp: proper_def s)
qed

lemma Clean_rooted:
  "IsAbs p \<Longrightarrow> Clean p = abs_path (rev (foldl (clean_component True) [] (split_on (CHR ''/'') p)))"
  by (auto simp: Clean_def abs_path_def IsAbs_def HasPrefix_def)

lemma split_on_parts: "split_on c (p @ c # q) = split_on c p @ split_on c q"
  by (induction p) (auto split: list.split)

lemma Join_child:
  assumes "IsAbs p" and "Clean p = abs_path rs" and "list_all proper rs" and "proper c"
  shows "Join p c = abs_path (rs @ [c])"
proof -
  let ?out = "foldl (clean_component True) [] (split_on (CHR ''/'') p)"
  have "list_all proper ?out"
    by (rule foldl_clean_invariant) (auto dest: split_on_no_sep)
  then have "rev ?out = rs"
    using Clean_rooted [OF assms(1)] assms(2,3) by (auto simp: list_all_rev intro: abs_path_inj)
  moreover have "IsAbs (p @ ''/'' @ c)" and "p \<noteq> ''''"
    using assms(1) by (auto simp: IsAbs_iff)
  ultimately show ?thesis
    using assms(4) by (simp add: Join_def Clean_rooted split_on_parts split_on_field proper_no_slash
        clean_component_def proper_def)
qed

text \<open>What the poll returns was resolved from the link and is a block device.\<close>

lemma poll_device_found:
  "poll_device OS link n s = (Inr dev, s') \<Longrightarrow> osEvalSymlinks OS s' link = Inr dev
     \<and> (\<exists>st. osStat OS s' dev = Inr st \<and> fKind st = BlockDevice)"
  by (induction n arbitrary: s) (auto simp: find_device_def split: option.splits sum.splits if_splits)

text \<open>
  C32: the device the host uses comes from a direct child of the trusted device root. Whatever key the platform
  sent, and for any absolute root: when \<open>device\<close> returns a device, it is a block device, reached by resolving the
  cleaned root with the key as its one more component - the key is a proper file name, no \<open>/\<close>, not \<open>.\<close> or \<open>..\<close>,
  so the link never leaves the root. Any other key is refused, without waiting and before any file is looked at.
\<close>

theorem device_link_confined:
  assumes "IsAbs (DeviceRoot h)" and "device OS h v s = (r, s')"
  shows "\<exists>rs. list_all proper rs \<and> Clean (DeviceRoot h) = abs_path rs
    \<and> (\<forall>dev. r = Inr dev \<longrightarrow> proper (vDeviceKey v) \<and> ValidID (vDeviceKey v)
         \<and> osEvalSymlinks OS s' (abs_path (rs @ [vDeviceKey v])) = Inr dev
         \<and> (\<exists>st. osStat OS s' dev = Inr st \<and> fKind st = BlockDevice))
    \<and> (\<not> ValidID (vDeviceKey v) \<longrightarrow> r = Inl (PlainError ''invalid trusted device key'') \<and> s' = s)"
proof -
  obtain rs where rs: "list_all proper rs" "Clean (DeviceRoot h) = abs_path rs"
    using Clean_abs_form [OF assms(1)] by auto
  show ?thesis
  proof (cases "ValidID (vDeviceKey v)")
    case True
    then have "proper (vDeviceKey v)" by (rule ValidID_proper)
    note link = Join_child [OF assms(1) rs(2,1) this]
    obtain n where "poll_device OS (abs_path (rs @ [vDeviceKey v])) n s = (r, s')"
      using assms(2) True by (auto simp: device_def Let_def link)
    then show ?thesis
      using rs True \<open>proper _\<close> by (intro exI [of _ rs]) (auto dest: poll_device_found)
  next
    case False
    then show ?thesis using assms(2) rs by (auto simp: device_def)
  qed
qed

section \<open>Formatting\<close>

text \<open>
  C28: the decision to format. The host formats exactly when the file system is ext4 or xfs, no
  signature at all was found and the platform granted it; it mounts without formatting exactly
  when every signature is the wanted file system; in every other case it refuses.
\<close>

theorem formatRequired_decision:
  "(formatRequired types fs allowed = Inr True \<longleftrightarrow> fs \<in> {''ext4'', ''xfs''} \<and> types = [] \<and> allowed)
   \<and> (formatRequired types fs allowed = Inr False \<longleftrightarrow>
        fs \<in> {''ext4'', ''xfs''} \<and> types \<noteq> [] \<and> set types = {fs})
   \<and> ((\<exists>e. formatRequired types fs allowed = Inl e) \<longleftrightarrow>
        fs \<notin> {''ext4'', ''xfs''} \<or> types = [] \<and> \<not> allowed \<or> types \<noteq> [] \<and> set types \<noteq> {fs})"
proof (cases types)
  case (Cons t ts)
  have "List.find (\<lambda>signature. signature \<noteq> fs) types = None \<longleftrightarrow> set types = {fs}"
    using Cons by (auto simp: find_None_iff)
  then show ?thesis using Cons
    by (cases "List.find (\<lambda>signature. signature \<noteq> fs) types") (simp_all add: formatRequired_def)
qed (simp add: formatRequired_def)

theorem formatRequired_decision_witness:
  "formatRequired [] ''xfs'' True = Inr True \<and> formatRequired [''xfs''] ''xfs'' True = Inr False
   \<and> (\<exists>e. formatRequired [''ext4'', ''gpt''] ''ext4'' True = Inl e)"
  using formatRequired_decision [of "[]" "''xfs''" True] formatRequired_decision [of "[''xfs'']" "''xfs''" True]
    formatRequired_decision [of "[''ext4'', ''gpt'']" "''ext4''" True]
  by simp

text \<open>
  A property of the machine that only the two format tools can destroy, such as the content of
  the disks: every other command, every file-system call and waiting keep it.
\<close>

definition kept_without_mkfs :: "'o os \<Rightarrow> ('o \<Rightarrow> bool) \<Rightarrow> bool" where
  "kept_without_mkfs OS I \<longleftrightarrow>
     (\<forall>ctx name args s. I s \<longrightarrow> name \<noteq> ''mkfs.ext4'' \<longrightarrow> name \<noteq> ''mkfs.xfs'' \<longrightarrow>
        I (snd (osCombinedOutput OS ctx name args s))) \<and>
     (\<forall>ctx name args s. I s \<longrightarrow> name \<noteq> ''mkfs.ext4'' \<longrightarrow> name \<noteq> ''mkfs.xfs'' \<longrightarrow>
        I (snd (osOutput OS ctx name args s))) \<and>
     (\<forall>path s. I s \<longrightarrow> I (snd (osMkdirAll OS path s))) \<and>
     (\<forall>path s. I s \<longrightarrow> I (snd (osCreateExcl OS path s))) \<and>
     (\<forall>s. I s \<longrightarrow> I (osSleep OS s))"

lemma keptD:
  assumes "kept_without_mkfs OS I" and "I s"
  shows "osCombinedOutput OS ctx name args s = (r, s') \<Longrightarrow> name \<noteq> ''mkfs.ext4'' \<Longrightarrow>
      name \<noteq> ''mkfs.xfs'' \<Longrightarrow> I s'"
    and "osOutput OS ctx name args s = (o', s') \<Longrightarrow> name \<noteq> ''mkfs.ext4'' \<Longrightarrow>
      name \<noteq> ''mkfs.xfs'' \<Longrightarrow> I s'"
    and "osMkdirAll OS path s = (e, s') \<Longrightarrow> I s'"
    and "osCreateExcl OS path s = (c, s') \<Longrightarrow> I s'"
    and "I (osSleep OS s)"
  using assms unfolding kept_without_mkfs_def by (metis snd_conv)+

lemma kept_run [keeps_rules]:
  "kept_without_mkfs OS I \<Longrightarrow> name \<noteq> ''mkfs.ext4'' \<Longrightarrow> name \<noteq> ''mkfs.xfs'' \<Longrightarrow>
     keeps I (run OS ctx name args)"
  unfolding keeps_def run_def
  by (auto dest: keptD(1) split: prod.split option.split)

lemma kept_run_tool [keeps_rules]:
  "kept_without_mkfs OS I \<Longrightarrow> name \<noteq> ''mkfs.ext4'' \<Longrightarrow> name \<noteq> ''mkfs.xfs'' \<Longrightarrow>
     keeps I (run_tool OS ctx name args)"
  unfolding run_tool_def by (intro keeps_rules)

lemma kept_mkdir [keeps_rules]: "kept_without_mkfs OS I \<Longrightarrow> keeps I (mkdir_all OS path)"
  unfolding mkdir_all_def by (rule keeps_failing) (rule keptD(3))

lemma kept_poll: "kept_without_mkfs OS I \<Longrightarrow> I s \<Longrightarrow> I (snd (poll_device OS link n s))"
  by (induction n arbitrary: s) (auto split: option.split intro: keptD(5))

lemma kept_device [keeps_rules]: "kept_without_mkfs OS I \<Longrightarrow> keeps I (device OS h v)"
  by (simp add: keeps_def device_def Let_def kept_poll)

lemma kept_mounted [keeps_rules]: "kept_without_mkfs OS I \<Longrightarrow> keeps I (mounted OS ctx path)"
  unfolding keeps_def mounted_def
  by (auto dest: keptD(2) split: prod.split exec_output.split sum.split list.split)

lemma kept_block_placeholder [keeps_rules]:
  "kept_without_mkfs OS I \<Longrightarrow> keeps I (block_placeholder OS target)"
  unfolding block_placeholder_def
  by (intro keeps_rules, assumption)
    (auto simp: keeps_def require_def give_def raise_def dest: keptD(4)
      split: prod.split create_result.split sum.split)

lemma kept_remount_ro [keeps_rules]:
  assumes "kept_without_mkfs OS I"
  shows "keeps I (remount_ro OS ctx target)"
proof -
  have "keeps I (run OS ctx name args)" if "name \<in> {''mount'', ''umount''}" for name args
    using that by (intro kept_run assms) auto
  then have run: "I s \<Longrightarrow> run OS ctx name args s = (r, s') \<Longrightarrow> name \<in> {''mount'', ''umount''} \<Longrightarrow> I s'"
    for s name args r s'
    using keepsD by fastforce
  show ?thesis
    by (auto simp: keeps_def remount_ro_def split: prod.split sum.split dest: run)
qed

lemma keeps_if [keeps_rules]: "keeps I m \<Longrightarrow> keeps I n \<Longrightarrow> keeps I (if b then m else n)"
  by simp

lemma keeps_case_option [keeps_rules]:
  "keeps I m \<Longrightarrow> (\<And>x. keeps I (f x)) \<Longrightarrow> keeps I (case o' of None \<Rightarrow> m | Some x \<Rightarrow> f x)"
  by (simp split: option.split)

lemma keeps_case_prod [keeps_rules]:
  "(\<And>x y. keeps I (f x y)) \<Longrightarrow> keeps I (case p of (x, y) \<Rightarrow> f x y)"
  by (simp split: prod.split)

lemmas linux_ops = linux_Publish_def linux_Unmount_def linux_Expand_def publish_mounted_def
  verifyFilesystemMount_def devNumbers_def device_size_def

lemma kept_Publish: "kept_without_mkfs OS I \<Longrightarrow> keeps I (linux_Publish OS h ctx v stg target ro)"
  unfolding linux_ops by (intro keeps_rules; simp)

lemma kept_Unmount: "kept_without_mkfs OS I \<Longrightarrow> keeps I (linux_Unmount OS ctx path)"
  unfolding linux_ops by (intro keeps_rules; simp)

lemma kept_Expand: "kept_without_mkfs OS I \<Longrightarrow> keeps I (linux_Expand OS h ctx v path)"
  unfolding linux_ops by (intro keeps_rules; simp)

lemma kept_Stats:
  assumes "kept_without_mkfs OS I" and "I s"
  shows "I (snd (linux_Stats OS h ctx v path s))"
proof -
  let ?m = "if vMode v = ''block'' then
      andThen (device OS h v) (\<lambda>dev.
      andThen (device_size OS ctx dev) (\<lambda>(n, err).
      give (zero_stats\<lparr>sTotal := n\<rparr>, err)))
    else
      andThen (device OS h v) (\<lambda>dev.
      andThen (verifyFilesystemMount OS ctx v path dev) (\<lambda>_.
      andThen (reading (\<lambda>s. osStatfs OS s path)) (\<lambda>q.
      give (fs_stats q, None))))"
  have "keeps I ?m"
    unfolding linux_ops using assms(1) by (intro keeps_rules; simp)
  then show ?thesis
    using assms(2) by (auto simp: linux_Stats_def split: prod.split sum.split dest: keepsD)
qed

text \<open>
  Staging: the only way to a format is a device found, nothing mounted at the path, and a
  signature scan of that same device that came back empty, right before it.
\<close>

lemma stage_fresh_kept:
  assumes kept: "kept_without_mkfs OS I" and "I s" and run: "stage_fresh OS ctx v dev path s = (r, s')"
  shows "I s' \<or> vAllowFormat v \<and> vFSType v \<in> {''ext4'', ''xfs''}
    \<and> (\<exists>s1 b. run OS ctx ''wipefs'' [''--no-act'', ''--json'', dev] s = (Inr b, s1)
          \<and> jsonWipefs OS b = Inr [] \<and> I s1)"
proof -
  obtain q s1 where q: "Linux.run OS ctx ''wipefs'' [''--no-act'', ''--json'', dev] s = (q, s1)"
    by fastforce
  have "I s1"
    using keepsD [OF kept_run, OF kept _ _ q] assms(2) by simp
  show ?thesis
  proof (cases "\<exists>b. q = Inr b \<and> jsonWipefs OS b = Inr []
      \<and> formatRequired [] (vFSType v) (vAllowFormat v) = Inr True")
    case True
    then show ?thesis
      using q \<open>I s1\<close> formatRequired_decision [of "[]"] by auto
  next
    case no: False
    define mount where "mount = andThen (mkdir_all OS path) (\<lambda>_.
        run_tool OS ctx ''mount'' [''-t'', vFSType v, ''-o'', ''nodev,nosuid'', dev, path])"
    have mount: "keeps I mount"
      unfolding mount_def using kept by (intro keeps_rules; simp)
    have not_format: "formatRequired types (vFSType v) (vAllowFormat v) = Inr True \<Longrightarrow> q = Inr b \<Longrightarrow>
        jsonWipefs OS b \<noteq> Inr types" for b types
      using no formatRequired_decision [of types] by auto
    have "s' = s1 \<or> mount s1 = (r, s')"
      using run q unfolding stage_fresh_def mount_def [symmetric]
      by (auto simp: andThen_def pure_result_def give_def dest: not_format
          split: sum.splits prod.splits if_splits)
    then show ?thesis using keepsD [OF mount] \<open>I s1\<close> by blast
  qed
qed

text \<open>
  C11: the host never destroys data it was not told to. Take any property of the machine that
  only the format tools can break. Publishing, unmounting, expanding and measuring keep it,
  whatever fails; and so does staging, unless the volume is a file system the platform granted to
  format and, right before, nothing was mounted at the path and the signature scan of the very
  device found nothing.
\<close>

theorem linux_formats_only_blank:
  assumes kept: "kept_without_mkfs OS I" and s: "I s"
  shows "(linux_Stage OS h ctx v path s = (r, s') \<longrightarrow> I s' \<or>
      (vMode v \<noteq> ''block'' \<and> vAllowFormat v \<and> vFSType v \<in> {''ext4'', ''xfs''}
       \<and> (\<exists>dev s1 s2 s3 b. device OS h v s = (Inr dev, s1) \<and> mounted OS ctx path s1 = (Inr None, s2)
            \<and> run OS ctx ''wipefs'' [''--no-act'', ''--json'', dev] s2 = (Inr b, s3)
            \<and> jsonWipefs OS b = Inr [] \<and> I s3)))
    \<and> I (snd (linux_Publish OS h ctx v stg target ro s)) \<and> I (snd (linux_Unmount OS ctx path s))
    \<and> I (snd (linux_Expand OS h ctx v path s)) \<and> I (snd (linux_Stats OS h ctx v path s))"
proof -
  have rest: "I (snd (linux_Publish OS h ctx v stg target ro s))" "I (snd (linux_Unmount OS ctx path s))"
    "I (snd (linux_Expand OS h ctx v path s))" "I (snd (linux_Stats OS h ctx v path s))"
    using kept_Publish [OF kept] kept_Unmount [OF kept] kept_Expand [OF kept] kept_Stats [OF kept s] s
    by (auto simp: keeps_def)
  obtain d s1 where d: "device OS h v s = (d, s1)" by fastforce
  obtain m s2 where m: "mounted OS ctx path s1 = (m, s2)" by fastforce
  have "I s1" using keepsD [OF kept_device, OF kept d s] .
  then have "I s2" using keepsD [OF kept_mounted, OF kept m] by simp
  have here: "keeps I (stage_mounted OS v dev x)" "keeps I (mkdir_all OS path)" for dev x
    unfolding stage_mounted_def devNumbers_def using kept by (intro keeps_rules; simp)+
  have "I s' \<or> (vMode v \<noteq> ''block'' \<and> vAllowFormat v \<and> vFSType v \<in> {''ext4'', ''xfs''}
       \<and> (\<exists>dev s3 b. d = Inr dev \<and> m = Inr None
            \<and> run OS ctx ''wipefs'' [''--no-act'', ''--json'', dev] s2 = (Inr b, s3)
            \<and> jsonWipefs OS b = Inr [] \<and> I s3))"
    if run: "linux_Stage OS h ctx v path s = (r, s')"
  proof (cases d)
    case (Inl e)
    then show ?thesis using run d \<open>I s1\<close> by (simp add: linux_Stage_def andThen_def)
  next
    case (Inr dev)
    show ?thesis
    proof (cases "vMode v = ''block''")
      case True
      then show ?thesis
        using run d Inr \<open>I s1\<close> keepsD [OF here(2)] by (simp add: linux_Stage_def andThen_def)
    next
      case fs: False
      consider e where "m = Inl e" | "m = Inr None" | x where "m = Inr (Some x)"
        by (metis option.exhaust sum.exhaust)
      then show ?thesis
      proof cases
        case 1
        then show ?thesis using run d m Inr fs \<open>I s2\<close> by (simp add: linux_Stage_def andThen_def)
      next
        case 2
        then have "stage_fresh OS ctx v dev path s2 = (r, s')"
          using run d m Inr fs by (simp add: linux_Stage_def andThen_def)
        from stage_fresh_kept [OF kept \<open>I s2\<close> this] show ?thesis using Inr 2 fs by blast
      next
        case 3
        then have "stage_mounted OS v dev x s2 = (r, s')"
          using run d m Inr fs by (simp add: linux_Stage_def andThen_def)
        then show ?thesis using keepsD [OF here(1)] \<open>I s2\<close> by blast
      qed
    qed
  qed
  then show ?thesis using rest d m by blast
qed

text \<open>A machine for the examples: a log of the commands, one blank disk, nothing mounted.\<close>

definition log_os :: "(string \<times> string list) list os" where
  "log_os = \<lparr>
     osCombinedOutput = (\<lambda>ctx name args s. (('''', None), s @ [(name, args)])),
     osOutput = (\<lambda>ctx name args s. (ExitCode 1 (PlainError ''exit status 1''), s @ [(name, args)])),
     osEvalSymlinks = (\<lambda>s p. Inr p),
     osStat = (\<lambda>s p. Inr \<lparr>fKind = BlockDevice, fDev = 5, fIno = 7\<rparr>),
     osLstat = (\<lambda>s p. Inr \<lparr>fKind = RegularFile, fDev = 5, fIno = 7\<rparr>),
     osRdev = (\<lambda>s p. Inr 0x800),
     osStatfs = (\<lambda>s p. Inr \<lparr>qBlocks = 100, qBavail = 40, qBfree = 50, qFiles = 10, qFfree = 4, qBsize = 4096\<rparr>),
     osMkdirAll = (\<lambda>p s. (None, s)),
     osCreateExcl = (\<lambda>p s. (Created, s)),
     osSleep = (\<lambda>s. s),
     osRounds = (\<lambda>t s. 0),
     jsonFindmnt = (\<lambda>b. Inr []),
     jsonWipefs = (\<lambda>b. Inr []),
     numError = (\<lambda>s e. PlainError s)\<rparr>"

definition log_linux :: linux where
  "log_linux = \<lparr>DeviceRoot = ''/dev'', DiscoveryTimeout = 0\<rparr>"

definition log_volume :: volume where
  "log_volume = zero_volume\<lparr>vID := ''volume-1'', vMode := ''mount'', vFSType := ''ext4'',
     vDeviceKey := ''platform-volume-1'', vAllowFormat := True\<rparr>"

definition no_mkfs :: "(string \<times> string list) list \<Rightarrow> bool" where
  "no_mkfs s = list_all (\<lambda>(name, _). name \<noteq> ''mkfs.ext4'' \<and> name \<noteq> ''mkfs.xfs'') s"

lemma kept_log_os: "kept_without_mkfs log_os no_mkfs"
  by (auto simp: kept_without_mkfs_def log_os_def no_mkfs_def)

lemma log_volume_valid: "ValidID (vDeviceKey log_volume)"
  by (simp add: log_volume_def ValidID_def id_first_char_def id_rest_char_def less_eq_char_def)

theorem linux_formats_only_blank_witness:
  "no_mkfs (snd (linux_Stage log_os log_linux None (log_volume\<lparr>vAllowFormat := False\<rparr>) ''/s'' []))"
proof -
  have start: "no_mkfs []" by (simp add: no_mkfs_def)
  obtain r s' where run: "linux_Stage log_os log_linux None (log_volume\<lparr>vAllowFormat := False\<rparr>) ''/s'' [] = (r, s')"
    by fastforce
  from linux_formats_only_blank [OF kept_log_os start, THEN conjunct1, rule_format, OF run]
  show ?thesis by (simp add: run)
qed

lemmas linux_run = linux_Stage_def stage_fresh_def make_filesystem_def run_tool_def run_def device_def
  mkdir_all_def mounted_def find_device_def formatRequired_def proc_run

lemma TrimSpace_empty [simp]: "TrimSpace '''' = ''''"
  by (simp add: TrimSpace_def)

section \<open>Usage figures\<close>

text \<open>
  C33: usage figures do not wrap. As long as the size of the file system in bytes is below $2^{63}$ and
  the kernel's counts are consistent, the reported numbers are the exact products, the free
  part never exceeds the total, and used and total differ by the free blocks.
\<close>

theorem linux_stats_exact:
  assumes "unat (qBlocks q) * unat (qBsize q) < 2 ^ 63"
    and "unat (qBfree q) \<le> unat (qBlocks q)" and "unat (qBavail q) \<le> unat (qBfree q)"
  shows "sTotal (fs_stats q) = int (unat (qBlocks q) * unat (qBsize q))
    \<and> sAvailable (fs_stats q) = int (unat (qBavail q) * unat (qBsize q))
    \<and> sUsed (fs_stats q) = sTotal (fs_stats q) - int (unat (qBfree q) * unat (qBsize q))
    \<and> 0 \<le> sAvailable (fs_stats q) \<and> sAvailable (fs_stats q) + sUsed (fs_stats q) \<le> sTotal (fs_stats q)"
proof -
  have prod: "sint (a * b) = int (unat a * unat b)" if "unat a * unat b < 2 ^ 63" for a b :: "64 word"
  proof -
    have "unat (a * b) = unat a * unat b"
      using that by (simp add: unat_mult_lem [THEN iffD1])
    moreover have "sint x = int (unat x)" if "unat x < 2 ^ 63" for x :: "64 word"
    proof -
      have "uint x < 2 ^ 63" unfolding uint_nat using of_nat_less_iff [of "unat x" "2 ^ 63"] that by simp
      moreover have "- (2 ^ 63) \<le> uint x"
        by (rule order_trans [OF _ uint_ge_0]) simp
      ultimately have "signed_take_bit 63 (uint x) = uint x"
        by (rule signed_take_bit_int_eq_self [rotated])
      then show ?thesis by (simp add: sint_uint)
    qed
    ultimately show ?thesis using that by metis
  qed
  have "unat (qBavail q) * unat (qBsize q) < 2 ^ 63"
    and "(unat (qBlocks q) - unat (qBfree q)) * unat (qBsize q) < 2 ^ 63"
    using assms by (meson diff_le_self le_trans mult_le_mono1 order_le_less_trans)+
  moreover have "unat (qBlocks q - qBfree q) = unat (qBlocks q) - unat (qBfree q)"
    using assms(2) by (simp add: unat_sub word_le_nat_alt)
  moreover have "unat (qBfree q) * unat (qBsize q) \<le> unat (qBlocks q) * unat (qBsize q)"
    and "unat (qBavail q) * unat (qBsize q) \<le> unat (qBfree q) * unat (qBsize q)"
    using assms(2,3) by (simp_all add: mult_le_mono1)
  ultimately show ?thesis
    using assms(1) by (simp add: fs_stats_def prod diff_mult_distrib of_nat_diff del: of_nat_mult)
qed

theorem linux_stats_exact_witness:
  "sTotal (fs_stats \<lparr>qBlocks = 100, qBavail = 40, qBfree = 50, qFiles = 10, qFfree = 4, qBsize = 4096\<rparr>) = 409600"
  using linux_stats_exact [of "\<lparr>qBlocks = 100, qBavail = 40, qBfree = 50, qFiles = 10, qFfree = 4, qBsize = 4096\<rparr>"]
  by simp

theorem device_link_confined_witness:
  "device log_os (log_linux\<lparr>DeviceRoot := ''/dev//disk/../by-key/''\<rparr>) log_volume [] = (Inr ''/dev/by-key/platform-volume-1'', [])
   \<and> device log_os log_linux (log_volume\<lparr>vDeviceKey := ''../sda''\<rparr>) [] = (Inl (PlainError ''invalid trusted device key''), [])"
proof -
  let ?h = "log_linux\<lparr>DeviceRoot := ''/dev//disk/../by-key/''\<rparr>"
  obtain dev where dev: "device log_os ?h log_volume [] = (Inr dev, [])"
    using log_volume_valid by (simp add: device_def find_device_def log_os_def)
  have "IsAbs (DeviceRoot ?h)" by (simp add: IsAbs_iff)
  from device_link_confined [OF this dev] obtain rs where rs: "list_all proper rs" "Clean (DeviceRoot ?h) = abs_path rs"
    and link: "dev = abs_path (rs @ [''platform-volume-1''])"
    by (auto simp: log_os_def log_volume_def)
  have "Clean (DeviceRoot ?h) = abs_path [''dev'', ''by-key'']"
    by (simp add: Clean_def clean_component_def abs_path_def IsAbs_iff)
  then have "rs = [''dev'', ''by-key'']"
    using rs by (auto simp: proper_def intro: abs_path_inj)
  then have good: "device log_os ?h log_volume [] = (Inr ''/dev/by-key/platform-volume-1'', [])"
    using dev link by (simp add: abs_path_def)
  have key: "\<not> ValidID (vDeviceKey (log_volume\<lparr>vDeviceKey := ''../sda''\<rparr>))"
    by (simp add: ValidID_def id_first_char_def)
  have root: "IsAbs (DeviceRoot log_linux)" by (simp add: log_linux_def IsAbs_iff)
  obtain r s' where bad: "device log_os log_linux (log_volume\<lparr>vDeviceKey := ''../sda''\<rparr>) [] = (r, s')"
    by fastforce
  from device_link_confined [OF root bad] key have "r = Inl (PlainError ''invalid trusted device key'') \<and> s' = []"
    by blast
  then show ?thesis using good bad by simp
qed

end
