(* ===== verification/LinuxMounts.thy ===== *)
theory LinuxMounts
  imports LinuxProps
begin

text \<open>
  What the Linux host leaves mounted. The kernel's mount table is a parameter \<open>mnt\<close> that reads it off the
  machine's state; \<open>mount_tools\<close> says how the documented behaviour of \<open>findmnt\<close>, \<open>mount\<close> and \<open>umount\<close> shows in it.
  A staging or a publication that succeeds has the table it promises, and one that fails leaves the table as it was.
\<close>

section \<open>What the tools do to the mount table\<close>













section \<open>Staging\<close>





section \<open>Publishing\<close>











section \<open>A machine with a mount table\<close>















end
