(* ===== verification/Transport.thy ===== *)
theory Transport
  imports Engine GoText
begin

text \<open>
  \<^verbatim>\<open>internal/transport/http.go\<close>: the HTTP handler in front of the engine, the client the drivers
  call it with, and the TLS configuration of both ends. JSON, URL parsing, certificates and the
  wire are parameters: the records \<open>json\<close>, \<open>files\<close> and the function that sends a request. The
  handler's order of checks, the mapping of errors to status codes, the limits on bodies and
  what the client makes of an answer are defined here.
\<close>

section \<open>The interface\<close>

text \<open>\<open>Caller\<close>: one call of the Storage API on the state behind it.\<close>

type_synonym 'a caller = "ctx \<Rightarrow> string \<Rightarrow> request \<Rightarrow> 'a \<Rightarrow> (response \<times> go_error option) \<times> 'a"

text \<open>
  A body as a decoder sees it through a size limit: the bytes that may be read, and whether the
  reader then fails because more were sent (\<open>http.MaxBytesReader\<close>) or just ends
  (\<open>io.LimitReader\<close>).
\<close>

record limited =
  lBytes :: string
  lFails :: bool

definition max_bytes_reader :: "nat \<Rightarrow> string \<Rightarrow> limited" where
  "max_bytes_reader n body = \<lparr>lBytes = take n body, lFails = n < length body\<rparr>"

definition limit_reader :: "nat \<Rightarrow> string \<Rightarrow> limited" where
  "limit_reader n body = \<lparr>lBytes = take n body, lFails = False\<rparr>"

text \<open>
  \<open>encoding/json\<close>: decoding a request strictly (unknown fields are refused) leaves the rest of the
  input; \<open>atEOF\<close> says that a further \<open>Decode\<close> returns \<open>io.EOF\<close>.
\<close>

record json =
  encRequest :: "request \<Rightarrow> go_error + string"
  encResponse :: "response \<Rightarrow> string"
  encError :: "string \<times> string \<Rightarrow> string"
  decRequest :: "limited \<Rightarrow> (request \<times> limited) option"
  atEOF :: "limited \<Rightarrow> bool"
  decResponse :: "limited \<Rightarrow> response \<times> go_error option"
  decError :: "limited \<Rightarrow> (string \<times> string) option"

section \<open>The handler\<close>

record http_request =
  qMethod :: string
  qPath :: string
  qTLS :: "(nat \<times> string list list) option"
  qBody :: string

record http_response =
  wStatus :: nat
  wContentType :: string
  wBody :: string

text \<open>\<open>qTLS\<close>: the number of verified chains and, for each peer certificate, its URI names.\<close>

definition http_status :: "string \<Rightarrow> nat" where
  "http_status code =
     (if code = ''PermissionDenied'' then 403
      else if code = ''Unauthenticated'' then 401
      else if code = ''NotFound'' then 404
      else if code = ''AlreadyExists'' \<or> code = ''FailedPrecondition'' then 409
      else if code = ''Internal'' then 500
      else 400)"

definition wire_error :: "go_error \<Rightarrow> string \<times> string" where
  "wire_error err =
     (case errors_As_model err of
        Some me \<Rightarrow> me
      | None \<Rightarrow> (''Internal'', ''storage operation failed''))"

definition reject :: "json \<Rightarrow> go_error \<Rightarrow> http_response" where
  "reject J err = \<lparr>wStatus = http_status (fst (wire_error err)), wContentType = ''application/json'',
     wBody = encError J (wire_error err)\<rparr>"

definition http_not_found :: http_response where
  "http_not_found = \<lparr>wStatus = 404, wContentType = ''text/plain; charset=utf-8'',
     wBody = ''404 page not found'' @ [CHR 0x0A]\<rparr>"

text \<open>Who the peer is: the checks before anything of the request is read.\<close>

definition authenticate :: "config \<Rightarrow> http_request \<Rightarrow> go_error + principal" where
  "authenticate cfg q =
     (case qTLS q of
        None \<Rightarrow> Inl (ModelError ''Unauthenticated'' ''machine certificate required'')
      | Some (verified, certs) \<Rightarrow>
          if verified = 0 \<or> certs = [] then
            Inl (ModelError ''Unauthenticated'' ''machine certificate required'')
          else
            case hd certs of
              [uri] \<Rightarrow>
                (case fmlookup (Principals cfg) uri of
                   None \<Rightarrow> Inl (ModelError ''PermissionDenied'' ''unregistered principal'')
                 | Some p \<Rightarrow> Inr p)
            | _ \<Rightarrow> Inl (ModelError ''Unauthenticated'' ''exactly one registered URI SAN required''))"

definition handler ::
  "json \<Rightarrow> config \<Rightarrow> (principal \<Rightarrow> string \<Rightarrow> request \<Rightarrow> 's \<Rightarrow> (response \<times> go_error option) \<times> 's)
     \<Rightarrow> http_request \<Rightarrow> 's \<Rightarrow> http_response \<times> 's" where
  "handler J cfg call q s =
     (case authenticate cfg q of
        Inl err \<Rightarrow> (reject J err, s)
      | Inr p \<Rightarrow>
          if qMethod q \<noteq> ''POST'' \<or> \<not> HasPrefix (qPath q) ''/v1/'' then (http_not_found, s)
          else
            case decRequest J (max_bytes_reader (32 * 1024) (qBody q)) of
              None \<Rightarrow> (reject J (ModelError ''InvalidArgument'' ''invalid request body''), s)
            | Some (request, rest) \<Rightarrow>
                if \<not> atEOF J rest then
                  (reject J (ModelError ''InvalidArgument'' ''extra request data''), s)
                else
                  (case call p (TrimPrefix (qPath q) ''/v1/'') request s of
                     ((out, Some err), s) \<Rightarrow> (reject J err, s)
                   | ((out, None), s) \<Rightarrow>
                       (\<lparr>wStatus = 200, wContentType = ''application/json'', wBody = encResponse J out\<rparr>, s)))"

section \<open>The client\<close>

text \<open>
  \<open>parseURL\<close> is the part of \<open>http.NewRequest\<close> that may fail; it yields the path. \<open>send\<close> is
  \<open>http.Client.Do\<close> with its TLS configuration: no answer, or a response and the next state.
\<close>

definition client_Call ::
  "json \<Rightarrow> (string \<Rightarrow> go_error + string)
     \<Rightarrow> (ctx \<Rightarrow> string \<Rightarrow> string \<Rightarrow> string \<Rightarrow> 's \<Rightarrow> http_response option \<times> 's)
     \<Rightarrow> string \<Rightarrow> 's caller" where
  "client_Call J parseURL send url ctx op r s =
     (case encRequest J r of
        Inl err \<Rightarrow> ((zero_response, Some err), s)
      | Inr body \<Rightarrow>
          (case parseURL (url @ ''/v1/'' @ op) of
             Inl err \<Rightarrow> ((zero_response, Some err), s)
           | Inr path \<Rightarrow>
               (case send ctx ''POST'' path body s of
                  (None, s) \<Rightarrow> ((zero_response, Err ''Unavailable'' ''storage API unavailable''), s)
                | (Some res, s) \<Rightarrow>
                    let dec = limit_reader (2 ^ 20) (wBody res)
                    in if wStatus res \<noteq> 200 then
                         (case decError J dec of
                            None \<Rightarrow> ((zero_response, Err ''Unavailable'' ''invalid API error response''), s)
                          | Some (code, message) \<Rightarrow> ((zero_response, Some (ModelError code message)), s))
                       else (decResponse J dec, s))))"

section \<open>TLS\<close>

datatype client_auth = NoClientCert | RequireAndVerifyClientCert

record ('pool, 'pair) tls_config =
  tMinVersion :: nat
  tCertificates :: "'pair list"
  tRootCAs :: "'pool option"
  tClientCAs :: "'pool option"
  tClientAuth :: client_auth

record ('pool, 'pair) files =
  ReadFile :: "string \<Rightarrow> go_error + string"
  CertPool :: "string \<Rightarrow> 'pool option"
  LoadPair :: "string \<Rightarrow> string \<Rightarrow> go_error + 'pair"

text \<open>\<open>tls.VersionTLS13\<close> is 0x0304.\<close>

definition TLS ::
  "('pool, 'pair) files \<Rightarrow> string \<Rightarrow> string \<Rightarrow> string \<Rightarrow> bool \<Rightarrow> go_error + ('pool, 'pair) tls_config" where
  "TLS F ca cert key server =
     (case ReadFile F ca of
        Inl err \<Rightarrow> Inl err
      | Inr pem \<Rightarrow>
          (case CertPool F pem of
             None \<Rightarrow> Inl (PlainError ''invalid CA'')
           | Some pool \<Rightarrow>
               (case LoadPair F cert key of
                  Inl err \<Rightarrow> Inl err
                | Inr pair \<Rightarrow>
                    let c = \<lparr>tMinVersion = 0x0304, tCertificates = [pair], tRootCAs = Some pool,
                             tClientCAs = None, tClientAuth = NoClientCert\<rparr>
                    in Inr (if server
                            then c\<lparr>tClientCAs := Some pool, tClientAuth := RequireAndVerifyClientCert\<rparr>
                            else c))))"

record ('pool, 'pair) client =
  cURL :: string
  cTLS :: "('pool, 'pair) tls_config"
  cTimeoutSeconds :: nat
  cFollowsRedirects :: bool

definition NewClient ::
  "('pool, 'pair) files \<Rightarrow> string \<Rightarrow> string \<Rightarrow> string \<Rightarrow> string \<Rightarrow> go_error + ('pool, 'pair) client" where
  "NewClient F url ca cert key =
     (if \<not> HasPrefix url ''https://'' then Inl (PlainError ''HTTPS required'')
      else
        case TLS F ca cert key False of
          Inl err \<Rightarrow> Inl err
        | Inr tc \<Rightarrow> Inr \<lparr>cURL = TrimRight url (CHR ''/''), cTLS = tc, cTimeoutSeconds = 15,
                         cFollowsRedirects = False\<rparr>)"

section \<open>Service\<close>

text \<open>The handler over the engine, and \<open>testkit.Local\<close>, the caller without a wire.\<close>

definition server ::
  "json \<Rightarrow> ('tx, 'b) bolt \<Rightarrow> ('b, platform) codec \<Rightarrow> ('b, audit_entry) codec
     \<Rightarrow> ((response \<times> go_error option, 'tx) tx_fun \<Rightarrow> (response \<times> go_error option, 'tx) tx_fun)
     \<Rightarrow> config \<Rightarrow> call_env \<Rightarrow> http_request \<Rightarrow> 'tx \<Rightarrow> http_response \<times> 'tx" where
  "server J B cds cda upd cfg env = handler J cfg (Call B cds cda upd cfg env)"

end
