(* ===== verification/TransportSpec.thy ===== *)
theory TransportSpec
  imports Transport EngineSpec
begin

text \<open>
  The transport's contract: nothing reaches the engine except one strictly decoded request of a
  registered certificate, and a call through client, wire and handler returns what the call on
  the engine itself returns, with every error reduced to its code and message.
\<close>

section \<open>What the handler lets through\<close>

lemma authenticate_Inr:
  "authenticate cfg q = Inr p \<longleftrightarrow>
     (\<exists>verified uri certs. qTLS q = Some (verified, [uri] # certs) \<and> verified \<noteq> 0
        \<and> fmlookup (Principals cfg) uri = Some p)"
  by (cases "qTLS q")
    (auto simp: authenticate_def neq_Nil_conv split: list.splits option.splits prod.splits)

text \<open>
  C17: the handler is the only door and it is locked. Whatever a peer sends, the state changes or
  the answer is 200 only if the connection had a verified chain, its leaf certificate carries
  exactly one URI name and that name is a registered principal, the request is a \<open>POST\<close> below
  \<open>/v1/\<close>, and its body within 32 KiB is exactly one strictly decoded request; then the new state
  and the answer are those of the engine's call for that principal, operation and request. A
  body over the limit never gets there, as long as a decoder reports the failing reader.
\<close>

theorem handler_gate:
  assumes "handler J cfg call q s = (w, s')" and "s' \<noteq> s \<or> wStatus w = 200"
  shows "\<exists>verified uri certs p op request rest out e.
      qTLS q = Some (verified, [uri] # certs) \<and> verified \<noteq> 0 \<and> fmlookup (Principals cfg) uri = Some p
      \<and> qMethod q = ''POST'' \<and> qPath q = ''/v1/'' @ op
      \<and> decRequest J (max_bytes_reader 32768 (qBody q)) = Some (request, rest) \<and> atEOF J rest
      \<and> call p op request s = ((out, e), s')
      \<and> w = (case e of Some err \<Rightarrow> reject J err
              | None \<Rightarrow> \<lparr>wStatus = 200, wContentType = ''application/json'', wBody = encResponse J out\<rparr>)
      \<and> ((\<forall>n body r rest. decRequest J (max_bytes_reader n body) = Some (r, rest) \<longrightarrow> atEOF J rest
            \<longrightarrow> length body \<le> n) \<longrightarrow> length (qBody q) \<le> 32768)"
proof -
  have no200: "wStatus (reject J err) \<noteq> 200" for err
    by (simp add: reject_def http_status_def)
  obtain p where p: "authenticate cfg q = Inr p"
    using assms no200 by (cases "authenticate cfg q") (auto simp: handler_def)
  have path: "qMethod q = ''POST''" "HasPrefix (qPath q) ''/v1/''"
    using assms p by (auto simp: handler_def http_not_found_def split: if_splits)
  obtain request rest where dec: "decRequest J (max_bytes_reader 32768 (qBody q)) = Some (request, rest)"
    using assms p path no200
    by (cases "decRequest J (max_bytes_reader 32768 (qBody q))") (auto simp: handler_def)
  have eof: "atEOF J rest"
    using assms p path dec no200 by (cases "atEOF J rest") (auto simp: handler_def)
  define op where "op = TrimPrefix (qPath q) ''/v1/''"
  have "qPath q = ''/v1/'' @ op"
    using path(2) unfolding op_def HasPrefix_iff by (metis TrimPrefix_append)
  moreover obtain out e s1 where call: "call p op request s = ((out, e), s1)" by (metis prod.exhaust)
  moreover have "w = (case e of Some err \<Rightarrow> reject J err
        | None \<Rightarrow> \<lparr>wStatus = 200, wContentType = ''application/json'', wBody = encResponse J out\<rparr>) \<and> s1 = s'"
    using assms(1) p path dec eof call by (auto simp: handler_def op_def split: option.splits)
  moreover obtain verified uri certs where "qTLS q = Some (verified, [uri] # certs)" "verified \<noteq> 0"
    "fmlookup (Principals cfg) uri = Some p"
    using p by (auto simp: authenticate_Inr)
  ultimately show ?thesis using path(1) dec eof by blast
qed

section \<open>Calls over the wire\<close>

text \<open>A wire that delivers: the handler answers a peer with one registered name.\<close>

definition wire ::
  "string \<Rightarrow> (http_request \<Rightarrow> 's \<Rightarrow> http_response \<times> 's) \<Rightarrow> ctx \<Rightarrow> string \<Rightarrow> string \<Rightarrow> string \<Rightarrow> 's
     \<Rightarrow> http_response option \<times> 's" where
  "wire uri serve ctx method path body s =
     (case serve \<lparr>qMethod = method, qPath = path, qTLS = Some (1, [[uri]]), qBody = body\<rparr> s of
        (w, s) \<Rightarrow> (Some w, s))"

definition received_error :: "go_error \<Rightarrow> go_error" where
  "received_error err = (case wire_error err of (code, message) \<Rightarrow> ModelError code message)"

lemma client_over_handler:
  assumes "fmlookup (Principals cfg) uri = Some p"
    and "encRequest J r = Inr body"
    and "decRequest J (max_bytes_reader 32768 body) = Some (r, rest)" and "atEOF J rest"
    and "parseURL (url @ ''/v1/'' @ op) = Inr (''/v1/'' @ op)"
    and "call p op r s = ((out, e), s')"
    and "e = None \<longrightarrow> decResponse J (limit_reader (2 ^ 20) (encResponse J out)) = (out, None)"
    and "\<forall>err. e = Some err \<longrightarrow>
      decError J (limit_reader (2 ^ 20) (encError J (wire_error err))) = Some (wire_error err)"
  shows "client_Call J parseURL (wire uri (handler J cfg call)) url ctx op r s
    = ((if e = None then out else zero_response, map_option received_error e), s')"
proof -
  have auth: "authenticate cfg \<lparr>qMethod = ''POST'', qPath = path, qTLS = Some (1, [[uri]]), qBody = body\<rparr>
      = Inr p" for path
    using assms(1) by (simp add: authenticate_def)
  have pre: "HasPrefix (''/v1/'' @ op) ''/v1/''" "TrimPrefix (''/v1/'' @ op) ''/v1/'' = op"
    by (simp_all only: HasPrefix_append TrimPrefix_append)
  show ?thesis
  proof (cases e)
    case None
    then show ?thesis
      using assms auth pre by (simp add: client_Call_def wire_def handler_def)
  next
    case (Some err)
    have "wStatus (reject J err) \<noteq> 200"
      by (simp add: reject_def http_status_def)
    moreover have "wBody (reject J err) = encError J (wire_error err)"
      by (simp add: reject_def)
    ultimately show ?thesis
      using assms auth pre Some
      by (simp add: client_Call_def wire_def handler_def received_error_def split: prod.split)
  qed
qed

text \<open>
  C18: what a remote call does and answers. When the peer's certificate is registered for the
  principal, the encoded request fits 32 KiB and decodes to itself, and the answer fits 1 MiB and
  decodes to itself, \<open>Client.Call\<close> through the handler leaves the engine's database as the direct
  call does. When the direct call succeeds it returns the same response. When it fails, the client gets no response beside
  the error: a coded error with the same code and message, and any
  error that is not the service's own, of the database or the context, as an internal one that tells nothing of the cause.
\<close>

theorem remote_call:
  assumes "fmlookup (Principals cfg) uri = Some p"
    and "encRequest J r = Inr body"
    and "decRequest J (max_bytes_reader 32768 body) = Some (r, rest)" and "atEOF J rest"
    and "parseURL (url @ ''/v1/'' @ op) = Inr (''/v1/'' @ op)"
    and "Call B cds cda upd cfg env p op r db = ((out, e), db')"
    and "e = None \<longrightarrow> decResponse J (limit_reader (2 ^ 20) (encResponse J out)) = (out, None)"
    and "\<forall>err. e = Some err \<longrightarrow>
      decError J (limit_reader (2 ^ 20) (encError J (wire_error err))) = Some (wire_error err)"
  shows "client_Call J parseURL (wire uri (server J B cds cda upd cfg env)) url ctx op r db
    = (case e of
         None \<Rightarrow> ((out, None), db')
       | Some err \<Rightarrow>
           ((zero_response, Some (case errors_As_model err of
               Some (code, message) \<Rightarrow> ModelError code message
             | None \<Rightarrow> ModelError ''Internal'' ''storage operation failed'')), db'))"
proof -
  have "client_Call J parseURL (wire uri (server J B cds cda upd cfg env)) url ctx op r db
    = ((if e = None then out else zero_response, map_option received_error e), db')"
    unfolding server_def by (rule client_over_handler) (fact assms)+
  then show ?thesis by (simp add: received_error_def wire_error_def split: option.split)
qed

section \<open>Instances\<close>

definition demo_uri :: string where
  "demo_uri = ''spiffe://storage.example.cloud/node/vm-a''"

definition demo_config :: config where
  "demo_config = ex_config\<lparr>Principals := fmupd demo_uri (ex_node ''t1'' ''vm-a'') fmempty\<rparr>"

text \<open>A codec for one exchange: the empty request, answers about one instance, and errors without a colon in their code.\<close>

definition demo_json :: json where
  "demo_json = \<lparr>
     encRequest = (\<lambda>r. if r = zero_request then Inr ''{}'' else Inl (PlainError ''json'')),
     encResponse = (\<lambda>out. ''{instance}''),
     encError = (\<lambda>(code, message). code @ '':'' @ message),
     decRequest = (\<lambda>b. if lBytes b = ''{}'' then Some (zero_request, b\<lparr>lBytes := ''''\<rparr>) else None),
     atEOF = (\<lambda>b. lBytes b = '''' \<and> \<not> lFails b),
     decResponse = (\<lambda>b. (zero_response\<lparr>oInstance := Some (ex_instance ''vm-a'' ''t1'')\<rparr>, None)),
     decError = (\<lambda>b. case split_on (CHR '':'') (lBytes b) of
        code # rest \<Rightarrow> Some (code, join_with (CHR '':'') rest) | [] \<Rightarrow> None)\<rparr>"

definition demo_request :: "string \<Rightarrow> http_request" where
  "demo_request body = \<lparr>qMethod = ''POST'', qPath = ''/v1/NodeSelf'', qTLS = Some (1, [[demo_uri]]), qBody = body\<rparr>"

lemma demo_self: "apply_op demo_config ex_env (ex_node ''t1'' ''vm-a'') ''NodeSelf'' zero_request s
    = (zero_response\<lparr>oInstance := Some (ex_instance ''vm-a'' ''t1'')\<rparr>, None, s)"
  by (simp add: apply_op_def node_op_def engine_instance_def demo_config_def ex_defs)

lemma demo_call:
  "\<exists>db'. Call mem_bolt ex_states ex_audits mem_update demo_config ex_env (ex_node ''t1'' ''vm-a'') ''NodeSelf''
     zero_request (ex_db ex_platform) = ((zero_response\<lparr>oInstance := Some (ex_instance ''vm-a'' ''t1'')\<rparr>, None), db')"
proof -
  obtain out e db' where run: "Call mem_bolt ex_states ex_audits mem_update demo_config ex_env
      (ex_node ''t1'' ''vm-a'') ''NodeSelf'' zero_request (ex_db ex_platform) = ((out, e), db')"
    by (metis prod.exhaust)
  then have "e = None \<and> out = zero_response\<lparr>oInstance := Some (ex_instance ''vm-a'' ''t1'')\<rparr>"
    using demo_self by (auto simp: Call_def mem_update_def call_tx_def split: sum.splits prod.splits if_splits)
  then show ?thesis using run by blast
qed

lemma demo_denied:
  "\<exists>out db'. Call mem_bolt ex_states ex_audits mem_update demo_config ex_env (ex_node ''t1'' ''vm-a'') ''GetVolume''
     zero_request (ex_db ex_platform)
     = ((out, Some (ModelError ''PermissionDenied'' ''node identity cannot manage cloud resources'')), db')"
proof -
  obtain out e db' where run: "Call mem_bolt ex_states ex_audits mem_update demo_config ex_env
      (ex_node ''t1'' ''vm-a'') ''GetVolume'' zero_request (ex_db ex_platform) = ((out, e), db')"
    by (metis prod.exhaust)
  have op: "apply_op demo_config ex_env (ex_node ''t1'' ''vm-a'') ''GetVolume'' zero_request ex_platform
      = (zero_response, Err ''PermissionDenied'' ''node identity cannot manage cloud resources'', ex_platform)"
    by (simp add: apply_op_def node_op_def engine_instance_def demo_config_def ex_defs)
  have "e = Some (ModelError ''PermissionDenied'' ''node identity cannot manage cloud resources'')"
    using run op by (auto simp: Call_def mem_update_def call_tx_def Err_def split: sum.splits prod.splits if_splits)
  then show ?thesis using run by blast
qed

theorem remote_call_witness:
  "\<exists>db' db''. client_Call demo_json (\<lambda>u. Inr (drop 8 u))
     (wire demo_uri (server demo_json mem_bolt ex_states ex_audits mem_update demo_config ex_env))
     ''https://'' None ''NodeSelf'' zero_request (ex_db ex_platform)
     = ((zero_response\<lparr>oInstance := Some (ex_instance ''vm-a'' ''t1'')\<rparr>, None), db')
   \<and> client_Call demo_json (\<lambda>u. Inr (drop 8 u))
     (wire demo_uri (server demo_json mem_bolt ex_states ex_audits mem_update demo_config ex_env))
     ''https://'' None ''GetVolume'' zero_request (ex_db ex_platform)
     = ((zero_response, Some (ModelError ''PermissionDenied'' ''node identity cannot manage cloud resources'')), db'')"
proof -
  obtain db' where run: "Call mem_bolt ex_states ex_audits mem_update demo_config ex_env (ex_node ''t1'' ''vm-a'')
      ''NodeSelf'' zero_request (ex_db ex_platform)
      = ((zero_response\<lparr>oInstance := Some (ex_instance ''vm-a'' ''t1'')\<rparr>, None), db')"
    using demo_call by blast
  obtain out db'' where denied: "Call mem_bolt ex_states ex_audits mem_update demo_config ex_env (ex_node ''t1'' ''vm-a'') ''GetVolume''
     zero_request (ex_db ex_platform)
     = ((out, Some (ModelError ''PermissionDenied'' ''node identity cannot manage cloud resources'')), db'')"
    using demo_denied by blast
  note remote = remote_call [where body = "''{}''" and rest = "\<lparr>lBytes = '''', lFails = False\<rparr>" and J = demo_json
      and cfg = demo_config and uri = demo_uri and url = "''https://''" and parseURL = "\<lambda>u. Inr (drop 8 u)" and ctx = None]
  have "client_Call demo_json (\<lambda>u. Inr (drop 8 u))
     (wire demo_uri (server demo_json mem_bolt ex_states ex_audits mem_update demo_config ex_env))
     ''https://'' None ''NodeSelf'' zero_request (ex_db ex_platform)
     = ((zero_response\<lparr>oInstance := Some (ex_instance ''vm-a'' ''t1'')\<rparr>, None), db')"
    by (subst remote [OF _ _ _ _ _ run]) (simp_all add: demo_json_def demo_config_def max_bytes_reader_def)
  moreover have "client_Call demo_json (\<lambda>u. Inr (drop 8 u))
     (wire demo_uri (server demo_json mem_bolt ex_states ex_audits mem_update demo_config ex_env))
     ''https://'' None ''GetVolume'' zero_request (ex_db ex_platform)
     = ((zero_response, Some (ModelError ''PermissionDenied'' ''node identity cannot manage cloud resources'')), db'')"
    by (subst remote [OF _ _ _ _ _ denied])
      (simp_all add: demo_json_def demo_config_def max_bytes_reader_def limit_reader_def wire_error_def)
  ultimately show ?thesis by blast
qed

theorem handler_gate_witness:
  "\<exists>w s'. handler demo_json demo_config (Call mem_bolt ex_states ex_audits mem_update demo_config ex_env)
      (demo_request ''{}'') (ex_db ex_platform) = (w, s') \<and> wStatus w = 200
    \<and> handler demo_json demo_config (Call mem_bolt ex_states ex_audits mem_update demo_config ex_env)
      (demo_request (''{}'' @ replicate 40000 (CHR '' ''))) (ex_db ex_platform)
      \<noteq> (w, s')"
proof -
  let ?call = "Call mem_bolt ex_states ex_audits mem_update demo_config ex_env"
  obtain db' where run: "?call (ex_node ''t1'' ''vm-a'') ''NodeSelf'' zero_request (ex_db ex_platform)
      = ((zero_response\<lparr>oInstance := Some (ex_instance ''vm-a'' ''t1'')\<rparr>, None), db')"
    using demo_call by blast
  have auth: "authenticate demo_config (demo_request b) = Inr (ex_node ''t1'' ''vm-a'')" for b
    by (simp add: authenticate_def demo_request_def demo_config_def)
  have path: "qMethod (demo_request b) = ''POST''" "HasPrefix (qPath (demo_request b)) ''/v1/''"
    "TrimPrefix (qPath (demo_request b)) ''/v1/'' = ''NodeSelf''" "qBody (demo_request b) = b" for b
    by (simp_all add: demo_request_def HasPrefix_def TrimPrefix_def)
  have dec: "decRequest demo_json (max_bytes_reader 32768 ''{}'')
      = Some (zero_request, \<lparr>lBytes = '''', lFails = False\<rparr>)"
    "atEOF demo_json \<lparr>lBytes = '''', lFails = False\<rparr>"
    by (simp_all add: demo_json_def max_bytes_reader_def)
  obtain w where ok: "handler demo_json demo_config ?call (demo_request ''{}'') (ex_db ex_platform) = (w, db')"
    and w: "wStatus w = 200"
    using run by (simp add: handler_def auth path dec)
  have "handler demo_json demo_config ?call (demo_request (''{}'' @ replicate 40000 (CHR '' ''))) (ex_db ex_platform)
      \<noteq> (w, db')"
  proof
    assume "handler demo_json demo_config ?call (demo_request (''{}'' @ replicate 40000 (CHR '' '')))
        (ex_db ex_platform) = (w, db')"
    from handler_gate [OF this disjI2, OF w] obtain request rest where
      "decRequest demo_json (max_bytes_reader 32768 (''{}'' @ replicate 40000 (CHR '' ''))) = Some (request, rest)"
      and "atEOF demo_json rest"
      by (auto simp: path)
    then show False
      by (auto simp: demo_json_def max_bytes_reader_def split: if_splits)
  qed
  then show ?thesis using ok w by blast
qed

end
