(* ===== verification/Sha256.thy ===== *)
theory Sha256
  imports Prelude
begin

unbundle bit_operations_syntax

text \<open>
  \<open>crypto/sha256.Sum256\<close> on byte strings, by the standard's definition (FIPS 180-4) on 32-bit
  words. The node driver hashes the volume, the staging path and the generation into the name
  of a durable use; what it relies on is the fixed length of the digest.
\<close>

type_synonym w32 = "32 word"

text \<open>
  The standard's constants are the first 32 fractional bits of the cube roots of the first 64
  primes and of the square roots of the first eight. \<open>root_search\<close> finds the largest \<open>r\<close> with
  \<open>r ^ k \<le> n\<close> bit by bit; 37 bits are enough because the roots are below $2^5$.
\<close>

definition small_primes :: "nat list" where
  "small_primes = filter (\<lambda>n. list_all (\<lambda>d. n mod d \<noteq> 0) [2 ..< n]) [2 ..< 312]"

fun root_search :: "nat \<Rightarrow> nat \<Rightarrow> nat \<Rightarrow> nat \<Rightarrow> nat" where
  "root_search k n 0 r = r"
| "root_search k n (Suc i) r =
     root_search k n i (if (r + 2 ^ i) ^ k \<le> n then r + 2 ^ i else r)"

definition fraction_bits :: "nat \<Rightarrow> nat \<Rightarrow> w32" where
  "fraction_bits k p = word_of_nat (root_search k (p * 2 ^ (32 * k)) 37 0)"

definition sha_K :: "w32 list" where
  "sha_K = map (fraction_bits 3) small_primes"

definition rotr :: "nat \<Rightarrow> w32 \<Rightarrow> w32" where
  "rotr n x = drop_bit n x OR push_bit (32 - n) x"

definition big_sigma0 :: "w32 \<Rightarrow> w32" where
  "big_sigma0 x = rotr 2 x XOR rotr 13 x XOR rotr 22 x"

definition big_sigma1 :: "w32 \<Rightarrow> w32" where
  "big_sigma1 x = rotr 6 x XOR rotr 11 x XOR rotr 25 x"

definition small_sigma0 :: "w32 \<Rightarrow> w32" where
  "small_sigma0 x = rotr 7 x XOR rotr 18 x XOR drop_bit 3 x"

definition small_sigma1 :: "w32 \<Rightarrow> w32" where
  "small_sigma1 x = rotr 17 x XOR rotr 19 x XOR drop_bit 10 x"

definition sha_ch :: "w32 \<Rightarrow> w32 \<Rightarrow> w32 \<Rightarrow> w32" where
  "sha_ch x y z = (x AND y) XOR (NOT x AND z)"

definition sha_maj :: "w32 \<Rightarrow> w32 \<Rightarrow> w32 \<Rightarrow> w32" where
  "sha_maj x y z = (x AND y) XOR (x AND z) XOR (y AND z)"

text \<open>The chaining value: the eight working variables in the order of the standard.\<close>

datatype sha_state = Sha w32 w32 w32 w32 w32 w32 w32 w32

fun sha_add :: "sha_state \<Rightarrow> sha_state \<Rightarrow> sha_state" where
  "sha_add (Sha a b c d e f g h) (Sha a' b' c' d' e' f' g' h') =
     Sha (a + a') (b + b') (c + c') (d + d') (e + e') (f + f') (g + g') (h + h')"

fun state_of_words :: "w32 list \<Rightarrow> sha_state" where
  "state_of_words [a, b, c, d, e, f, g, h] = Sha a b c d e f g h"
| "state_of_words _ = Sha 0 0 0 0 0 0 0 0"

definition sha_init :: sha_state where
  "sha_init = state_of_words (map (fraction_bits 2) (take 8 small_primes))"

fun sha_round :: "sha_state \<Rightarrow> w32 \<times> w32 \<Rightarrow> sha_state" where
  "sha_round (Sha a b c d e f g h) (k, w) =
     (let t1 = h + big_sigma1 e + sha_ch e f g + k + w;
          t2 = big_sigma0 a + sha_maj a b c
      in Sha (t1 + t2) a b c (d + t1) e f g)"

text \<open>The message schedule, built by appending; \<open>ws\<close> holds the words so far.\<close>

fun sha_schedule :: "nat \<Rightarrow> w32 list \<Rightarrow> w32 list" where
  "sha_schedule 0 ws = ws"
| "sha_schedule (Suc n) ws =
     (let t = length ws
      in sha_schedule n (ws @ [small_sigma1 (ws ! (t - 2)) + ws ! (t - 7)
                                 + small_sigma0 (ws ! (t - 15)) + ws ! (t - 16)]))"

definition sha_block :: "sha_state \<Rightarrow> w32 list \<Rightarrow> sha_state" where
  "sha_block s ws = sha_add s (foldl sha_round s (zip sha_K (sha_schedule 48 ws)))"

definition byte_list :: "string \<Rightarrow> 8 word list" where
  "byte_list s = map (\<lambda>c. word_of_nat (of_char c)) s"

definition word_of_bytes :: "8 word list \<Rightarrow> w32" where
  "word_of_bytes bs = foldl (\<lambda>w b. push_bit 8 w OR ucast b) 0 bs"

definition bytes_of_word :: "w32 \<Rightarrow> 8 word list" where
  "bytes_of_word w = map (\<lambda>i. ucast (drop_bit i w)) [24, 16, 8, 0]"

function groups :: "nat \<Rightarrow> 'a list \<Rightarrow> 'a list list" where
  "groups n xs = (if n = 0 \<or> xs = [] then [] else take n xs # groups n (drop n xs))"
  by auto
termination by (relation "measure (\<lambda>(n, xs). length xs)") auto

declare groups.simps [simp del]

definition sha_pad :: "8 word list \<Rightarrow> 8 word list" where
  "sha_pad m =
     m @ 0x80 # replicate ((119 - length m mod 64) mod 64) 0
       @ map (\<lambda>i. ucast (drop_bit i (word_of_nat (8 * length m) :: 64 word)))
           [56, 48, 40, 32, 24, 16, 8, 0]"

fun sha_words :: "sha_state \<Rightarrow> w32 list" where
  "sha_words (Sha a b c d e f g h) = [a, b, c, d, e, f, g, h]"

definition Sum256 :: "string \<Rightarrow> 8 word list" where
  "Sum256 s =
     concat (map bytes_of_word (sha_words
       (foldl (\<lambda>st block. sha_block st (map word_of_bytes (groups 4 block))) sha_init
          (groups 64 (sha_pad (byte_list s))))))"

lemma length_Sum256 [simp]: "length (Sum256 s) = 32"
proof -
  have "length (concat (map bytes_of_word (sha_words st))) = 32" for st
    by (cases st) (simp add: bytes_of_word_def)
  then show ?thesis by (simp only: Sum256_def)
qed

text \<open>Padding fills whole blocks, so every block has its sixteen words.\<close>

lemma length_sha_pad: "length (sha_pad m) mod 64 = 0"
proof -
  define r where "r = length m mod 64"
  have "r < 64" and l: "length m = 64 * (length m div 64) + r" by (auto simp: r_def)
  have "(r + 1 + (119 - r) mod 64 + 8) mod 64 = 0"
  proof (cases "r < 56")
    case True
    then have "(119 - r) mod 64 = 55 - r"
      using mod_less [of "55 - r" 64] by (simp add: le_mod_geq)
    then show ?thesis using True by simp
  next
    case False
    then have "(119 - r) mod 64 = 119 - r" using \<open>r < 64\<close> by simp
    then show ?thesis using False \<open>r < 64\<close> by simp
  qed
  moreover have "length (sha_pad m) = 64 * (length m div 64) + (r + 1 + (119 - r) mod 64 + 8)"
    using l by (simp add: sha_pad_def r_def)
  ultimately show ?thesis by simp
qed

lemma length_sha_schedule: "length (sha_schedule n ws) = length ws + n"
  by (induction n ws rule: sha_schedule.induct) (simp_all add: Let_def)

end
