(* ===== verification/Driver.thy ===== *)
theory Driver
  imports Transport Host Proc Sha256
begin

text \<open>
  \<^verbatim>\<open>internal/driver/common.go\<close> and the path and naming helpers of \<^verbatim>\<open>internal/driver/node.go\<close>:
  what the two CSI drivers share. A gRPC method returns a response, a status, or panics (a nil
  response field is dereferenced); its error type is \<open>fault\<close>. The messages of the CSI package are
  records with the fields the code reads; a missing field of a Go map is its zero value.
\<close>

section \<open>Status\<close>

datatype status_code =
    CCanceled | CInvalidArgument | CDeadlineExceeded | CNotFound | CAlreadyExists | CPermissionDenied
  | CFailedPrecondition | CAborted | COutOfRange | CUnimplemented | CInternal | CUnavailable
  | CUnauthenticated

datatype fault = Status status_code string | Panic

definition grpc_code :: "string \<Rightarrow> status_code option" where
  "grpc_code code =
     (if code = ''InvalidArgument'' then Some CInvalidArgument
      else if code = ''PermissionDenied'' then Some CPermissionDenied
      else if code = ''Unauthenticated'' then Some CUnauthenticated
      else if code = ''NotFound'' then Some CNotFound
      else if code = ''AlreadyExists'' then Some CAlreadyExists
      else if code = ''FailedPrecondition'' then Some CFailedPrecondition
      else if code = ''Aborted'' then Some CAborted
      else if code = ''Unavailable'' then Some CUnavailable
      else if code = ''Unimplemented'' then Some CUnimplemented
      else None)"

definition context_status :: "go_error \<Rightarrow> fault" where
  "context_status err =
     (if errors_Is err ContextCanceled then Status CCanceled ''request canceled''
      else if errors_Is err DeadlineExceeded then Status CDeadlineExceeded ''request deadline''
      else Status CInternal (Error err))"

text \<open>\<open>grpcErr\<close> of an error that is not nil.\<close>

definition grpcErr :: "go_error \<Rightarrow> fault" where
  "grpcErr err =
     (case errors_As_model err of
        None \<Rightarrow> context_status err
      | Some (code, message) \<Rightarrow>
          (case grpc_code code of Some c \<Rightarrow> Status c message | None \<Rightarrow> context_status err))"

section \<open>Identity\<close>

record plugin_info =
  piName :: string
  piVendorVersion :: string

datatype plugin_capability = ControllerService | VolumeAccessibilityConstraints | OnlineExpansion

definition GetPluginInfo :: plugin_info where
  "GetPluginInfo = \<lparr>piName = Driver, piVendorVersion = ''0.1.0-prototype''\<rparr>"

text \<open>\<open>Probe\<close> answers without error and leaves the readiness value unset, which CSI reads as ready.\<close>

record probe_response =
  prReady :: "bool option"

definition Probe :: probe_response where
  "Probe = \<lparr>prReady = None\<rparr>"

definition GetPluginCapabilities :: "plugin_capability list" where
  "GetPluginCapabilities = [ControllerService, VolumeAccessibilityConstraints, OnlineExpansion]"

section \<open>Capabilities and proofs of attachment\<close>

datatype access_mode =
    UnknownMode | SingleNodeWriter | SingleNodeReaderOnly | MultiNodeReaderOnly
  | MultiNodeSingleWriter | MultiNodeMultiWriter | SingleNodeSingleWriter | SingleNodeMultiWriter

datatype access_type = NoAccessType | BlockAccess | MountAccess string "string list" string

record volume_capability =
  kAccessMode :: "access_mode option"
  kAccessType :: access_type

definition capability :: "volume_capability option \<Rightarrow> fault + string \<times> string" where
  "capability c =
     (case c of
        None \<Rightarrow> Inl (Status CInvalidArgument ''SINGLE_NODE_WRITER capability required'')
      | Some c \<Rightarrow>
          if kAccessMode c \<noteq> Some SingleNodeWriter
          then Inl (Status CInvalidArgument ''SINGLE_NODE_WRITER capability required'')
          else
            case kAccessType c of
              BlockAccess \<Rightarrow> Inr (''block'', '''')
            | NoAccessType \<Rightarrow> Inl (Status CInvalidArgument ''mount or block required'')
            | MountAccess fsType flags grp \<Rightarrow>
                let fs = (if fsType = '''' then ''ext4'' else fsType)
                in if fs \<noteq> ''ext4'' \<and> fs \<noteq> ''xfs''
                   then Inl (Status CInvalidArgument ''only ext4 and xfs supported'')
                   else if flags \<noteq> [] \<or> grp \<noteq> ''''
                   then Inl (Status CInvalidArgument ''custom mount flags and mount groups not supported'')
                   else Inr (''mount'', fs))"

definition field :: "(string, string) fmap \<Rightarrow> string \<Rightarrow> string" where
  "field m k = (case fmlookup m k of Some v \<Rightarrow> v | None \<Rightarrow> '''')"

definition attach_proof :: "string \<Rightarrow> (string, string) fmap \<Rightarrow> fault + request" where
  "attach_proof vol pc =
     (case ParseUint (field pc ''attachmentGeneration'') of
        None \<Rightarrow> Inl (Status CPermissionDenied ''valid attachment proof required'')
      | Some g \<Rightarrow>
          if g = 0 \<or> \<not> ValidID (field pc ''attachmentID'')
          then Inl (Status CPermissionDenied ''valid attachment proof required'')
          else Inr (zero_request\<lparr>rVolumeID := vol, rAttachmentID := field pc ''attachmentID'', rGeneration := g\<rparr>))"

section \<open>Paths and names on a node\<close>

datatype lstat = NotExist | LstatError go_error | LstatFile bool

text \<open>The upward walk of \<open>validPath\<close>; \<open>LstatFile True\<close> is a symbolic link. \<open>None\<close> is a loop that does not end.\<close>

partial_function (option) symlink_walk :: "(string \<Rightarrow> lstat) \<Rightarrow> string \<Rightarrow> fault option option" where
  "symlink_walk ls p =
     (case ls p of
        LstatError err \<Rightarrow> Some (Some (grpcErr err))
      | NotExist \<Rightarrow> if p = ''/'' then Some None else symlink_walk ls (Dir p)
      | LstatFile link \<Rightarrow>
          if link then Some (Some (Status CInvalidArgument ''symlink path component rejected''))
          else if p = ''/'' then Some None else symlink_walk ls (Dir p))"

definition validPath :: "string \<Rightarrow> (string \<Rightarrow> lstat) \<Rightarrow> string \<Rightarrow> fault option" where
  "validPath root ls path =
     (if \<not> IsAbs path \<or> path \<noteq> Clean path \<or> \<not> HasPrefix path (Clean root @ ''/'')
      then Some (Status CInvalidArgument ''path must be a canonical descendant of kubelet root'')
      else the (symlink_walk ls path))"

definition useID :: "string \<Rightarrow> string \<Rightarrow> 64 word \<Rightarrow> string" where
  "useID vol path g = hex_encode (Sum256 (vol @ [CHR 0x00] @ path @ [CHR 0x00] @ FormatUint g))"

section \<open>Serving\<close>

text \<open>
  \<open>Serve\<close>: the socket calls and the gRPC server are parameters; the model keeps what is
  registered and when the listener is closed.
\<close>

datatype service = IdentityService | ControllerServiceImpl | NodeServiceImpl

record 'n net =
  netMkdirAll :: "string \<Rightarrow> 'n \<Rightarrow> go_error option \<times> 'n"
  netListen :: "string \<Rightarrow> 'n \<Rightarrow> go_error option \<times> 'n"
  netChmod :: "string \<Rightarrow> 'n \<Rightarrow> go_error option \<times> 'n"
  netServe :: "service list \<Rightarrow> 'n \<Rightarrow> go_error option \<times> 'n"
  netClose :: "'n \<Rightarrow> 'n"

definition Serve :: "'n net \<Rightarrow> string \<Rightarrow> bool \<Rightarrow> bool \<Rightarrow> 'n \<Rightarrow> go_error option \<times> 'n" where
  "Serve N path controller node s =
     (if \<not> IsAbs path then (Some (PlainError ''absolute CSI socket path required''), s)
      else
        case netMkdirAll N (Dir path) s of
          (Some err, s) \<Rightarrow> (Some err, s)
        | (None, s) \<Rightarrow>
            (case netListen N path s of
               (Some err, s) \<Rightarrow> (Some err, s)
             | (None, s) \<Rightarrow>
                 (case netChmod N path s of
                    (Some err, s) \<Rightarrow> (Some err, netClose N s)
                  | (None, s) \<Rightarrow>
                      (case netServe N ([IdentityService] @ (if controller then [ControllerServiceImpl] else [])
                              @ (if node then [NodeServiceImpl] else [])) s of
                         (err, s) \<Rightarrow> (err, netClose N s)))))"

section \<open>Laws\<close>

lemma capability_Inr:
  "capability c = Inr (mode, fs) \<longleftrightarrow>
     (\<exists>k. c = Some k \<and> kAccessMode k = Some SingleNodeWriter \<and>
        (kAccessType k = BlockAccess \<and> mode = ''block'' \<and> fs = ''''
         \<or> (\<exists>fsType. kAccessType k = MountAccess fsType [] '''' \<and> mode = ''mount''
              \<and> fs = (if fsType = '''' then ''ext4'' else fsType) \<and> fs \<in> {''ext4'', ''xfs''})))"
  by (cases c) (auto simp: capability_def Let_def split: access_type.splits if_splits)

lemma capability_no_panic: "capability c \<noteq> Inl Panic"
  by (auto simp: capability_def Let_def split: option.splits access_type.splits)

lemma attach_proof_Inr:
  "attach_proof vol pc = Inr p \<longleftrightarrow>
     (\<exists>g. ParseUint (field pc ''attachmentGeneration'') = Some g \<and> g \<noteq> 0
        \<and> ValidID (field pc ''attachmentID'')
        \<and> p = zero_request\<lparr>rVolumeID := vol, rAttachmentID := field pc ''attachmentID'', rGeneration := g\<rparr>)"
  by (auto simp: attach_proof_def split: option.splits)

lemma useID_length: "length (useID vol path g) = 64"
  by (simp add: useID_def)

lemma hex_digit_id: "n < 16 \<Longrightarrow> id_first_char (hex_digit n)"
  by (drule nat16_cases) (auto simp: hex_digit_def hex_digits_def id_first_char_def less_eq_char_def)

lemma hex_encode_id: "c \<in> set (hex_encode bs) \<Longrightarrow> id_first_char c"
proof (induction bs)
  case (Cons b bs)
  have "unat b < 2 ^ LENGTH(8)" by (rule unsigned_less)
  then have "unat b < 16 * 16" by simp
  then have "unat b div 16 < 16" by (rule less_mult_imp_div_less)
  then show ?case using Cons by (auto simp: hex_encode_def hex_digit_id)
qed (simp add: hex_encode_def)

text \<open>The name of a use is always an identifier the platform accepts.\<close>

lemma useID_valid: "ValidID (useID vol path g)"
proof -
  have "\<forall>c\<in>set (useID vol path g). id_first_char c"
    unfolding useID_def using hex_encode_id by blast
  moreover obtain c cs where "useID vol path g = c # cs"
    using useID_length [of vol path g] by (cases "useID vol path g") auto
  ultimately show ?thesis
    using useID_length [of vol path g] by (auto simp: ValidID_def id_rest_char_def list_all_iff)
qed

section \<open>The walk ends\<close>

text \<open>Every ancestor of an absolute canonical path, from the path itself to the root.\<close>

definition ancestors :: "string list \<Rightarrow> string list" where
  "ancestors cs = map (\<lambda>n. abs_path (take n cs)) (rev [0 ..< Suc (length cs)])"

lemma ancestors_snoc: "ancestors (cs @ [c]) = abs_path (cs @ [c]) # ancestors cs"
  by (simp add: ancestors_def)

definition refusal :: "lstat \<Rightarrow> fault option" where
  "refusal st =
     (case st of
        LstatError err \<Rightarrow> Some (grpcErr err)
      | LstatFile True \<Rightarrow> Some (Status CInvalidArgument ''symlink path component rejected'')
      | _ \<Rightarrow> None)"

lemma abs_path_root_iff: "list_all proper cs \<Longrightarrow> abs_path cs = ''/'' \<longleftrightarrow> cs = []"
  using abs_path_inj [of cs "[]"] by (auto simp: abs_path_def)

lemma symlink_walk_abs:
  "list_all proper cs \<Longrightarrow>
     symlink_walk ls (abs_path cs) = Some (case List.find (\<lambda>p. refusal (ls p) \<noteq> None) (ancestors cs) of
        None \<Rightarrow> None | Some p \<Rightarrow> refusal (ls p))"
proof (induction cs rule: rev_induct)
  case Nil
  then show ?case
    by (subst symlink_walk.simps)
      (auto simp: ancestors_def abs_path_def refusal_def split: lstat.split bool.split)
next
  case (snoc c cs)
  then have "Dir (abs_path (cs @ [c])) = abs_path cs" and ne: "abs_path (cs @ [c]) \<noteq> ''/''"
    using Dir_abs_path [of cs c] abs_path_root_iff [of "cs @ [c]"] by simp_all
  then show ?case
    using snoc
    by (subst symlink_walk.simps) (auto simp: ancestors_snoc refusal_def split: lstat.split bool.split)
qed

end
