(* ===== verification/Controller.thy ===== *)
theory Controller
  imports Driver
begin

text \<open>
  \<^verbatim>\<open>internal/driver/controller.go\<close>: the CSI controller service. It keeps no state of its own; every
  method checks its request and calls the Storage API, a \<open>caller\<close> on the state behind it. The
  context of a method may be cancelled between two calls, so \<open>cx n\<close> is what it reports at the
  method's call number \<open>n\<close>.
\<close>

record 'a controller =
  ctlAPI :: "'a caller"
  ctlRegion :: string
  ctlZone :: string

definition api ::
  "'a caller \<Rightarrow> ctx \<Rightarrow> string \<Rightarrow> request \<Rightarrow> ('a, fault, response) proc" where
  "api C ctx op r = valued grpcErr (C ctx op r)"

text \<open>Dereferencing a response field.\<close>

definition deref :: "'x option \<Rightarrow> ('a, fault, 'x) proc" where
  "deref x = (case x of None \<Rightarrow> raise Panic | Some v \<Rightarrow> give v)"

section \<open>CreateVolume\<close>

type_synonym segments = "(string, string) fmap"

record topology_requirement =
  tpPreferred :: "segments list"
  tpRequisite :: "segments list"

record capacity_range =
  crRequiredBytes :: int
  crLimitBytes :: int

record create_volume_request =
  cvName :: string
  cvCapabilities :: "volume_capability list"
  cvContentSource :: bool
  cvAccessibility :: "topology_requirement option"
  cvCapacityRange :: "capacity_range option"
  cvParameters :: "(string, string) fmap"

record create_volume_response =
  crVolumeId :: string
  crCapacityBytes :: int
  crTopology :: segments

text \<open>The loop over the capabilities: the first one that fails or differs decides.\<close>

fun same_capabilities :: "string \<Rightarrow> string \<Rightarrow> volume_capability list \<Rightarrow> fault + unit" where
  "same_capabilities mode fs [] = Inr ()"
| "same_capabilities mode fs (c # cs) =
     (case capability (Some c) of
        Inl e \<Rightarrow> Inl e
      | Inr (m, f) \<Rightarrow>
          if m \<noteq> mode \<or> f \<noteq> fs then Inl (Status CInvalidArgument ''inconsistent capabilities'')
          else same_capabilities mode fs cs)"

definition topology_allowed :: "segments list \<Rightarrow> segments \<Rightarrow> bool" where
  "topology_allowed requisite t \<longleftrightarrow>
     requisite = [] \<or> list_ex (\<lambda>req. fmpred (\<lambda>k v. field t k = v) req) requisite"

definition topology_usable :: "segments list \<Rightarrow> segments \<Rightarrow> bool" where
  "topology_usable requisite t \<longleftrightarrow>
     field t RegionKey \<noteq> '''' \<and> field t ZoneKey \<noteq> '''' \<and> topology_allowed requisite t"

definition choose_topology ::
  "string \<Rightarrow> string \<Rightarrow> topology_requirement option \<Rightarrow> fault + string \<times> string" where
  "choose_topology region zone ar =
     (case ar of
        None \<Rightarrow> Inr (region, zone)
      | Some ar \<Rightarrow>
          (case List.find (topology_usable (tpRequisite ar)) (tpPreferred ar @ tpRequisite ar) of
             Some t \<Rightarrow> Inr (field t RegionKey, field t ZoneKey)
           | None \<Rightarrow>
               if tpPreferred ar \<noteq> [] \<or> tpRequisite ar \<noteq> []
               then Inl (Status CInvalidArgument ''no supported topology'')
               else Inr (region, zone)))"

definition choose_size :: "capacity_range option \<Rightarrow> fault + int" where
  "choose_size cr =
     (case cr of
        None \<Rightarrow> Inr (2 ^ 30)
      | Some cr \<Rightarrow>
          if crRequiredBytes cr < 0 \<or> crLimitBytes cr < 0
          then Inl (Status CInvalidArgument ''negative capacity'')
          else
            let size = (if crRequiredBytes cr > 0 then crRequiredBytes cr else 2 ^ 30)
            in if crLimitBytes cr > 0 \<and> size > crLimitBytes cr
               then Inl (Status COutOfRange ''capacity exceeds limit'')
               else Inr size)"

text \<open>The loop over the parameters, in the order \<open>ks\<close> in which Go visits the keys.\<close>

fun choose_type :: "(string, string) fmap \<Rightarrow> string \<Rightarrow> string list \<Rightarrow> fault + string" where
  "choose_type ps typ [] = Inr typ"
| "choose_type ps typ (k # ks) =
     (if k = ''type'' then choose_type ps (field ps k) ks
      else if k \<in> {''csi.storage.k8s.io/pvc/name'', ''csi.storage.k8s.io/pvc/namespace'',
                   ''csi.storage.k8s.io/pv/name''}
      then choose_type ps typ ks
      else Inl (Status CInvalidArgument (''unsupported StorageClass parameter: '' @ k)))"

definition CreateVolume ::
  "'a controller \<Rightarrow> (nat \<Rightarrow> ctx) \<Rightarrow> string list \<Rightarrow> create_volume_request
     \<Rightarrow> ('a, fault, create_volume_response) proc" where
  "CreateVolume c cx ks r =
     andThen (require (cvName r \<noteq> '''' \<and> cvCapabilities r \<noteq> [])
       (Status CInvalidArgument ''name and capabilities required'')) (\<lambda>_.
     andThen (require (\<not> cvContentSource r)
       (Status CInvalidArgument ''snapshots and clones unsupported'')) (\<lambda>_.
     andThen (pure_result (capability (Some (hd (cvCapabilities r))))) (\<lambda>(mode, fs).
     andThen (pure_result (same_capabilities mode fs (cvCapabilities r))) (\<lambda>_.
     andThen (pure_result (choose_topology (ctlRegion c) (ctlZone c) (cvAccessibility r))) (\<lambda>(region, zone).
     andThen (pure_result (choose_size (cvCapacityRange r))) (\<lambda>size.
     andThen (pure_result (choose_type (cvParameters r) ''standard'' ks)) (\<lambda>typ.
     andThen (api (ctlAPI c) (cx 0) ''CreateVolume''
       (zero_request\<lparr>rName := cvName r, rSizeBytes := size, rType := typ, rRegion := region,
          rZone := zone, rMode := mode, rFSType := fs\<rparr>)) (\<lambda>out.
     andThen (deref (oVolume out)) (\<lambda>v.
     andThen (require (vState v = ''AVAILABLE'' \<and> vLastError v = '''')
       (Status CAborted ''volume provisioning pending'')) (\<lambda>_.
     give \<lparr>crVolumeId = vID v, crCapacityBytes = vSizeBytes v,
       crTopology = fmupd ZoneKey (vZone v) (fmupd RegionKey (vRegion v) fmempty)\<rparr>))))))))))"

section \<open>The other methods\<close>

definition DeleteVolume :: "'a controller \<Rightarrow> (nat \<Rightarrow> ctx) \<Rightarrow> string \<Rightarrow> ('a, fault, unit) proc" where
  "DeleteVolume c cx volumeId =
     andThen (require (volumeId \<noteq> '''') (Status CInvalidArgument ''volume ID required'')) (\<lambda>_.
     andThen (api (ctlAPI c) (cx 0) ''DeleteVolume'' (zero_request\<lparr>rID := volumeId\<rparr>)) (\<lambda>out.
     require (case oVolume out of None \<Rightarrow> True | Some v \<Rightarrow> vState v = ''DELETED'')
       (Status CAborted ''deletion pending'')))"

record publish_request =
  cpVolumeId :: string
  cpNodeId :: string
  cpCapability :: "volume_capability option"
  cpReadonly :: bool

definition ControllerPublishVolume ::
  "'a controller \<Rightarrow> (nat \<Rightarrow> ctx) \<Rightarrow> publish_request \<Rightarrow> ('a, fault, (string, string) fmap) proc" where
  "ControllerPublishVolume c cx r =
     andThen (require (cpVolumeId r \<noteq> '''' \<and> cpNodeId r \<noteq> '''')
       (Status CInvalidArgument ''volume and node IDs required'')) (\<lambda>_.
     andThen (pure_result (capability (cpCapability r))) (\<lambda>(mode, fs).
     andThen (require (\<not> cpReadonly r)
       (Status CInvalidArgument ''controller readonly unsupported for SINGLE_NODE_WRITER'')) (\<lambda>_.
     andThen (api (ctlAPI c) (cx 0) ''GetVolume'' (zero_request\<lparr>rID := cpVolumeId r\<rparr>)) (\<lambda>got.
     andThen (deref (oVolume got)) (\<lambda>v.
     andThen (require (vMode v = mode \<and> vFSType v = fs)
       (Status CInvalidArgument ''capability differs from volume'')) (\<lambda>_.
     andThen (api (ctlAPI c) (cx 1) ''CreateAttachment''
       (zero_request\<lparr>rVolumeID := cpVolumeId r, rInstanceID := cpNodeId r\<rparr>)) (\<lambda>out.
     andThen (deref (oAttachment out)) (\<lambda>a.
     andThen (require (aState a = ''ATTACHED'' \<and> aLastError a = '''')
       (Status CAborted ''attachment pending'')) (\<lambda>_.
     give (fmupd ''attachmentGeneration'' (FormatUint (aGeneration a))
       (fmupd ''attachmentID'' (aID a) fmempty)))))))))))"

definition ControllerUnpublishVolume ::
  "'a controller \<Rightarrow> (nat \<Rightarrow> ctx) \<Rightarrow> string \<Rightarrow> string \<Rightarrow> ('a, fault, unit) proc" where
  "ControllerUnpublishVolume c cx volumeId nodeId =
     andThen (require (volumeId \<noteq> '''') (Status CInvalidArgument ''volume ID required'')) (\<lambda>_.
     andThen (api (ctlAPI c) (cx 0) ''DeleteAttachment''
       (zero_request\<lparr>rVolumeID := volumeId, rInstanceID := nodeId\<rparr>)) (\<lambda>out.
     require (case oAttachment out of None \<Rightarrow> True | Some a \<Rightarrow> aState a = ''DETACHED'')
       (Status CAborted ''detach pending: waiting for node cleanup or provider'')))"

record validate_request =
  vrVolumeId :: string
  vrCapabilities :: "volume_capability list"
  vrVolumeContext :: "(string, string) fmap"
  vrParameters :: "(string, string) fmap"

datatype validate_response =
    Unsupported string
  | Confirmed "volume_capability list" "(string, string) fmap" "(string, string) fmap"

text \<open>The loop stops at the first capability that fails or differs; it looks at the volume only then.\<close>

fun all_supported :: "volume option \<Rightarrow> volume_capability list \<Rightarrow> fault + bool" where
  "all_supported v [] = Inr True"
| "all_supported v (k # ks) =
     (case capability (Some k) of
        Inl _ \<Rightarrow> Inr False
      | Inr (m, f) \<Rightarrow>
          (case v of
             None \<Rightarrow> Inl Panic
           | Some x \<Rightarrow> if m \<noteq> vMode x \<or> f \<noteq> vFSType x then Inr False else all_supported v ks))"

definition ValidateVolumeCapabilities ::
  "'a controller \<Rightarrow> (nat \<Rightarrow> ctx) \<Rightarrow> validate_request \<Rightarrow> ('a, fault, validate_response) proc" where
  "ValidateVolumeCapabilities c cx r =
     andThen (require (vrVolumeId r \<noteq> '''' \<and> vrCapabilities r \<noteq> [])
       (Status CInvalidArgument ''volume and capabilities required'')) (\<lambda>_.
     andThen (api (ctlAPI c) (cx 0) ''GetVolume'' (zero_request\<lparr>rID := vrVolumeId r\<rparr>)) (\<lambda>got.
     andThen (pure_result (all_supported (oVolume got) (vrCapabilities r))) (\<lambda>ok.
     give (if ok then Confirmed (vrCapabilities r) (vrVolumeContext r) (vrParameters r)
           else Unsupported ''capability unsupported''))))"

record expand_response =
  xrCapacityBytes :: int
  xrNodeExpansionRequired :: bool

definition ControllerExpandVolume ::
  "'a controller \<Rightarrow> (nat \<Rightarrow> ctx) \<Rightarrow> string \<Rightarrow> capacity_range option \<Rightarrow> ('a, fault, expand_response) proc" where
  "ControllerExpandVolume c cx volumeId cr =
     (case cr of
        None \<Rightarrow> raise (Status CInvalidArgument ''volume ID and positive size required'')
      | Some cr \<Rightarrow>
          andThen (require (volumeId \<noteq> '''' \<and> crRequiredBytes cr > 0)
            (Status CInvalidArgument ''volume ID and positive size required'')) (\<lambda>_.
          andThen (require (\<not> (crLimitBytes cr > 0 \<and> crRequiredBytes cr > crLimitBytes cr))
            (Status COutOfRange ''capacity exceeds limit'')) (\<lambda>_.
          andThen (api (ctlAPI c) (cx 0) ''ResizeVolume''
            (zero_request\<lparr>rID := volumeId, rSizeBytes := crRequiredBytes cr\<rparr>)) (\<lambda>out.
          andThen (deref (oVolume out)) (\<lambda>v.
          andThen (require (vSizeBytes v \<ge> crRequiredBytes cr \<and> vLastError v = '''')
            (Status CAborted ''resize pending'')) (\<lambda>_.
          give \<lparr>xrCapacityBytes = vSizeBytes v, xrNodeExpansionRequired = (vMode v = ''mount'')\<rparr>))))))"

datatype controller_capability = CreateDeleteVolume | PublishUnpublishVolume | ExpandVolume

definition ControllerGetCapabilities :: "controller_capability list" where
  "ControllerGetCapabilities = [CreateDeleteVolume, PublishUnpublishVolume, ExpandVolume]"

end
