(* ===== verification/DriverSpec.thy ===== *)
theory DriverSpec
  imports Controller
begin

text \<open>
  What the drivers' shared helpers guarantee: the paths a node accepts, the walk over their components, and the names of
  durable uses.
\<close>

section \<open>Paths\<close>

lemma validPath_accepts:
  "validPath root ls path = None \<longleftrightarrow>
     (\<exists>rs cs. list_all proper (rs @ cs) \<and> rs \<noteq> [] \<and> cs \<noteq> [] \<and> Clean root = abs_path rs
        \<and> path = abs_path (rs @ cs) \<and> (\<forall>p\<in>set (ancestors (rs @ cs)). ls p \<in> {NotExist, LstatFile False}))"
  (is "?L \<longleftrightarrow> ?R")
proof -
  have walk: "the (symlink_walk ls (abs_path cs)) = None
      \<longleftrightarrow> (\<forall>p\<in>set (ancestors cs). ls p \<in> {NotExist, LstatFile False})" if "list_all proper cs" for cs
  proof -
    have "refusal st = None \<longleftrightarrow> st \<in> {NotExist, LstatFile False}" for st
      by (auto simp: refusal_def split: lstat.splits bool.splits)
    moreover have "(case List.find (\<lambda>p. refusal (ls p) \<noteq> None) ps of None \<Rightarrow> None | Some p \<Rightarrow> refusal (ls p)) = None
        \<longleftrightarrow> (\<forall>p\<in>set ps. refusal (ls p) = None)" for ps
      by (induction ps) auto
    ultimately show ?thesis by (simp add: symlink_walk_abs [OF that])
  qed
  have "?L \<longleftrightarrow> (IsAbs path \<and> path = Clean path \<and> HasPrefix path (Clean root @ ''/''))
      \<and> the (symlink_walk ls path) = None"
    by (auto simp: validPath_def)
  also have "\<dots> \<longleftrightarrow> ?R"
    unfolding descendant_iff by (auto simp: walk; blast)
  finally show ?thesis .
qed

text \<open>
  C35: a node touches only canonical paths strictly below the kubelet root. The path check accepts a
  path exactly when the cleaned root is absolute and not the file system's root, the path is that
  root followed by at least one more component, all of them proper (not empty, no dots), and no
  component from the path up to \<open>/\<close> is a symbolic link or cannot be examined. So under the
  check no \<open>..\<close>, relative or doubled-slash spelling of another place gets through, and a kubelet
  root of \<open>/\<close> is refused altogether.
\<close>

theorem valid_path_confined:
  "(validPath root ls path = None \<longleftrightarrow>
     (\<exists>rs cs. list_all proper (rs @ cs) \<and> rs \<noteq> [] \<and> cs \<noteq> [] \<and> Clean root = abs_path rs
        \<and> path = abs_path (rs @ cs) \<and> (\<forall>p\<in>set (ancestors (rs @ cs)). ls p \<in> {NotExist, LstatFile False})))
   \<and> (Clean root = ''/'' \<longrightarrow> validPath root ls path \<noteq> None)"
proof -
  have "Clean root = ''/'' \<Longrightarrow> \<not> (\<exists>rs cs. list_all proper (rs @ cs) \<and> rs \<noteq> [] \<and> cs \<noteq> [] \<and> Clean root = abs_path rs
        \<and> path = abs_path (rs @ cs) \<and> (\<forall>p\<in>set (ancestors (rs @ cs)). ls p \<in> {NotExist, LstatFile False}))"
    using abs_path_root_iff by fastforce
  then show ?thesis using validPath_accepts [of root ls path] by blast
qed

lemma demo_path: "proper ''kubelet'' \<and> proper ''stage''" "abs_path [''kubelet''] = ''/kubelet''"
  "abs_path [''kubelet'', ''stage''] = ''/kubelet/stage''"
  by (simp_all add: proper_def abs_path_def)

lemma demo_root: "Clean ''/kubelet'' = abs_path [''kubelet'']"
  using Clean_abs_path [of "[''kubelet'']"] demo_path by simp

theorem valid_path_confined_witness:
  "validPath ''/kubelet'' (\<lambda>_. LstatFile False) ''/kubelet/stage'' = None
   \<and> validPath ''/kubelet'' (\<lambda>_. LstatFile True) ''/kubelet/stage'' \<noteq> None"
proof -
  have "\<exists>rs cs. list_all proper (rs @ cs) \<and> rs \<noteq> [] \<and> cs \<noteq> [] \<and> Clean ''/kubelet'' = abs_path rs
      \<and> ''/kubelet/stage'' = abs_path (rs @ cs)"
    by (rule exI [of _ "[''kubelet'']"], rule exI [of _ "[''stage'']"])
      (use demo_path demo_root in simp)
  then have "validPath ''/kubelet'' (\<lambda>_. LstatFile False) ''/kubelet/stage'' = None"
    using valid_path_confined [of "''/kubelet''" "\<lambda>_. LstatFile False" "''/kubelet/stage''"] by simp
  moreover have "ancestors cs \<noteq> []" for cs by (simp add: ancestors_def)
  then have "\<exists>p. p \<in> set (ancestors cs)" for cs by (meson list.set_sel(1))
  then have "validPath ''/kubelet'' (\<lambda>_. LstatFile True) ''/kubelet/stage'' \<noteq> None"
    using valid_path_confined [of "''/kubelet''" "\<lambda>_. LstatFile True" "''/kubelet/stage''"] by auto
  ultimately show ?thesis ..
qed

text \<open>
  C36: the walk over the path's components ends. On every canonical absolute path, whatever
  \<open>Lstat\<close> answers, the loop returns after at most one round per component and the root; on a
  relative path it may never return, and the checks before the loop keep such a path away.
\<close>

theorem symlink_walk_returns:
  "(IsAbs path \<and> path = Clean path \<longrightarrow> (\<exists>r. symlink_walk ls path = Some r))
   \<and> symlink_walk (\<lambda>_. NotExist) ''.'' = None \<and> validPath root (\<lambda>_. NotExist) ''.'' \<noteq> None"
proof (intro conjI impI)
  assume "IsAbs path \<and> path = Clean path"
  then obtain cs where "list_all proper cs" "path = abs_path cs" by (auto simp: Clean_fixed_iff)
  then show "\<exists>r. symlink_walk ls path = Some r" by (simp add: symlink_walk_abs)
next
  have "ls = (\<lambda>_. NotExist) \<longrightarrow> p \<noteq> ''.''" if "symlink_walk ls p = Some r" for ls p r
  proof (rule symlink_walk.raw_induct [OF _ that])
    fix walk :: "(string \<Rightarrow> lstat) \<Rightarrow> string \<Rightarrow> fault option option" and ls p r
    assume hyp: "\<And>ls p r. walk ls p = Some r \<Longrightarrow> ls = (\<lambda>_. NotExist) \<longrightarrow> p \<noteq> ''.''"
      and body: "(case ls p of
        LstatError err \<Rightarrow> Some (Some (grpcErr err))
      | NotExist \<Rightarrow> if p = ''/'' then Some None else walk ls (Dir p)
      | LstatFile link \<Rightarrow>
          if link then Some (Some (Status CInvalidArgument ''symlink path component rejected''))
          else if p = ''/'' then Some None else walk ls (Dir p)) = Some r"
    have "Dir ''.'' = ''.''" by (simp add: Dir_def Clean_def)
    then have "walk (\<lambda>_. NotExist) ''.'' = Some r" if "ls = (\<lambda>_. NotExist)" "p = ''.''"
      using body that by simp
    then show "ls = (\<lambda>_. NotExist) \<longrightarrow> p \<noteq> ''.''" using hyp by blast
  qed
  then show "symlink_walk (\<lambda>_. NotExist) ''.'' = None" by (cases "symlink_walk (\<lambda>_. NotExist) ''.''") auto
next
  show "validPath root (\<lambda>_. NotExist) ''.'' \<noteq> None"
    by (simp add: validPath_def IsAbs_def HasPrefix_def)
qed

theorem symlink_walk_returns_witness:
  "\<exists>r. symlink_walk (\<lambda>_. NotExist) ''/kubelet/stage'' = Some r"
proof -
  have "list_all proper [''kubelet'', ''stage'']" using demo_path by simp
  then have "IsAbs ''/kubelet/stage''" and "''/kubelet/stage'' = Clean ''/kubelet/stage''"
    using Clean_abs_path [of "[''kubelet'', ''stage'']"] IsAbs_abs_path [of "[''kubelet'', ''stage'']"] demo_path(3)
    by simp_all
  then show ?thesis
    using symlink_walk_returns [of "''/kubelet/stage''" "\<lambda>_. NotExist"] by blast
qed

section \<open>Names of durable uses\<close>

lemma hex_encode_inj: "hex_encode xs = hex_encode ys \<Longrightarrow> xs = ys"
proof (induction xs arbitrary: ys)
  case Nil
  then show ?case by (cases ys) (simp_all add: hex_encode_def)
next
  case (Cons b xs)
  then obtain c zs where ys: "ys = c # zs" by (cases ys) (simp_all add: hex_encode_def)
  have small: "unat x div 16 < 16" for x :: "8 word"
  proof -
    have "unat x < 2 ^ LENGTH(8)" by (rule unsigned_less)
    then show ?thesis by (simp add: less_mult_imp_div_less)
  qed
  have eq: "hex_digit (unat b div 16) = hex_digit (unat c div 16)" "hex_digit (unat b mod 16) = hex_digit (unat c mod 16)"
    "hex_encode xs = hex_encode zs"
    using Cons.prems ys by (simp_all add: hex_encode_def)
  have "unat b div 16 = unat c div 16" by (rule hex_digit_inj [OF small small eq(1)])
  moreover have "unat b mod 16 = unat c mod 16" by (rule hex_digit_inj [OF _ _ eq(2)]) simp_all
  ultimately have "unat b = unat c" by (metis div_mult_mod_eq)
  then have "b = c" by (simp add: word_unat_eq_iff)
  then show ?case using Cons.IH [OF eq(3)] ys by simp
qed

text \<open>A separator that does not occur in the prefixes makes concatenation injective; the last one splits from the right.\<close>

lemma separated_left: "x \<notin> set us \<Longrightarrow> x \<notin> set vs \<Longrightarrow> us @ x # ps = vs @ x # qs \<Longrightarrow> us = vs \<and> ps = qs"
  by (induction us arbitrary: vs) (case_tac [!] vs, auto)

lemma separated_right:
  assumes "x \<notin> set ps" and "x \<notin> set qs" and "us @ x # ps = vs @ x # qs"
  shows "us = vs \<and> ps = qs"
proof -
  have "rev ps @ x # rev us = rev qs @ x # rev vs" using arg_cong [OF assms(3), of rev] by simp
  from separated_left [OF _ _ this] assms(1,2) show ?thesis by simp
qed

definition use_text :: "string \<Rightarrow> string \<Rightarrow> 64 word \<Rightarrow> string" where
  "use_text vol path g = vol @ [CHR 0x00] @ path @ [CHR 0x00] @ FormatUint g"

lemma FormatUint_no_nul: "CHR 0x00 \<notin> set (FormatUint g)"
  using decimal_digits [of "CHR 0x00"] by (auto simp: FormatUint_def less_eq_char_def)

lemma use_text_inj:
  assumes "CHR 0x00 \<notin> set vol" and "CHR 0x00 \<notin> set vol'" and "use_text vol path g = use_text vol' path' g'"
  shows "vol = vol' \<and> path = path' \<and> g = g'"
proof -
  have "vol @ CHR 0x00 # (path @ CHR 0x00 # FormatUint g) = vol' @ CHR 0x00 # (path' @ CHR 0x00 # FormatUint g')"
    using assms(3) by (simp add: use_text_def)
  from separated_left [OF assms(1,2) this] have "vol = vol'"
    and rest: "path @ CHR 0x00 # FormatUint g = path' @ CHR 0x00 # FormatUint g'" by simp_all
  from separated_right [OF FormatUint_no_nul FormatUint_no_nul rest] show ?thesis
    using \<open>vol = vol'\<close> FormatUint_inj by blast
qed

lemma ValidID_no_nul: "ValidID s \<Longrightarrow> CHR 0x00 \<notin> set s"
  by (cases s) (auto simp: ValidID_def id_first_char_def id_rest_char_def list_all_iff less_eq_char_def)

text \<open>
  C40: the name of a durable use. \<open>useID\<close> is always an identifier of 64 hexadecimal digits that the platform
  accepts, and for volume IDs the platform hands out it names one triple: two uses share a name only when volume,
  path and attachment generation are the same, or when SHA-256 maps their two distinct texts to
  one digest. So a retry finds its own use again, and another path, volume or generation gets another.
\<close>

theorem use_name:
  assumes "ValidID vol" and "ValidID vol'"
  shows "length (useID vol path g) = 64 \<and> set (useID vol path g) \<subseteq> set hex_digits \<and> ValidID (useID vol path g)
    \<and> (useID vol path g = useID vol' path' g' \<longleftrightarrow>
         (vol = vol' \<and> path = path' \<and> g = g')
         \<or> (vol @ [CHR 0x00] @ path @ [CHR 0x00] @ FormatUint g \<noteq> vol' @ [CHR 0x00] @ path' @ [CHR 0x00] @ FormatUint g'
            \<and> Sum256 (vol @ [CHR 0x00] @ path @ [CHR 0x00] @ FormatUint g)
              = Sum256 (vol' @ [CHR 0x00] @ path' @ [CHR 0x00] @ FormatUint g')))"
proof (intro conjI)
  have "hex_digit k \<in> set hex_digits" for k
    unfolding hex_digit_def by (rule nth_mem) (simp add: hex_digits_def)
  then have "set (hex_encode bs) \<subseteq> set hex_digits" for bs
    by (auto simp: hex_encode_def)
  then show "set (useID vol path g) \<subseteq> set hex_digits" by (simp add: useID_def)
  have "useID vol path g = useID vol' path' g' \<longleftrightarrow> Sum256 (use_text vol path g) = Sum256 (use_text vol' path' g')"
    unfolding useID_def use_text_def [symmetric] using hex_encode_inj by metis
  moreover have "use_text vol path g = use_text vol' path' g' \<longleftrightarrow> vol = vol' \<and> path = path' \<and> g = g'"
    using use_text_inj [OF assms [THEN ValidID_no_nul]] by metis
  ultimately show "useID vol path g = useID vol' path' g' \<longleftrightarrow>
         (vol = vol' \<and> path = path' \<and> g = g')
         \<or> (vol @ [CHR 0x00] @ path @ [CHR 0x00] @ FormatUint g \<noteq> vol' @ [CHR 0x00] @ path' @ [CHR 0x00] @ FormatUint g'
            \<and> Sum256 (vol @ [CHR 0x00] @ path @ [CHR 0x00] @ FormatUint g)
              = Sum256 (vol' @ [CHR 0x00] @ path' @ [CHR 0x00] @ FormatUint g'))"
    unfolding use_text_def by metis
qed (simp_all add: useID_length useID_valid)

theorem use_name_witness:
  "length (useID ''volume-01'' ''/kubelet/stage'' 1) = 64
   \<and> (useID ''volume-01'' ''/kubelet/stage'' 1 = useID ''volume-01'' ''/kubelet/stage'' 2
      \<longleftrightarrow> Sum256 (use_text ''volume-01'' ''/kubelet/stage'' 1) = Sum256 (use_text ''volume-01'' ''/kubelet/stage'' 2))"
proof -
  have "ValidID ''volume-01''" by (simp add: ValidID_def id_first_char_def id_rest_char_def less_eq_char_def)
  note name = use_name [OF this this, of "''/kubelet/stage''" 1 "''/kubelet/stage''" 2]
  have "use_text ''volume-01'' ''/kubelet/stage'' 1 \<noteq> use_text ''volume-01'' ''/kubelet/stage'' 2"
    using use_text_inj [OF ValidID_no_nul ValidID_no_nul, OF \<open>ValidID ''volume-01''\<close> \<open>ValidID ''volume-01''\<close>] by fastforce
  with name show ?thesis unfolding use_text_def by (elim conjE) (intro conjI, assumption, simp)
qed

end
