(* ===== verification/Rejections.thy ===== *)
theory Rejections
  imports TransportSpec DriverSpec
begin

text \<open>
  Errors as values across the layers: every rejection of the engine is a coded error, and the code survives the
  HTTP transport and becomes the same gRPC status in a driver, whichever caller it came through.
\<close>

section \<open>Every rejection is coded\<close>

definition coded :: "go_error option \<Rightarrow> bool" where
  "coded x \<longleftrightarrow> (case x of None \<Rightarrow> True
     | Some e \<Rightarrow> \<exists>code msg. e = ModelError code msg \<and> code \<in> {''InvalidArgument'', ''PermissionDenied'', ''NotFound'',
         ''AlreadyExists'', ''FailedPrecondition'', ''Unimplemented''})"

lemma coded_None [simp]: "coded None"
  by (simp add: coded_def)

lemma coded_Err [simp]:
  "coded (Err ''InvalidArgument'' m)" "coded (Err ''PermissionDenied'' m)" "coded (Err ''NotFound'' m)"
  "coded (Err ''AlreadyExists'' m)" "coded (Err ''FailedPrecondition'' m)" "coded (Err ''Unimplemented'' m)"
  by (simp_all add: coded_def Err_def)

lemma coded_if: "coded (fst (snd a)) \<Longrightarrow> coded (fst (snd b)) \<Longrightarrow> coded (fst (snd (if c then a else b)))"
  by simp

lemma engine_instance_coded: "engine_instance cfg p i = (x, y) \<Longrightarrow> coded y"
  by (auto simp: engine_instance_def split: option.splits if_splits)

lemma ops_coded:
  "coded (fst (snd (get_instance cfg p r s)))"
  "coded (fst (snd (create_volume cfg env p r s)))"
  "coded (fst (snd (volume_case env p op r s)))"
  "coded (fst (snd (create_attachment cfg env p r s)))"
  "coded (fst (snd (attachment_case env p op r s)))"
proof -
  show "coded (fst (snd (get_instance cfg p r s)))"
    by (cases "engine_instance cfg p (rInstanceID r)") (simp add: get_instance_def engine_instance_coded)
  show "coded (fst (snd (create_volume cfg env p r s)))"
    by (simp add: create_volume_def Let_def split: option.split)
  show "coded (fst (snd (volume_case env p op r s)))"
    by (simp add: volume_case_def Let_def split: option.split)
  show "coded (fst (snd (create_attachment cfg env p r s)))"
    by (cases "engine_instance cfg p (rInstanceID r)")
      (auto simp add: create_attachment_def Let_def engine_instance_coded split: option.split)
  show "coded (fst (snd (attachment_case env p op r s)))"
    by (simp add: attachment_case_def Let_def split: option.split prod.split)
qed

lemma node_op_coded: "coded (fst (snd (node_op cfg p op r s)))"
proof -
  obtain i y where i: "engine_instance cfg p (pInstanceID p) = (i, y)" by fastforce
  show ?thesis
  proof (cases y)
    case None
    then show ?thesis using i
      by (simp add: node_op_def Let_def split: option.split)
  next
    case (Some e)
    then show ?thesis using i engine_instance_coded [OF i] by (simp add: node_op_def)
  qed
qed

lemma apply_op_coded: "coded (fst (snd (apply_op cfg env p op r s)))"
  by (simp add: apply_op_def ops_coded node_op_coded)

text \<open>
  C39: a rejection keeps its meaning through every layer. When the engine refuses a call it changes nothing, and
  its error is one of six coded errors, each with one gRPC status and one HTTP status: an invalid argument and an unknown
  operation are 400, a denied permission 403, what is not found 404, what exists already or is not in the required state 409.
  A driver turns the error into that gRPC status with the message unchanged, and gets the very same status
  when the error came over the wire. So no refusal is reported as an internal failure or as another kind of refusal.
\<close>

theorem rejection_meaning:
  assumes "apply_op cfg env p op r s = (out, Some e, s')"
  shows "s' = s \<and> (\<exists>code msg st. e = ModelError code msg \<and> grpcErr e = Status st msg
    \<and> grpcErr (received_error e) = grpcErr e
    \<and> (code, st, wStatus (reject J e)) \<in> {(''InvalidArgument'', CInvalidArgument, 400),
         (''PermissionDenied'', CPermissionDenied, 403), (''NotFound'', CNotFound, 404), (''AlreadyExists'', CAlreadyExists, 409),
         (''FailedPrecondition'', CFailedPrecondition, 409), (''Unimplemented'', CUnimplemented, 400)})"
proof
  from assms show "s' = s"
  proof (cases rule: apply_op_cases)
    case node
    then show ?thesis by (blast dest: rejected_node_op)
  next
    case create_volume
    then show ?thesis by (blast dest: rejected_create_volume)
  next
    case volume_case
    then show ?thesis by (blast dest: rejected_volume_case)
  next
    case create_attachment
    then show ?thesis by (blast dest: rejected_create_attachment)
  next
    case attachment_case
    then show ?thesis by (blast dest: rejected_attachment_case)
  next
    case get_instance
    then show ?thesis by (blast dest: get_instance_state)
  qed
  have "coded (Some e)" using apply_op_coded [of cfg env p op r s] assms by simp
  then obtain code msg where e: "e = ModelError code msg" and c: "code \<in> {''InvalidArgument'', ''PermissionDenied'',
      ''NotFound'', ''AlreadyExists'', ''FailedPrecondition'', ''Unimplemented''}"
    unfolding coded_def option.case by (elim exE conjE) (rule that)
  have "received_error e = e" by (simp add: e received_error_def wire_error_def)
  moreover have "\<exists>st. grpcErr e = Status st msg
    \<and> (code, st, wStatus (reject J e)) \<in> {(''InvalidArgument'', CInvalidArgument, 400),
         (''PermissionDenied'', CPermissionDenied, 403), (''NotFound'', CNotFound, 404), (''AlreadyExists'', CAlreadyExists, 409),
         (''FailedPrecondition'', CFailedPrecondition, 409), (''Unimplemented'', CUnimplemented, 400)}"
    using c by (elim insertE emptyE)
      (simp_all add: e grpc_code_def grpcErr_def reject_def wire_error_def http_status_def)
  ultimately show "\<exists>code msg st. e = ModelError code msg \<and> grpcErr e = Status st msg
    \<and> grpcErr (received_error e) = grpcErr e
    \<and> (code, st, wStatus (reject J e)) \<in> {(''InvalidArgument'', CInvalidArgument, 400),
         (''PermissionDenied'', CPermissionDenied, 403), (''NotFound'', CNotFound, 404), (''AlreadyExists'', CAlreadyExists, 409),
         (''FailedPrecondition'', CFailedPrecondition, 409), (''Unimplemented'', CUnimplemented, 400)}"
    using e by (elim exE conjE) (intro exI conjI, assumption, assumption, simp, assumption)
qed

theorem rejection_meaning_witness:
  "\<exists>out e. apply_op ex_config ex_env (ex_controller ''t2'') ''GetVolume'' (zero_request\<lparr>rID := ''v1''\<rparr>) ex_platform
      = (out, Some e, ex_platform) \<and> grpcErr e = Status CPermissionDenied ''volume outside principal scope''
    \<and> wStatus (reject demo_json e) = 403"
proof -
  have run: "apply_op ex_config ex_env (ex_controller ''t2'') ''GetVolume'' (zero_request\<lparr>rID := ''v1''\<rparr>) ex_platform
      = (zero_response, Some (ModelError ''PermissionDenied'' ''volume outside principal scope''), ex_platform)"
    by (simp add: apply_op_def volume_case_def ex_defs Err_def)
  from rejection_meaning [OF this, of demo_json] show ?thesis using run by auto
qed

end
