(* ===== verification/NodeDriver.thy ===== *)
theory NodeDriver
  imports Controller
begin

text \<open>
  \<^verbatim>\<open>internal/driver/node.go\<close>: the CSI node service. It keeps a durable journal of the staged
  volumes (a database of the store, one document under the key \<open>stages\<close>), drives the host's
  mounts and calls the Storage API. Its methods run one at a time (a mutex), on the state
  \<open>node_state\<close> of the three. \<open>cx n\<close> is what the context reports at the method's call number \<open>n\<close>
  to the API or the host, and \<open>ls\<close> what \<open>os.Lstat\<close> answers while the method checks its paths.

  The Go code changes a stage through a pointer into the map it has read; the model updates the map.
\<close>

section \<open>State\<close>

record target =
  tgReadOnly :: bool
  tgPodUID :: string

record stage =
  stVolume :: volume
  stProof :: request
  stPath :: string
  stReady :: bool
  stTargets :: "(string, target) fmap"

type_synonym stages = "(string, stage) fmap"

record ('a, 'h, 'tx) node_state =
  nAPI :: 'a
  nHost :: 'h
  nJournal :: 'tx

text \<open>What a node is made of; \<open>ndView\<close> and \<open>ndUpdate\<close> are the journal's two kinds of transaction.\<close>

record ('a, 'h, 'tx, 'b) node =
  ndAPI :: "'a caller"
  ndHost :: "'h host"
  ndBolt :: "('tx, 'b) bolt"
  ndCodec :: "('b, stages) codec"
  ndUpdate :: "(unit, 'tx) tx_fun \<Rightarrow> (unit, 'tx) tx_fun"
  ndView :: "(stages \<Rightarrow> 'tx \<Rightarrow> go_error option \<times> stages) \<Rightarrow> stages \<Rightarrow> 'tx \<Rightarrow> go_error option \<times> stages"
  ndRoot :: string
  ndInstance :: inst

type_synonym ('a, 'h, 'tx, 'r) rpc = "(('a, 'h, 'tx) node_state, fault, 'r) proc"

section \<open>The three parts of the state\<close>

definition call_api ::
  "('a, 'h, 'tx, 'b) node \<Rightarrow> ctx \<Rightarrow> string \<Rightarrow> request \<Rightarrow> ('a, 'h, 'tx, response) rpc" where
  "call_api n ctx op r = valued grpcErr (\<lambda>s.
     case ndAPI n ctx op r (nAPI s) of (res, a) \<Rightarrow> (res, s\<lparr>nAPI := a\<rparr>))"

definition on_host :: "('h \<Rightarrow> go_error option \<times> 'h) \<Rightarrow> ('a, 'h, 'tx, unit) rpc" where
  "on_host f = failing grpcErr (\<lambda>s. case f (nHost s) of (e, h) \<Rightarrow> (e, s\<lparr>nHost := h\<rparr>))"

definition read_stages :: "('a, 'h, 'tx, 'b) node \<Rightarrow> ('a, 'h, 'tx, stages) rpc" where
  "read_stages n = reading (\<lambda>s.
     case ndView n (\<lambda>m tx. case store_Read (ndBolt n) (ndCodec n) tx ''stages'' m of
                        Inl e \<Rightarrow> (Some e, m) | Inr m \<Rightarrow> (None, m)) fmempty (nJournal s) of
       (Some e, m) \<Rightarrow> Inl (grpcErr e)
     | (None, m) \<Rightarrow> Inr m)"

definition save_stages :: "('a, 'h, 'tx, 'b) node \<Rightarrow> stages \<Rightarrow> ('a, 'h, 'tx, unit) rpc" where
  "save_stages n m = failing grpcErr (\<lambda>s.
     case ndUpdate n (\<lambda>c tx. case store_Write (ndBolt n) (ndCodec n) tx ''stages'' m of
                         Inl e \<Rightarrow> (Some e, c, tx) | Inr tx \<Rightarrow> (None, c, tx)) () (nJournal s) of
       (e, _, tx) \<Rightarrow> (e, s\<lparr>nJournal := tx\<rparr>))"

text \<open>\<open>if err := n.validPath(path); err != nil { return nil, err }\<close>\<close>

definition check_path ::
  "('a, 'h, 'tx, 'b) node \<Rightarrow> (string \<Rightarrow> lstat) \<Rightarrow> string \<Rightarrow> ('a, 'h, 'tx, unit) rpc" where
  "check_path n ls path =
     (case validPath (ndRoot n) ls path of None \<Rightarrow> give () | Some e \<Rightarrow> raise e)"

definition stage_match :: "stage \<Rightarrow> string \<Rightarrow> string \<Rightarrow> string \<Rightarrow> request \<Rightarrow> bool" where
  "stage_match s mode fs path p \<longleftrightarrow>
     stPath s = path \<and> vMode (stVolume s) = mode \<and> vFSType (stVolume s) = fs
     \<and> rAttachmentID (stProof s) = rAttachmentID p \<and> rGeneration (stProof s) = rGeneration p"

text \<open>A \<open>range\<close> loop that returns the same error at the first entry with the property.\<close>

definition some_entry :: "('k \<Rightarrow> 'v \<Rightarrow> bool) \<Rightarrow> ('k, 'v) fmap \<Rightarrow> bool" where
  "some_entry P m \<longleftrightarrow> \<not> fmpred (\<lambda>k v. \<not> P k v) m"

definition target_pod :: "stage \<Rightarrow> string \<Rightarrow> string" where
  "target_pod s path = (case fmlookup (stTargets s) path of Some t \<Rightarrow> tgPodUID t | None \<Rightarrow> '''')"

section \<open>Staging\<close>

record stage_request =
  srVolumeId :: string
  srPath :: string
  srCapability :: "volume_capability option"
  srContext :: "(string, string) fmap"

text \<open>From \<open>s.Volume = *v\<close> on: the intent is saved before anything is mounted.\<close>

definition stage_commit ::
  "('a, 'h, 'tx, 'b) node \<Rightarrow> (nat \<Rightarrow> ctx) \<Rightarrow> string \<Rightarrow> stage \<Rightarrow> volume \<Rightarrow> stages \<Rightarrow> ('a, 'h, 'tx, unit) rpc" where
  "stage_commit n cx vol s v stages =
     (let s = s\<lparr>stVolume := v\<rparr> in
     andThen (save_stages n (fmupd vol s stages)) (\<lambda>_.
     andThen (on_host (HostStage (ndHost n) (cx 1) v (stPath s))) (\<lambda>_.
     andThen (call_api n (cx 2) ''MarkInitialized'' (stProof s)) (\<lambda>_.
     let s = s\<lparr>stVolume := v\<lparr>vAllowFormat := False\<rparr>, stReady := True\<rparr> in
     save_stages n (fmupd vol s stages)))))"

definition NodeStageVolume ::
  "('a, 'h, 'tx, 'b) node \<Rightarrow> (nat \<Rightarrow> ctx) \<Rightarrow> (string \<Rightarrow> lstat) \<Rightarrow> stage_request
     \<Rightarrow> ('a, 'h, 'tx, unit) rpc" where
  "NodeStageVolume n cx ls r =
     andThen (require (srVolumeId r \<noteq> '''') (Status CInvalidArgument ''volume ID required'')) (\<lambda>_.
     andThen (check_path n ls (srPath r)) (\<lambda>_.
     andThen (pure_result (capability (srCapability r))) (\<lambda>(mode, fs).
     andThen (pure_result (attach_proof (srVolumeId r) (srContext r))) (\<lambda>p.
     let p = p\<lparr>rUseID := useID (srVolumeId r) (srPath r) (rGeneration p), rMode := mode, rFSType := fs\<rparr> in
     andThen (read_stages n) (\<lambda>stages.
     andThen (require (case fmlookup stages (srVolumeId r) of
                         None \<Rightarrow> True | Some s \<Rightarrow> stage_match s mode fs (srPath r) p)
       (Status CAlreadyExists ''volume staged with different configuration'')) (\<lambda>_.
     andThen (require (\<not> some_entry (\<lambda>id other. id \<noteq> srVolumeId r
                         \<and> (stPath other = srPath r \<or> target_pod other (srPath r) \<noteq> '''')) stages)
       (Status CAlreadyExists ''path already owned by another volume'')) (\<lambda>_.
     andThen (call_api n (cx 0) ''AcquireUse'' p) (\<lambda>out.
     andThen (deref (oVolume out)) (\<lambda>v.
     andThen (require (vMode v = mode \<and> vFSType v = fs)
       (Status CInvalidArgument ''requested capability differs from authorized volume'')) (\<lambda>_.
     let s = (case fmlookup stages (srVolumeId r) of
                None \<Rightarrow> \<lparr>stVolume = v, stProof = p, stPath = srPath r, stReady = False, stTargets = fmempty\<rparr>
              | Some s \<Rightarrow> s) in
     stage_commit n cx (srVolumeId r) s v stages))))))))))"

section \<open>Publishing\<close>

record node_publish_request =
  npVolumeId :: string
  npPath :: string
  npStage :: string
  npCapability :: "volume_capability option"
  npContext :: "(string, string) fmap"
  npReadonly :: bool
  npVolumeContext :: "(string, string) fmap"

text \<open>From \<open>req := s.Proof\<close> on: the use is confirmed, the target saved, then mounted.\<close>

definition publish_commit ::
  "('a, 'h, 'tx, 'b) node \<Rightarrow> (nat \<Rightarrow> ctx) \<Rightarrow> node_publish_request \<Rightarrow> stage \<Rightarrow> target \<Rightarrow> stages
     \<Rightarrow> ('a, 'h, 'tx, unit) rpc" where
  "publish_commit n cx r s wanted stages =
     andThen (call_api n (cx 0) ''RecordPublish'' ((stProof s)\<lparr>rPodUID := tgPodUID wanted,
       rPodName := field (npVolumeContext r) ''csi.storage.k8s.io/pod.name'',
       rNamespace := field (npVolumeContext r) ''csi.storage.k8s.io/pod.namespace'',
       rServiceAccount := field (npVolumeContext r) ''csi.storage.k8s.io/serviceAccount.name''\<rparr>)) (\<lambda>_.
     andThen (save_stages n (fmupd (npVolumeId r)
       (s\<lparr>stTargets := fmupd (npPath r) wanted (stTargets s)\<rparr>) stages)) (\<lambda>_.
     on_host (HostPublish (ndHost n) (cx 1) (stVolume s) (stPath s) (npPath r) (npReadonly r))))"

definition NodePublishVolume ::
  "('a, 'h, 'tx, 'b) node \<Rightarrow> (nat \<Rightarrow> ctx) \<Rightarrow> (string \<Rightarrow> lstat) \<Rightarrow> node_publish_request
     \<Rightarrow> ('a, 'h, 'tx, unit) rpc" where
  "NodePublishVolume n cx ls r =
     andThen (require (npVolumeId r \<noteq> '''') (Status CInvalidArgument ''volume ID required'')) (\<lambda>_.
     andThen (check_path n ls (npPath r)) (\<lambda>_.
     andThen (check_path n ls (npStage r)) (\<lambda>_.
     andThen (require (npPath r \<noteq> npStage r) (Status CInvalidArgument ''stage and target must differ'')) (\<lambda>_.
     andThen (pure_result (capability (npCapability r))) (\<lambda>(mode, fs).
     andThen (pure_result (attach_proof (npVolumeId r) (npContext r))) (\<lambda>p.
     andThen (read_stages n) (\<lambda>stages.
     case fmlookup stages (npVolumeId r) of
       None \<Rightarrow> raise (Status CFailedPrecondition ''matching stage required'')
     | Some s \<Rightarrow>
         andThen (require (stReady s \<and> stage_match s mode fs (npStage r) p)
           (Status CFailedPrecondition ''matching stage required'')) (\<lambda>_.
         let pod = field (npVolumeContext r) ''csi.storage.k8s.io/pod.uid'' in
         andThen (require (ValidID pod) (Status CInvalidArgument ''Pod UID required via podInfoOnMount'')) (\<lambda>_.
         andThen (require (\<not> some_entry (\<lambda>id other. stPath other = npPath r
                             \<or> id \<noteq> npVolumeId r \<and> fmlookup (stTargets other) (npPath r) \<noteq> None) stages)
           (Status CAlreadyExists ''target path in use'')) (\<lambda>_.
         let wanted = \<lparr>tgReadOnly = npReadonly r, tgPodUID = pod\<rparr> in
         andThen (require (case fmlookup (stTargets s) (npPath r) of None \<Rightarrow> True | Some old \<Rightarrow> old = wanted)
           (Status CAlreadyExists ''target configuration differs'')) (\<lambda>_.
         publish_commit n cx r s wanted stages)))))))))))"

section \<open>Taking down\<close>

definition NodeUnpublishVolume ::
  "('a, 'h, 'tx, 'b) node \<Rightarrow> (nat \<Rightarrow> ctx) \<Rightarrow> (string \<Rightarrow> lstat) \<Rightarrow> string \<Rightarrow> string
     \<Rightarrow> ('a, 'h, 'tx, unit) rpc" where
  "NodeUnpublishVolume n cx ls volumeId path =
     andThen (require (volumeId \<noteq> '''') (Status CInvalidArgument ''volume ID required'')) (\<lambda>_.
     andThen (check_path n ls path) (\<lambda>_.
     andThen (read_stages n) (\<lambda>stages.
     case fmlookup stages volumeId of
       None \<Rightarrow> give ()
     | Some s \<Rightarrow>
         if fmlookup (stTargets s) path = None then give ()
         else
           andThen (on_host (HostUnmount (ndHost n) (cx 0) path)) (\<lambda>_.
           save_stages n (fmupd volumeId (s\<lparr>stTargets := fmdrop path (stTargets s)\<rparr>) stages)))))"

definition NodeUnstageVolume ::
  "('a, 'h, 'tx, 'b) node \<Rightarrow> (nat \<Rightarrow> ctx) \<Rightarrow> (string \<Rightarrow> lstat) \<Rightarrow> string \<Rightarrow> string
     \<Rightarrow> ('a, 'h, 'tx, unit) rpc" where
  "NodeUnstageVolume n cx ls volumeId path =
     andThen (require (volumeId \<noteq> '''') (Status CInvalidArgument ''volume ID required'')) (\<lambda>_.
     andThen (check_path n ls path) (\<lambda>_.
     andThen (read_stages n) (\<lambda>stages.
     case fmlookup stages volumeId of
       None \<Rightarrow> give ()
     | Some s \<Rightarrow>
         andThen (require (stPath s = path) (Status CInvalidArgument ''staging path mismatch'')) (\<lambda>_.
         andThen (require (stTargets s = fmempty) (Status CFailedPrecondition ''published targets remain'')) (\<lambda>_.
         andThen (on_host (HostUnmount (ndHost n) (cx 0) (stPath s))) (\<lambda>_.
         andThen (call_api n (cx 1) ''ReleaseUse'' (stProof s)) (\<lambda>_.
         save_stages n (fmdrop volumeId stages))))))))"

section \<open>Expansion and figures\<close>

definition lookup_stage ::
  "('a, 'h, 'tx, 'b) node \<Rightarrow> (string \<Rightarrow> lstat) \<Rightarrow> string \<Rightarrow> string \<Rightarrow> ('a, 'h, 'tx, stage) rpc" where
  "lookup_stage n ls volumeId path =
     andThen (require (volumeId \<noteq> '''') (Status CInvalidArgument ''volume ID required'')) (\<lambda>_.
     andThen (check_path n ls path) (\<lambda>_.
     andThen (read_stages n) (\<lambda>m.
     case fmlookup m volumeId of
       None \<Rightarrow> raise (Status CNotFound ''volume not staged'')
     | Some s \<Rightarrow>
         andThen (require (stReady s) (Status CNotFound ''volume not staged'')) (\<lambda>_.
         andThen (require (stPath s = path \<or> fmlookup (stTargets s) path \<noteq> None)
           (Status CNotFound ''untracked volume path'')) (\<lambda>_.
         give s)))))"

definition NodeExpandVolume ::
  "('a, 'h, 'tx, 'b) node \<Rightarrow> (nat \<Rightarrow> ctx) \<Rightarrow> (string \<Rightarrow> lstat) \<Rightarrow> string \<Rightarrow> string
     \<Rightarrow> capacity_range option \<Rightarrow> ('a, 'h, 'tx, int) rpc" where
  "NodeExpandVolume n cx ls volumeId path cr =
     (case cr of
        None \<Rightarrow> raise (Status CInvalidArgument ''positive capacity required'')
      | Some cr \<Rightarrow>
          andThen (require (crRequiredBytes cr > 0) (Status CInvalidArgument ''positive capacity required'')) (\<lambda>_.
          andThen (lookup_stage n ls volumeId path) (\<lambda>s.
          andThen (call_api n (cx 0) ''CheckUse'' (stProof s)) (\<lambda>out.
          andThen (deref (oVolume out)) (\<lambda>v.
          andThen (require (vSizeBytes v \<ge> crRequiredBytes cr)
            (Status CFailedPrecondition ''controller resize incomplete'')) (\<lambda>_.
          andThen (require (\<not> (crLimitBytes cr > 0 \<and> vSizeBytes v > crLimitBytes cr))
            (Status COutOfRange ''capacity exceeds limit'')) (\<lambda>_.
          andThen (on_host (HostExpand (ndHost n) (cx 1) v (stPath s))) (\<lambda>_.
          andThen (read_stages n) (\<lambda>m.
          case fmlookup m volumeId of
            None \<Rightarrow> raise Panic
          | Some s \<Rightarrow>
              andThen (save_stages n (fmupd volumeId (s\<lparr>stVolume := v\<rparr>) m)) (\<lambda>_.
              give (vSizeBytes v)))))))))))"

datatype usage_unit = UsageBytes | UsageInodes

record volume_usage =
  usUnit :: usage_unit
  usTotal :: int
  usAvailable :: int
  usUsed :: int

definition host_stats ::
  "('a, 'h, 'tx, 'b) node \<Rightarrow> ctx \<Rightarrow> volume \<Rightarrow> string \<Rightarrow> ('a, 'h, 'tx, stats) rpc" where
  "host_stats n ctx v path = valued grpcErr (\<lambda>s.
     case HostStats (ndHost n) ctx v path (nHost s) of (res, h) \<Rightarrow> (res, s\<lparr>nHost := h\<rparr>))"

text \<open>\<open>v.Inodes - v.InodesFree\<close> is an \<open>int64\<close> difference.\<close>

definition NodeGetVolumeStats ::
  "('a, 'h, 'tx, 'b) node \<Rightarrow> (nat \<Rightarrow> ctx) \<Rightarrow> (string \<Rightarrow> lstat) \<Rightarrow> string \<Rightarrow> string
     \<Rightarrow> ('a, 'h, 'tx, volume_usage list) rpc" where
  "NodeGetVolumeStats n cx ls volumeId path =
     andThen (lookup_stage n ls volumeId path) (\<lambda>s.
     andThen (host_stats n (cx 0) (stVolume s) path) (\<lambda>v.
     give (\<lparr>usUnit = UsageBytes, usTotal = sTotal v, usAvailable = sAvailable v, usUsed = sUsed v\<rparr>
       # (if vMode (stVolume s) = ''mount''
          then [\<lparr>usUnit = UsageInodes, usTotal = sInodes v, usAvailable = sInodesFree v,
                 usUsed = sint (word_of_int (sInodes v) - word_of_int (sInodesFree v) :: 64 word)\<rparr>]
          else []))))"

section \<open>Information\<close>

record node_info =
  niNodeId :: string
  niTopology :: segments

definition NodeGetInfo :: "('a, 'h, 'tx, 'b) node \<Rightarrow> node_info" where
  "NodeGetInfo n = \<lparr>niNodeId = iID (ndInstance n),
     niTopology = fmupd ZoneKey (iZone (ndInstance n)) (fmupd RegionKey (iRegion (ndInstance n)) fmempty)\<rparr>"

datatype node_capability = StageUnstageVolume | NodeExpand | GetVolumeStats

definition NodeGetCapabilities :: "node_capability list" where
  "NodeGetCapabilities = [StageUnstageVolume, NodeExpand, GetVolumeStats]"

end
