(* ===== verification/Service.thy ===== *)
theory Service
  imports NodeDriver
begin

text \<open>
  What the drivers rely on when they call the Storage API, as two interfaces over any caller.
  \<open>storage_api\<close> says which fields a successful answer has; the controller driver needs no more.
  \<open>use_service\<close> is the contract of durable uses that the node driver adds: a use that was acquired
  or confirmed is there, and nothing but releasing that very use on that volume takes it away. The
  engine behind \<open>testkit.Local\<close> keeps both, with any other activity around the calls (theory
  \<open>World\<close>).
\<close>

locale storage_api =
  fixes C :: "'a caller"
  assumes volume_field: "C ctx op r a = ((out, None), a') \<Longrightarrow>
      op \<in> {''CreateVolume'', ''GetVolume'', ''ResizeVolume'', ''AcquireUse'', ''CheckUse''} \<Longrightarrow> oVolume out \<noteq> None"
    and attachment_field: "C ctx ''CreateAttachment'' r a = ((out, None), a') \<Longrightarrow> oAttachment out \<noteq> None"

locale use_service = storage_api C for C :: "'a caller" +
  fixes ok :: "'a \<Rightarrow> bool"
    and holds :: "'a \<Rightarrow> string \<Rightarrow> string \<Rightarrow> string \<Rightarrow> bool"
  assumes call_ok: "ok a \<Longrightarrow> C ctx op r a = (res, a') \<Longrightarrow> ok a'"
    and call_holds: "ok a \<Longrightarrow> C ctx op r a = (res, a') \<Longrightarrow> holds a vol att use \<Longrightarrow>
      op \<noteq> ''ReleaseUse'' \<or> rVolumeID r \<noteq> vol \<Longrightarrow> holds a' vol att use"
    and use_confirmed: "ok a \<Longrightarrow> C ctx op r a = ((out, None), a') \<Longrightarrow>
      op \<in> {''AcquireUse'', ''CheckUse'', ''RecordPublish'', ''MarkInitialized''} \<Longrightarrow>
      holds a' (rVolumeID r) (rAttachmentID r) (rUseID r)"
    and use_volume: "ok a \<Longrightarrow> C ctx op r a = ((out, None), a') \<Longrightarrow>
      op \<in> {''AcquireUse'', ''CheckUse''} \<Longrightarrow> oVolume out = Some v \<Longrightarrow> vID v = rVolumeID r"

text \<open>The first law operation by operation, for the calls the drivers make.\<close>

context storage_api
begin

lemma answered:
  "C ctx ''CreateVolume'' r a = ((out, None), a') \<Longrightarrow> oVolume out \<noteq> None"
  "C ctx ''GetVolume'' r a = ((out, None), a') \<Longrightarrow> oVolume out \<noteq> None"
  "C ctx ''ResizeVolume'' r a = ((out, None), a') \<Longrightarrow> oVolume out \<noteq> None"
  "C ctx ''AcquireUse'' r a = ((out, None), a') \<Longrightarrow> oVolume out \<noteq> None"
  "C ctx ''CheckUse'' r a = ((out, None), a') \<Longrightarrow> oVolume out \<noteq> None"
  by (erule volume_field, simp)+

end

section \<open>Stepping through a method\<close>

text \<open>
  Introduction rules for \<open>ensures\<close>, one per kind of step a driver's method is made of: what is to
  be shown when the step fails, and what when the method goes on.
\<close>

named_theorems step_rules "steps of a driver's method"

lemma require_step [step_rules]:
  "(ok' \<Longrightarrow> ensures (f ()) Q s) \<Longrightarrow> (\<not> ok' \<Longrightarrow> Q (Inl e) s) \<Longrightarrow> ensures (andThen (require ok' e) f) Q s"
  by (simp add: proc_rules)

lemma pure_step [step_rules]:
  "(\<And>x. r = Inr x \<Longrightarrow> ensures (f x) Q s) \<Longrightarrow> (\<And>e. r = Inl e \<Longrightarrow> Q (Inl e) s) \<Longrightarrow>
     ensures (andThen (pure_result r) f) Q s"
  by (cases r) (simp_all add: proc_rules)

lemma deref_step [step_rules]:
  "(\<And>v. x = Some v \<Longrightarrow> ensures (f v) Q s) \<Longrightarrow> (x = None \<Longrightarrow> Q (Inl Panic) s) \<Longrightarrow>
     ensures (andThen (deref x) f) Q s"
  by (cases x) (simp_all add: deref_def proc_rules)

lemma api_step [step_rules]:
  "(\<And>out a. C ctx op r s = ((out, None), a) \<Longrightarrow> ensures (f out) Q a) \<Longrightarrow>
   (\<And>out e a. C ctx op r s = ((out, Some e), a) \<Longrightarrow> Q (Inl (grpcErr e)) a) \<Longrightarrow>
     ensures (andThen (api C ctx op r) f) Q s"
  by (auto simp: api_def proc_rules split: prod.split option.split sum.split)

lemma check_path_step [step_rules]:
  "(validPath (ndRoot n) ls path = None \<Longrightarrow> ensures (f ()) Q s) \<Longrightarrow>
   (\<And>e. validPath (ndRoot n) ls path = Some e \<Longrightarrow> Q (Inl e) s) \<Longrightarrow>
     ensures (andThen (check_path n ls path) f) Q s"
  by (cases "validPath (ndRoot n) ls path") (simp_all add: check_path_def proc_rules)

lemma call_api_step [step_rules]:
  "(\<And>out a. ndAPI n ctx op r (nAPI s) = ((out, None), a) \<Longrightarrow> ensures (f out) Q (s\<lparr>nAPI := a\<rparr>)) \<Longrightarrow>
   (\<And>out e a. ndAPI n ctx op r (nAPI s) = ((out, Some e), a) \<Longrightarrow> Q (Inl (grpcErr e)) (s\<lparr>nAPI := a\<rparr>)) \<Longrightarrow>
     ensures (andThen (call_api n ctx op r) f) Q s"
  by (auto simp: call_api_def proc_rules split: prod.split option.split sum.split)

lemma on_host_step [step_rules]:
  "(\<And>h. g (nHost s) = (None, h) \<Longrightarrow> ensures (f ()) Q (s\<lparr>nHost := h\<rparr>)) \<Longrightarrow>
   (\<And>e h. g (nHost s) = (Some e, h) \<Longrightarrow> Q (Inl (grpcErr e)) (s\<lparr>nHost := h\<rparr>)) \<Longrightarrow>
     ensures (andThen (on_host g) f) Q s"
  by (auto simp: on_host_def proc_rules split: prod.split option.split sum.split)

lemma host_stats_step [step_rules]:
  "(\<And>v h. HostStats (ndHost n) ctx x path (nHost s) = ((v, None), h) \<Longrightarrow> ensures (f v) Q (s\<lparr>nHost := h\<rparr>)) \<Longrightarrow>
   (\<And>v e h. HostStats (ndHost n) ctx x path (nHost s) = ((v, Some e), h) \<Longrightarrow> Q (Inl (grpcErr e)) (s\<lparr>nHost := h\<rparr>)) \<Longrightarrow>
     ensures (andThen (host_stats n ctx x path) f) Q s"
  by (auto simp: host_stats_def proc_rules split: prod.split option.split sum.split)

text \<open>Steps of the methods that decide without touching the state.\<close>

lemma split_step: "(\<And>x y. p = (x, y) \<Longrightarrow> ensures (f x y) Q s) \<Longrightarrow> ensures (case p of (x, y) \<Rightarrow> f x y) Q s"
  by (cases p) simp

lemma option_step:
  "(x = None \<Longrightarrow> ensures g Q s) \<Longrightarrow> (\<And>v. x = Some v \<Longrightarrow> ensures (f v) Q s) \<Longrightarrow>
     ensures (case x of None \<Rightarrow> g | Some v \<Rightarrow> f v) Q s"
  by (cases x) simp_all

lemma if_step:
  "(b \<Longrightarrow> ensures f Q s) \<Longrightarrow> (\<not> b \<Longrightarrow> ensures g Q s) \<Longrightarrow> ensures (if b then f else g) Q s"
  by simp

lemmas plain_steps = require_step pure_step deref_step check_path_step split_step option_step if_step

text \<open>The last step of a method has no continuation.\<close>

lemma andThen_give: "andThen m give = m"
  by (auto simp: fun_eq_iff andThen_def give_def split: prod.split sum.split)

lemma last_step: "ensures (andThen m give) Q s \<Longrightarrow> ensures m Q s"
  by (simp add: andThen_give)

section \<open>The journal\<close>

text \<open>The durable journal as the code reads it.\<close>

definition journal :: "('a, 'h, 'tx, 'b) node \<Rightarrow> 'tx \<Rightarrow> go_error + stages" where
  "journal n tx = store_Read (ndBolt n) (ndCodec n) tx ''stages'' fmempty"

definition journal_ok :: "('a, 'h, 'tx, 'b) node \<Rightarrow> bool" where
  "journal_ok n \<longleftrightarrow> bolt_ok (ndBolt n) \<and> codec_ok (ndCodec n) fmempty \<and> atomic_update (ndUpdate n)
     \<and> atomic_view (ndView n)"

lemma atomic_viewD:
  "atomic_view vw \<Longrightarrow> vw f c db = f c db \<or> (\<exists>x c'. vw f c db = (Some x, c'))"
  by (simp add: atomic_view_def)

lemma read_stages_step:
  assumes "journal_ok n" and "\<And>m. journal n (nJournal s) = Inr m \<Longrightarrow> ensures (f m) Q s"
    and "\<And>e. Q (Inl (grpcErr e)) s"
  shows "ensures (andThen (read_stages n) f) Q s"
proof -
  define g where "g = (\<lambda>m tx. case store_Read (ndBolt n) (ndCodec n) tx ''stages'' m of
      Inl e \<Rightarrow> (Some e, m) | Inr m \<Rightarrow> (None, m))"
  have "atomic_view (ndView n)" using assms(1) by (simp add: journal_ok_def)
  from atomic_viewD [OF this, of g fmempty "nJournal s"]
  consider (read) m where "ndView n g fmempty (nJournal s) = (None, m)" "journal n (nJournal s) = Inr m"
    | (failed) e m where "ndView n g fmempty (nJournal s) = (Some e, m)"
    by (auto simp: g_def journal_def split: sum.splits)
  then show ?thesis
  proof cases
    case read
    then show ?thesis using assms(2) by (simp add: read_stages_def proc_rules flip: g_def)
  next
    case failed
    then show ?thesis using assms(3) by (simp add: read_stages_def proc_rules flip: g_def)
  qed
qed

lemma save_stages_step:
  assumes "journal_ok n"
    and "\<And>tx. journal n tx = Inr m \<Longrightarrow> ensures (f ()) Q (s\<lparr>nJournal := tx\<rparr>)"
    and "\<And>e tx. journal n tx = journal n (nJournal s) \<Longrightarrow> Q (Inl (grpcErr e)) (s\<lparr>nJournal := tx\<rparr>)"
  shows "ensures (andThen (save_stages n m) f) Q s"
proof -
  let ?g = "\<lambda>c tx. case store_Write (ndBolt n) (ndCodec n) tx ''stages'' m of
      Inl e \<Rightarrow> (Some e, c, tx) | Inr tx \<Rightarrow> (None, c, tx)"
  obtain e c' tx where run: "ndUpdate n ?g () (nJournal s) = (e, c', tx)"
    by (cases "ndUpdate n ?g () (nJournal s)") blast
  have upd: "atomic_update (ndUpdate n)" and B: "bolt_ok (ndBolt n)" and cd: "codec_ok (ndCodec n) fmempty"
    using assms(1) by (simp_all add: journal_ok_def)
  show ?thesis
  proof (cases e)
    case None
    from upd run have "?g () (nJournal s) = (None, c', tx)"
      by (cases rule: atomic_update_cases) (use None in auto)
    then have "store_Write (ndBolt n) (ndCodec n) (nJournal s) ''stages'' m = Inr tx"
      by (auto split: sum.splits)
    then have "journal n tx = Inr m"
      unfolding journal_def by (rule store_Read_Write [OF B cd])
    then show ?thesis
      using assms(2) run None by (simp add: save_stages_def proc_rules)
  next
    case (Some x)
    then have "tx = nJournal s" using atomic_update_error [OF upd] run by blast
    then show ?thesis
      using assms(3) [of tx] run Some by (simp add: save_stages_def proc_rules)
  qed
qed

end
