(* ===== verification/NodeProps.thy ===== *)
theory NodeProps
  imports Service
begin

text \<open>
  The node driver against its two interfaces: over any API that keeps the contract of durable uses
  and any host that keeps the contract of mounts, every method keeps the node's invariant, also
  when it fails at any step. A crash between two steps leaves the state a failure of the next
  step leaves, so the invariant covers restarts as well.
\<close>

section \<open>The invariant\<close>

text \<open>
  A journal entry belongs to its volume, and its use is named after volume, path and generation.
  Whatever is mounted is tracked: the journal has an entry for the volume with that path as its
  stage or as a target, and the entry's use is held.
\<close>

definition stage_ok :: "string \<Rightarrow> stage \<Rightarrow> bool" where
  "stage_ok vol s \<longleftrightarrow> vID (stVolume s) = vol \<and> rVolumeID (stProof s) = vol
     \<and> rUseID (stProof s) = useID vol (stPath s) (rGeneration (stProof s))"

definition tracks :: "stages \<Rightarrow> string \<Rightarrow> string \<Rightarrow> stage \<Rightarrow> bool" where
  "tracks m path vol s \<longleftrightarrow> fmlookup m vol = Some s
     \<and> (path = stPath s \<or> fmlookup (stTargets s) path \<noteq> None)"

definition node_inv ::
  "('a \<Rightarrow> bool) \<Rightarrow> ('a \<Rightarrow> string \<Rightarrow> string \<Rightarrow> string \<Rightarrow> bool) \<Rightarrow> ('h \<Rightarrow> string \<Rightarrow> string option)
     \<Rightarrow> stages \<Rightarrow> 'a \<Rightarrow> 'h \<Rightarrow> bool" where
  "node_inv ok holds mounted_at m a h \<longleftrightarrow> ok a \<and> (\<forall>vol s. fmlookup m vol = Some s \<longrightarrow> stage_ok vol s)
     \<and> (\<forall>path vol. mounted_at h path = Some vol \<longrightarrow>
          (\<exists>s. tracks m path vol s \<and> holds a vol (rAttachmentID (stProof s)) (rUseID (stProof s))))"

definition node_ok ::
  "('a, 'h, 'tx, 'b) node \<Rightarrow> ('a \<Rightarrow> bool) \<Rightarrow> ('a \<Rightarrow> string \<Rightarrow> string \<Rightarrow> string \<Rightarrow> bool)
     \<Rightarrow> ('h \<Rightarrow> string \<Rightarrow> string option) \<Rightarrow> ('a, 'h, 'tx) node_state \<Rightarrow> bool" where
  "node_ok n ok holds mounted_at s \<longleftrightarrow>
     (\<exists>m. journal n (nJournal s) = Inr m \<and> node_inv ok holds mounted_at m (nAPI s) (nHost s))"

lemma node_invI:
  assumes "ok a" and "\<And>vol s. fmlookup m vol = Some s \<Longrightarrow> stage_ok vol s"
    and "\<And>path vol. mounted_at h path = Some vol \<Longrightarrow>
      \<exists>s. tracks m path vol s \<and> holds a vol (rAttachmentID (stProof s)) (rUseID (stProof s))"
  shows "node_inv ok holds mounted_at m a h"
  using assms by (auto simp: node_inv_def)

lemma node_invD:
  assumes "node_inv ok holds mounted_at m a h"
  shows "ok a" and "fmlookup m vol = Some s \<Longrightarrow> stage_ok vol s"
    and "mounted_at h path = Some vol \<Longrightarrow>
      \<exists>s. tracks m path vol s \<and> holds a vol (rAttachmentID (stProof s)) (rUseID (stProof s))"
  using assms by (auto simp: node_inv_def)

text \<open>Replacing one entry: a new entry with the same proof and path and no fewer targets tracks what the old one did.\<close>

lemma node_inv_replace:
  assumes inv: "node_inv ok holds mounted_at m a h" and s': "stage_ok vol s'"
    and old: "\<And>s path. fmlookup m vol = Some s \<Longrightarrow> mounted_at h path = Some vol \<Longrightarrow>
      stProof s' = stProof s \<and> stPath s' = stPath s
      \<and> (fmlookup (stTargets s) path \<noteq> None \<longrightarrow> fmlookup (stTargets s') path \<noteq> None)"
  shows "node_inv ok holds mounted_at (fmupd vol s' m) a h"
proof (rule node_invI)
  show "ok a" using node_invD(1) [OF inv] .
  show "stage_ok v s" if "fmlookup (fmupd vol s' m) v = Some s" for v s
    using that s' node_invD(2) [OF inv] by (auto split: if_splits)
  fix path v
  assume mnt: "mounted_at h path = Some v"
  from node_invD(3) [OF inv this] obtain s where s: "tracks m path v s"
    "holds a v (rAttachmentID (stProof s)) (rUseID (stProof s))" by blast
  show "\<exists>s. tracks (fmupd vol s' m) path v s \<and> holds a v (rAttachmentID (stProof s)) (rUseID (stProof s))"
  proof (cases "v = vol")
    case True
    then have "stProof s' = stProof s \<and> stPath s' = stPath s
        \<and> (fmlookup (stTargets s) path \<noteq> None \<longrightarrow> fmlookup (stTargets s') path \<noteq> None)"
      using old s(1) mnt by (auto simp: tracks_def)
    then have "tracks (fmupd vol s' m) path v s' \<and> holds a v (rAttachmentID (stProof s')) (rUseID (stProof s'))"
      using s True by (auto simp: tracks_def)
    then show ?thesis ..
  next
    case False
    then have "tracks (fmupd vol s' m) path v s" using s(1) by (simp add: tracks_def)
    then show ?thesis using s(2) by blast
  qed
qed

section \<open>Every method keeps it\<close>

locale node_driver = use_service C ok holds + mount_host H mounted_at
  for C :: "'a caller" and ok and holds and H :: "'h host" and mounted_at +
  fixes n :: "('a, 'h, 'tx, 'b) node"
  assumes node_api: "ndAPI n = C" and node_host: "ndHost n = H" and node_journal: "journal_ok n"
begin

abbreviation inv where "inv \<equiv> node_inv ok holds mounted_at"
abbreviation node_okay where "node_okay \<equiv> node_ok n ok holds mounted_at"

lemmas read_step = read_stages_step [OF node_journal]
lemmas save_step = save_stages_step [OF node_journal]

text \<open>How a step of each kind carries the invariant.\<close>

lemma inv_call:
  assumes "inv m a h" and "C ctx op r a = (res, a')"
    and "op \<noteq> ''ReleaseUse'' \<or> (\<forall>path. mounted_at h path \<noteq> Some (rVolumeID r))"
  shows "inv m a' h"
proof (rule node_invI)
  show "ok a'" using call_ok node_invD(1) [OF assms(1)] assms(2) by blast
  show "stage_ok vol s" if "fmlookup m vol = Some s" for vol s using node_invD(2) [OF assms(1)] that .
  fix path vol
  assume mnt: "mounted_at h path = Some vol"
  from node_invD(3) [OF assms(1) this] obtain s where s: "tracks m path vol s"
    "holds a vol (rAttachmentID (stProof s)) (rUseID (stProof s))" by blast
  have "op \<noteq> ''ReleaseUse'' \<or> rVolumeID r \<noteq> vol" using assms(3) mnt by auto
  then have "holds a' vol (rAttachmentID (stProof s)) (rUseID (stProof s))"
    using call_holds [OF node_invD(1) [OF assms(1)] assms(2) s(2)] by blast
  then show "\<exists>s. tracks m path vol s \<and> holds a' vol (rAttachmentID (stProof s)) (rUseID (stProof s))"
    using s(1) by blast
qed

lemma inv_mount:
  assumes "inv m a h" and "may_mount (mounted_at h) path vol (mounted_at h')" and "tracks m path vol s"
    and "holds a vol (rAttachmentID (stProof s)) (rUseID (stProof s))"
  shows "inv m a h'"
proof (rule node_invI)
  show "ok a" using node_invD(1) [OF assms(1)] .
  show "stage_ok vol s" if "fmlookup m vol = Some s" for vol s using node_invD(2) [OF assms(1)] that .
  fix p v
  assume "mounted_at h' p = Some v"
  then consider "mounted_at h p = Some v" | "p = path" "v = vol"
    using assms(2) by (auto simp: may_mount_def split: if_splits)
  then show "\<exists>s. tracks m p v s \<and> holds a v (rAttachmentID (stProof s)) (rUseID (stProof s))"
    by cases (use node_invD(3) [OF assms(1)] assms(3,4) in blast)+
qed

lemma inv_unmount:
  assumes "inv m a h" and "mounted_at h' = mounted_at h \<or> mounted_at h' = (mounted_at h)(path := None)"
  shows "inv m a h'"
  using assms unfolding node_inv_def by (metis fun_upd_other fun_upd_same option.distinct(1))

lemma inv_same_mounts: "inv m a h \<Longrightarrow> mounted_at h' = mounted_at h \<Longrightarrow> inv m a h'"
  by (simp add: node_inv_def)

lemma node_okI: "journal n (nJournal s) = Inr m \<Longrightarrow> inv m (nAPI s) (nHost s) \<Longrightarrow> node_okay s"
  by (auto simp: node_ok_def)


text \<open>
  The assertion of the proofs below: the journal reads \<open>m\<close> and the invariant holds. Every method
  is a sequence of steps from such a state; the rules say what is known after each.
\<close>

definition node_at where
  "node_at m s \<longleftrightarrow> journal n (nJournal s) = Inr m \<and> inv m (nAPI s) (nHost s)"

lemma node_atD: "node_at m s \<Longrightarrow> journal n (nJournal s) = Inr m" "node_at m s \<Longrightarrow> inv m (nAPI s) (nHost s)"
  by (simp_all add: node_at_def)

lemma node_at_okay: "node_at m s \<Longrightarrow> node_okay s"
  unfolding node_at_def by (blast intro: node_okI)

lemma node_okay_at: "node_okay s \<Longrightarrow> \<exists>m. node_at m s"
  by (auto simp: node_ok_def node_at_def)

lemma read_at:
  assumes "node_okay s" and "\<And>m. node_at m s \<Longrightarrow> ensures (f m) (\<lambda>_. node_okay) s"
  shows "ensures (andThen (read_stages n) f) (\<lambda>_. node_okay) s"
proof (rule read_step)
  fix m assume m: "journal n (nJournal s) = Inr m"
  obtain m' where m': "node_at m' s" using node_okay_at [OF assms(1)] ..
  with m have "m = m'" by (simp add: node_at_def)
  with m' show "ensures (f m) (\<lambda>_. node_okay) s" by (simp add: assms(2))
qed (fact assms(1))

lemma save_at:
  assumes s: "node_at m s" and m': "inv m' (nAPI s) (nHost s)"
    and go: "\<And>s'. node_at m' s' \<Longrightarrow> nAPI s' = nAPI s \<Longrightarrow> nHost s' = nHost s \<Longrightarrow> ensures (f ()) (\<lambda>_. node_okay) s'"
  shows "ensures (andThen (save_stages n m') f) (\<lambda>_. node_okay) s"
proof (rule save_step)
  show "ensures (f ()) (\<lambda>_. node_okay) (s\<lparr>nJournal := tx\<rparr>)" if "journal n tx = Inr m'" for tx
    using that m' by (intro go) (simp_all add: node_at_def)
  show "node_okay (s\<lparr>nJournal := tx\<rparr>)" if "journal n tx = journal n (nJournal s)" for tx
    using that s by (intro node_at_okay [of m]) (simp add: node_at_def)
qed

lemma call_at:
  assumes s: "node_at m s"
    and op: "op \<noteq> ''ReleaseUse'' \<or> (\<forall>path. mounted_at (nHost s) path \<noteq> Some (rVolumeID r))"
    and go: "\<And>out s'. node_at m s' \<Longrightarrow> nHost s' = nHost s \<Longrightarrow>
      C ctx op r (nAPI s) = ((out, None), nAPI s') \<Longrightarrow> ensures (f out) (\<lambda>_. node_okay) s'"
  shows "ensures (andThen (call_api n ctx op r) f) (\<lambda>_. node_okay) s"
proof -
  have next_at: "node_at m (s\<lparr>nAPI := a\<rparr>)" if "C ctx op r (nAPI s) = (res, a)" for res a
    using inv_call [OF node_atD(2) [OF s] that op] node_atD(1) [OF s] by (simp add: node_at_def)
  show ?thesis
    by (rule call_api_step) (auto simp: node_api intro!: go intro: next_at node_at_okay)
qed

lemma host_at:
  assumes s: "node_at m s" and g: "\<And>e h. g (nHost s) = (e, h) \<Longrightarrow> inv m (nAPI s) h"
    and go: "\<And>s'. node_at m s' \<Longrightarrow> nAPI s' = nAPI s \<Longrightarrow> g (nHost s) = (None, nHost s') \<Longrightarrow>
      ensures (f ()) (\<lambda>_. node_okay) s'"
  shows "ensures (andThen (on_host g) f) (\<lambda>_. node_okay) s"
proof -
  have next_at: "node_at m (s\<lparr>nHost := h\<rparr>)" if "g (nHost s) = (e, h)" for e h
    using g [OF that] node_atD(1) [OF s] by (simp add: node_at_def)
  show ?thesis
    by (rule on_host_step) (auto intro!: go intro: next_at node_at_okay)
qed

lemma stage_at:
  assumes s: "node_at m s" and "tracks m path (vID v) st"
    and "holds (nAPI s) (vID v) (rAttachmentID (stProof st)) (rUseID (stProof st))"
    and "\<And>s'. node_at m s' \<Longrightarrow> nAPI s' = nAPI s \<Longrightarrow> ensures (f ()) (\<lambda>_. node_okay) s'"
  shows "ensures (andThen (on_host (HostStage (ndHost n) ctx v path)) f) (\<lambda>_. node_okay) s"
proof (rule host_at [OF s])
  show "inv m (nAPI s) h" if "HostStage (ndHost n) ctx v path (nHost s) = (e, h)" for e h
    using that assms(2,3) unfolding node_host by (intro inv_mount [OF node_atD(2) [OF s] stage])
qed (rule assms(4))

lemma publish_at:
  assumes s: "node_at m s" and "tracks m target (vID v) st"
    and "holds (nAPI s) (vID v) (rAttachmentID (stProof st)) (rUseID (stProof st))"
    and "\<And>s'. node_at m s' \<Longrightarrow> nAPI s' = nAPI s \<Longrightarrow> ensures (f ()) (\<lambda>_. node_okay) s'"
  shows "ensures (andThen (on_host (HostPublish (ndHost n) ctx v stg target ro)) f) (\<lambda>_. node_okay) s"
proof (rule host_at [OF s])
  show "inv m (nAPI s) h" if "HostPublish (ndHost n) ctx v stg target ro (nHost s) = (e, h)" for e h
    using that assms(2,3) unfolding node_host by (intro inv_mount [OF node_atD(2) [OF s] publish])
qed (rule assms(4))

lemma unmount_at:
  assumes s: "node_at m s"
    and go: "\<And>s'. node_at m s' \<Longrightarrow> nAPI s' = nAPI s \<Longrightarrow>
      mounted_at (nHost s') = (mounted_at (nHost s))(path := None) \<Longrightarrow> ensures (f ()) (\<lambda>_. node_okay) s'"
  shows "ensures (andThen (on_host (HostUnmount (ndHost n) ctx path)) f) (\<lambda>_. node_okay) s"
proof (rule host_at [OF s])
  show "inv m (nAPI s) h" if "HostUnmount (ndHost n) ctx path (nHost s) = (e, h)" for e h
    using unmount [OF that [unfolded node_host]] by (intro inv_unmount [OF node_atD(2) [OF s]]) blast
  show "ensures (f ()) (\<lambda>_. node_okay) s'" if "node_at m s'" "nAPI s' = nAPI s"
    "HostUnmount (ndHost n) ctx path (nHost s) = (None, nHost s')" for s'
  proof (rule go [OF that(1,2)])
    show "mounted_at (nHost s') = (mounted_at (nHost s))(path := None)"
      using unmount [OF that(3) [unfolded node_host]] by (auto simp: fun_eq_iff)
  qed
qed

lemma last_at:
  fixes p :: "('a, 'h, 'tx, unit) rpc"
  assumes "\<And>f :: unit \<Rightarrow> ('a, 'h, 'tx, unit) rpc.
      (\<And>s'. node_at m' s' \<Longrightarrow> ensures (f ()) (\<lambda>_. node_okay) s') \<Longrightarrow>
      ensures (andThen p f) (\<lambda>_. node_okay) s"
  shows "ensures p (\<lambda>_. node_okay) s"
proof (rule last_step)
  show "ensures (andThen p give) (\<lambda>_. node_okay) s"
    by (rule assms) (simp add: ensures_give node_at_okay)
qed

section \<open>Staging\<close>

lemma stage_commit_okay:
  assumes s: "node_at m s" and st: "stage_ok vol st" and v: "vID v = vol"
    and held: "holds (nAPI s) vol (rAttachmentID (stProof st)) (rUseID (stProof st))"
    and old: "fmlookup m vol = None \<or> fmlookup m vol = Some st"
  shows "ensures (stage_commit n cx vol st v m) (\<lambda>_. node_okay) s"
proof -
  define st1 where "st1 = st\<lparr>stVolume := v\<rparr>"
  define st2 where "st2 = st1\<lparr>stVolume := v\<lparr>vAllowFormat := False\<rparr>, stReady := True\<rparr>"
  have same: "stProof st1 = stProof st" "stPath st1 = stPath st" "stTargets st1 = stTargets st"
    "stProof st2 = stProof st" "stPath st2 = stPath st" "stTargets st2 = stTargets st"
    by (simp_all add: st1_def st2_def)
  have oks: "stage_ok vol st1" "stage_ok vol st2"
    using st v by (simp_all add: stage_ok_def st1_def st2_def)
  have m1: "inv (fmupd vol st1 m) (nAPI s) (nHost s)"
    by (rule node_inv_replace [OF node_atD(2) [OF s] oks(1)]) (use old same in auto)
  have tr: "tracks (fmupd vol st1 m) (stPath st) vol st1" by (simp add: tracks_def same)
  have commit: "stage_commit n cx vol st v m =
      andThen (save_stages n (fmupd vol st1 m)) (\<lambda>_.
      andThen (on_host (HostStage (ndHost n) (cx 1) v (stPath st))) (\<lambda>_.
      andThen (call_api n (cx 2) ''MarkInitialized'' (stProof st)) (\<lambda>_.
      save_stages n (fmupd vol st2 m))))"
    by (simp add: stage_commit_def Let_def st1_def st2_def)
  have finish: "ensures (save_stages n (fmupd vol st2 m)) (\<lambda>_. node_okay) t"
    if t: "node_at (fmupd vol st1 m) t" for t
  proof (rule last_at [where m' = "fmupd vol st2 m"], rule save_at [OF t])
    have "inv (fmupd vol st2 (fmupd vol st1 m)) (nAPI t) (nHost t)"
      by (rule node_inv_replace [OF node_atD(2) [OF t] oks(2)]) (auto simp: same)
    then show "inv (fmupd vol st2 m) (nAPI t) (nHost t)" by simp
  qed blast
  show ?thesis
    unfolding commit
  proof (rule save_at [OF s m1], goal_cases)
    case (1 s1)
    show ?case
    proof (rule stage_at [where st = st1, OF 1(1)], goal_cases)
      case 1
      show ?case using tr v by simp
    next
      case 2
      show ?case using held v 1 by (simp add: same)
    next
      case (3 s2)
      show ?case by (rule call_at [OF 3(1)]) (simp_all add: finish)
    qed
  qed
qed


lemma NodeStageVolume_okay:
  assumes "node_okay s"
  shows "ensures (NodeStageVolume n cx ls r) (\<lambda>_. node_okay) s"
  unfolding NodeStageVolume_def Let_def
proof (intro plain_steps read_at assms, goal_cases)
  case (1 cap mode fs p m)
  define vol where "vol = srVolumeId r"
  define q where "q = p\<lparr>rUseID := useID vol (srPath r) (rGeneration p), rMode := mode, rFSType := fs\<rparr>"
  have q: "rVolumeID q = vol" "rUseID q = useID vol (srPath r) (rGeneration q)"
    using 1(5) by (auto simp: q_def vol_def attach_proof_Inr)
  have matched: "stage_match st0 mode fs (srPath r) q" if "fmlookup m vol = Some st0" for st0
    using 1(7) that by (simp flip: vol_def q_def)
  show ?case
    unfolding vol_def [symmetric] q_def [symmetric]
  proof (rule call_at [OF 1(6)], goal_cases)
    case (2 out s')
    show ?case
    proof (intro plain_steps node_at_okay [OF 2(1)], goal_cases)
      case (1 v)
      define st where "st = (case fmlookup m vol of
          None \<Rightarrow> \<lparr>stVolume = v, stProof = q, stPath = srPath r, stReady = False, stTargets = fmempty\<rparr>
        | Some s \<Rightarrow> s)"
      have ok: "ok (nAPI s)" using node_invD(1) [OF node_atD(2)] \<open>node_at m s\<close> by blast
      have v: "vID v = vol"
        using use_volume [OF ok 2(3) _ 1(1)] q(1) by simp
      have held: "holds (nAPI s') vol (rAttachmentID q) (rUseID q)"
        using use_confirmed [OF ok 2(3)] q(1) by simp
      have st: "stage_ok vol st \<and> rAttachmentID (stProof st) = rAttachmentID q \<and> rUseID (stProof st) = rUseID q"
      proof (cases "fmlookup m vol")
        case None
        then show ?thesis using v q by (simp add: st_def stage_ok_def)
      next
        case (Some st0)
        then have "stage_ok vol st0" using node_invD(2) [OF node_atD(2) [OF 2(1)]] by blast
        then show ?thesis using matched [OF Some] q Some by (simp add: st_def stage_ok_def stage_match_def)
      qed
      show ?case
        unfolding st_def [symmetric]
        by (rule stage_commit_okay [OF 2(1)]) (use v held st in \<open>auto simp: st_def split: option.splits\<close>)
    qed
  qed simp
qed

section \<open>Publishing and taking down\<close>

lemma publish_commit_okay:
  assumes s: "node_at m s" and st: "fmlookup m (npVolumeId r) = Some st"
  shows "ensures (publish_commit n cx r st wanted m) (\<lambda>_. node_okay) s"
proof -
  define vol where "vol = npVolumeId r"
  define st1 where "st1 = st\<lparr>stTargets := fmupd (npPath r) wanted (stTargets st)\<rparr>"
  have okst: "stage_ok vol st" using node_invD(2) [OF node_atD(2) [OF s]] st by (simp add: vol_def)
  have st1: "stProof st1 = stProof st" "stPath st1 = stPath st" "stage_ok vol st1"
    "fmlookup (stTargets st1) (npPath r) \<noteq> None"
    "fmlookup (stTargets st) p \<noteq> None \<longrightarrow> fmlookup (stTargets st1) p \<noteq> None" for p
    using okst by (simp_all add: st1_def stage_ok_def)
  have ok: "ok (nAPI s)" by (rule node_invD(1) [OF node_atD(2) [OF s]])
  show ?thesis
    unfolding publish_commit_def vol_def [symmetric] st1_def [symmetric]
  proof (rule call_at [OF s], goal_cases)
    case (2 out s1)
    have held: "holds (nAPI s1) vol (rAttachmentID (stProof st)) (rUseID (stProof st))"
      using use_confirmed [OF ok 2(3)] okst by (simp add: stage_ok_def)
    show ?case
    proof (rule save_at [OF 2(1)], goal_cases)
      case 1
      show ?case
        by (rule node_inv_replace [OF node_atD(2) [OF 2(1)] st1(3)]) (use st st1 in \<open>auto simp: vol_def\<close>)
    next
      case (2 s2)
      have tr: "tracks (fmupd vol st1 m) (npPath r) vol st1" using st1(4) by (simp add: tracks_def)
      have v: "vID (stVolume st) = vol" using okst by (simp add: stage_ok_def)
      show ?case
        by (rule last_at [where m' = "fmupd vol st1 m"], rule publish_at [where st = st1, OF 2(1)])
          (use tr v held 2(2) st1 in simp_all)
    qed
  qed simp
qed

lemma NodePublishVolume_okay:
  assumes "node_okay s"
  shows "ensures (NodePublishVolume n cx ls r) (\<lambda>_. node_okay) s"
  unfolding NodePublishVolume_def Let_def
  by (intro plain_steps read_at assms publish_commit_okay)
    (simp_all add: ensures_raise assms)

text \<open>A path whose mount is gone needs no entry any more.\<close>

lemma inv_untrack:
  assumes i: "inv m a h" and st': "stage_ok vol st'" and st: "fmlookup m vol = Some st"
    and same: "stProof st' = stProof st" "stPath st' = stPath st"
    and gone: "\<And>p. fmlookup (stTargets st) p \<noteq> None \<Longrightarrow> fmlookup (stTargets st') p = None \<Longrightarrow> mounted_at h p = None"
  shows "inv (fmupd vol st' m) a h"
  by (rule node_inv_replace [OF i st']) (use st same gone in fastforce)

lemma inv_drop:
  assumes i: "inv m a h" and gone: "\<And>p. mounted_at h p \<noteq> Some vol"
  shows "inv (fmdrop vol m) a h"
proof (rule node_invI)
  show "ok a" using node_invD(1) [OF i] .
  show "stage_ok v st" if "fmlookup (fmdrop vol m) v = Some st" for v st
    using that node_invD(2) [OF i] by (auto split: if_splits)
  show "\<exists>st. tracks (fmdrop vol m) p v st \<and> holds a v (rAttachmentID (stProof st)) (rUseID (stProof st))"
    if "mounted_at h p = Some v" for p v
  proof -
    have "v \<noteq> vol" using that gone by blast
    then show ?thesis using node_invD(3) [OF i that] by (simp add: tracks_def)
  qed
qed

lemma NodeUnpublishVolume_okay:
  assumes "node_okay s"
  shows "ensures (NodeUnpublishVolume n cx ls vol path) (\<lambda>_. node_okay) s"
  unfolding NodeUnpublishVolume_def
proof (intro plain_steps read_at assms, goal_cases)
  case (3 m st)
  have ok: "stage_ok vol st" using node_invD(2) [OF node_atD(2) [OF 3(3)]] 3(4) .
  show ?case
  proof (rule unmount_at [OF 3(3)], goal_cases)
    case (1 s1)
    show ?case
    proof (rule last_at, rule save_at [OF 1(1)], rule inv_untrack [OF node_atD(2) [OF 1(1)]])
      show "mounted_at (nHost s1) p = None" if "fmlookup (stTargets st) p \<noteq> None"
        "fmlookup (stTargets (st\<lparr>stTargets := fmdrop path (stTargets st)\<rparr>)) p = None" for p
        using that 1(3) by (simp split: if_splits)
    qed (use 3(4) ok in \<open>simp_all add: stage_ok_def\<close>)
  qed
qed (simp_all add: ensures_give assms)

text \<open>A volume without targets is nowhere mounted once its staging path is free.\<close>

lemma unstaged_nowhere:
  assumes s: "node_at m s" and st: "fmlookup m vol = Some st" and none: "stTargets st = fmempty"
    and free: "mounted_at (nHost s) (stPath st) = None"
  shows "mounted_at (nHost s) p \<noteq> Some vol"
proof
  assume "mounted_at (nHost s) p = Some vol"
  with node_invD(3) [OF node_atD(2) [OF s] this] show False
    using st none free by (auto simp: tracks_def)
qed

lemma NodeUnstageVolume_okay:
  assumes "node_okay s"
  shows "ensures (NodeUnstageVolume n cx ls vol path) (\<lambda>_. node_okay) s"
  unfolding NodeUnstageVolume_def
proof (intro plain_steps read_at assms, goal_cases)
  case (2 m st)
  have ok: "stage_ok vol st" using node_invD(2) [OF node_atD(2) [OF 2(3)]] 2(4) .
  show ?case
  proof (rule unmount_at [OF 2(3)], goal_cases)
    case (1 s1)
    have gone: "mounted_at (nHost s1) p \<noteq> Some vol" for p
      by (rule unstaged_nowhere [OF 1(1) 2(4,6)]) (simp add: 1(3))
    show ?case
    proof (rule call_at [OF 1(1)], goal_cases)
      case 1
      show ?case using gone ok by (simp add: stage_ok_def)
    next
      case (2 out s2)
      show ?case
        by (rule last_at, rule save_at [OF 2(1)], rule inv_drop [OF node_atD(2) [OF 2(1)]])
          (use gone 2(2) in auto)
    qed
  qed
qed (simp_all add: ensures_give assms)

section \<open>Expansion and figures\<close>

lemma lookup_stage_at:
  assumes "node_okay s"
    and "\<And>m st. node_at m s \<Longrightarrow> fmlookup m vol = Some st \<Longrightarrow> stReady st \<Longrightarrow>
      path = stPath st \<or> fmlookup (stTargets st) path \<noteq> None \<Longrightarrow> ensures (f st) (\<lambda>_. node_okay) s"
  shows "ensures (andThen (lookup_stage n ls vol path) f) (\<lambda>_. node_okay) s"
proof (subst ensures_andThen, unfold lookup_stage_def, intro plain_steps read_step, goal_cases)
  case (2 m st)
  moreover obtain m' where m': "node_at m' s" using node_okay_at [OF assms(1)] ..
  moreover have "m' = m" using node_atD(1) [OF m'] 2 by simp
  ultimately show ?case using assms(2) by (auto simp: ensures_give)
qed (simp_all add: assms(1) ensures_raise)

lemma NodeExpandVolume_okay:
  assumes "node_okay s"
  shows "ensures (NodeExpandVolume n cx ls vol path cr) (\<lambda>_. node_okay) s"
  unfolding NodeExpandVolume_def
proof (intro plain_steps lookup_stage_at assms, goal_cases)
  case (2 lim m st)
  have okst: "stage_ok vol st" using node_invD(2) [OF node_atD(2) [OF 2(3)]] 2(4) .
  have ok: "ok (nAPI s)" by (rule node_invD(1) [OF node_atD(2) [OF 2(3)]])
  show ?case
  proof (rule call_at [OF 2(3)], goal_cases)
    case (2 out s1)
    have v: "vID v = vol" if "oVolume out = Some v" for v
      using use_volume [OF ok 2(3) _ that] okst by (simp add: stage_ok_def)
    show ?case
    proof (intro plain_steps node_at_okay [OF 2(1)], goal_cases)
      case (1 v)
      show ?case
      proof (rule host_at [OF 2(1)], goal_cases)
        case (1 e h)
        then show ?case
          using inv_same_mounts [OF node_atD(2) [OF 2(1)] expand] by (simp add: node_host)
      next
        case (2 s2)
        show ?case
        proof (intro read_at plain_steps node_at_okay [OF 2(1)], goal_cases)
          case (2 m2 st2)
          have st2: "stage_ok vol st2" using node_invD(2) [OF node_atD(2) [OF 2(1)]] 2(2) .
          show ?case
          proof (rule save_at [OF 2(1)], goal_cases)
            case 1
            show ?case
              by (rule node_inv_replace [OF node_atD(2) [OF 2(1)]])
                (use v [OF \<open>oVolume out = Some v\<close>] st2 2(2) in \<open>auto simp: stage_ok_def\<close>)
          qed (simp add: ensures_give node_at_okay)
        qed (simp add: ensures_raise node_at_okay)
      qed
    qed
  qed simp
qed (simp_all add: ensures_raise assms)

lemma stats_at:
  assumes "node_at m s" and "HostStats (ndHost n) ctx v path (nHost s) = ((out, e), h)"
  shows "node_okay (s\<lparr>nHost := h\<rparr>)"
proof (rule node_at_okay)
  show "node_at m (s\<lparr>nHost := h\<rparr>)"
    using assms(1) inv_same_mounts [OF node_atD(2) [OF assms(1)] stats [OF assms(2) [unfolded node_host]]]
    by (simp add: node_at_def)
qed

lemma NodeGetVolumeStats_okay:
  assumes "node_okay s"
  shows "ensures (NodeGetVolumeStats n cx ls vol path) (\<lambda>_. node_okay) s"
  unfolding NodeGetVolumeStats_def
  by (intro lookup_stage_at assms host_stats_step) (auto simp: ensures_give intro: stats_at)

end

section \<open>Any method\<close>

datatype node_call =
    CallStage stage_request
  | CallPublish node_publish_request
  | CallUnpublish string string
  | CallUnstage string string
  | CallExpand string string "capacity_range option"
  | CallStats string string

text \<open>What a call of the node service leaves behind, whatever it answers.\<close>

definition serve_call ::
  "('a, 'h, 'tx, 'b) node \<Rightarrow> (nat \<Rightarrow> ctx) \<Rightarrow> (string \<Rightarrow> lstat) \<Rightarrow> node_call
     \<Rightarrow> ('a, 'h, 'tx) node_state \<Rightarrow> ('a, 'h, 'tx) node_state" where
  "serve_call n cx ls call s =
     (case call of
        CallStage r \<Rightarrow> snd (NodeStageVolume n cx ls r s)
      | CallPublish r \<Rightarrow> snd (NodePublishVolume n cx ls r s)
      | CallUnpublish vol path \<Rightarrow> snd (NodeUnpublishVolume n cx ls vol path s)
      | CallUnstage vol path \<Rightarrow> snd (NodeUnstageVolume n cx ls vol path s)
      | CallExpand vol path cr \<Rightarrow> snd (NodeExpandVolume n cx ls vol path cr s)
      | CallStats vol path \<Rightarrow> snd (NodeGetVolumeStats n cx ls vol path s))"

lemma ensures_snd: "ensures m (\<lambda>_. Q) s \<Longrightarrow> Q (snd (m s))"
  by (simp add: ensures_def split: prod.splits)

context node_driver
begin

lemma serve_call_okay: "node_okay s \<Longrightarrow> node_okay (serve_call n cx ls call s)"
  by (cases call)
    (auto simp: serve_call_def intro!: ensures_snd NodeStageVolume_okay NodePublishVolume_okay
      NodeUnpublishVolume_okay NodeUnstageVolume_okay NodeExpandVolume_okay NodeGetVolumeStats_okay)

end

section \<open>What a method does to the API\<close>

text \<open>
  A node touches the API only by calling it: what no call can break, no method breaks. Here \<open>I\<close> is
  any property of the API's state, \<open>api_kept\<close> says that the calls keep it.
\<close>

definition api_kept :: "('a, 'h, 'tx, 'b) node \<Rightarrow> ('a \<Rightarrow> bool) \<Rightarrow> bool" where
  "api_kept n I \<longleftrightarrow> (\<forall>ctx op r a res a'. I a \<longrightarrow> ndAPI n ctx op r a = (res, a') \<longrightarrow> I a')"

lemma keeps_call_api [keeps_rules]: "api_kept n I \<Longrightarrow> keeps (\<lambda>s. I (nAPI s)) (call_api n ctx op r)"
  by (auto simp: keeps_def call_api_def valued_def api_kept_def split: prod.splits option.splits)

lemma keeps_on_host [keeps_rules]: "keeps (\<lambda>s. I (nAPI s)) (on_host g)"
  by (auto simp: keeps_def on_host_def failing_def split: prod.splits option.splits)

lemma keeps_host_stats [keeps_rules]: "keeps (\<lambda>s. I (nAPI s)) (host_stats n ctx v path)"
  by (auto simp: keeps_def host_stats_def valued_def split: prod.splits option.splits)

lemma keeps_read_stages [keeps_rules]: "keeps I (read_stages n)"
  by (simp add: read_stages_def keeps_reading)

lemma keeps_save_stages [keeps_rules]: "keeps (\<lambda>s. I (nAPI s)) (save_stages n m)"
  by (auto simp: keeps_def save_stages_def failing_def split: prod.splits option.splits)

lemma keeps_check_path [keeps_rules]: "keeps I (check_path n ls path)"
  by (simp add: check_path_def keeps_give keeps_raise split: option.split)

lemma keeps_deref [keeps_rules]: "keeps I (deref x)"
  by (simp add: deref_def keeps_give keeps_raise split: option.split)

lemma keeps_split_option:
  "keeps I g \<Longrightarrow> (\<And>v. keeps I (f v)) \<Longrightarrow> keeps I (case x of None \<Rightarrow> g | Some v \<Rightarrow> f v)"
  by (cases x) simp_all

lemma keeps_split_pair: "(\<And>x y. keeps I (f x y)) \<Longrightarrow> keeps I (case p of (x, y) \<Rightarrow> f x y)"
  by (cases p) simp

lemma keeps_split_if: "keeps I f \<Longrightarrow> keeps I g \<Longrightarrow> keeps I (if b then f else g)"
  by simp

lemmas keeps_steps = keeps_rules keeps_split_option keeps_split_pair keeps_split_if

lemma serve_call_api:
  assumes kept: "api_kept n I" and "I (nAPI s)"
  shows "I (nAPI (serve_call n cx ls call s))"
proof -
  let ?J = "\<lambda>s. I (nAPI s)"
  have look: "keeps ?J (lookup_stage n ls vol path)" for vol path
    unfolding lookup_stage_def by (intro keeps_steps kept)
  have "keeps ?J (NodeStageVolume n cx ls r)" for r
    unfolding NodeStageVolume_def stage_commit_def Let_def by (intro keeps_steps kept)
  moreover have "keeps ?J (NodePublishVolume n cx ls r)" for r
    unfolding NodePublishVolume_def publish_commit_def Let_def by (intro keeps_steps kept)
  moreover have "keeps ?J (NodeUnpublishVolume n cx ls vol path)" for vol path
    unfolding NodeUnpublishVolume_def by (intro keeps_steps kept)
  moreover have "keeps ?J (NodeUnstageVolume n cx ls vol path)" for vol path
    unfolding NodeUnstageVolume_def by (intro keeps_steps kept)
  moreover have "keeps ?J (NodeExpandVolume n cx ls vol path cr)" for vol path cr
    unfolding NodeExpandVolume_def by (intro keeps_steps kept look)
  moreover have "keeps ?J (NodeGetVolumeStats n cx ls vol path)" for vol path
    unfolding NodeGetVolumeStats_def by (intro keeps_steps look)
  ultimately show ?thesis
    using assms(2) by (cases call) (simp_all add: serve_call_def keeps_def)
qed

end
