(* ===== verification/World.thy ===== *)
theory World
  imports NodeProps SystemSpec
begin

text \<open>
  The platform as a node sees it: \<open>testkit.Local\<close>, the engine's \<open>Call\<close> for one principal, with
  everything else that goes on around each call. It keeps the contract \<open>use_service\<close> of the node
  driver, whatever the environment does, as long as nobody else releases this instance's uses.
\<close>

section \<open>What no operation takes away\<close>

text \<open>The use \<open>use\<close> is recorded on attachment \<open>att\<close> of the volume to the instance.\<close>

definition use_held :: "platform \<Rightarrow> string \<Rightarrow> string \<Rightarrow> string \<Rightarrow> string \<Rightarrow> bool" where
  "use_held s inst vol att use \<longleftrightarrow> (\<exists>a. fmlookup (Attachments s) att = Some a \<and> aInstanceID a = inst
     \<and> aVolumeID a = vol \<and> fmlookup (aUses a) use = Some True)"

definition volumes_keyed :: "platform \<Rightarrow> bool" where
  "volumes_keyed s \<longleftrightarrow> (\<forall>k v. fmlookup (Volumes s) k = Some v \<longrightarrow> vID v = k)"

lemma use_held_same [simp]: "use_held (put_volume k v s) inst vol att use = use_held s inst vol att use"
  by (simp add: use_held_def)

lemma use_held_put:
  "use_held s inst vol att use \<Longrightarrow>
     (\<And>b. k = att \<Longrightarrow> fmlookup (Attachments s) k = Some b \<Longrightarrow> aInstanceID b = inst \<Longrightarrow> aVolumeID b = vol \<Longrightarrow>
        fmlookup (aUses b) use = Some True \<Longrightarrow>
        aInstanceID a = inst \<and> aVolumeID a = vol \<and> fmlookup (aUses a) use = Some True) \<Longrightarrow>
     use_held (put_attachment k a s) inst vol att use"
  unfolding use_held_def by (cases "k = att") auto

lemma volumes_keyed_put:
  "volumes_keyed s \<Longrightarrow> vID v = k \<Longrightarrow> volumes_keyed (put_volume k v s)"
  "volumes_keyed s \<Longrightarrow> volumes_keyed (put_attachment k' a s)"
  by (auto simp: volumes_keyed_def)

text \<open>Only the instance's own release of a use on that volume removes it.\<close>

definition own_release :: "string \<Rightarrow> principal \<Rightarrow> string \<Rightarrow> bool" where
  "own_release inst p op \<longleftrightarrow> op = ''ReleaseUse'' \<and> pRole p = ''node'' \<and> pInstanceID p = inst"

lemma authorised_instance:
  "node_authorised cfg p r s i a \<Longrightarrow> config_ok cfg \<Longrightarrow> aInstanceID a = pInstanceID p"
  by (auto simp: node_authorised_def engine_instance_None config_ok_def)

lemma apply_op_keeps_use:
  assumes run: "apply_op cfg env p op r s = (out, x, s')" and held: "use_held s inst vol att use"
    and fresh: "fresh_ids env s" and cfg: "config_ok cfg"
    and other: "\<not> own_release inst p op \<or> rVolumeID r \<noteq> vol"
  shows "use_held s' inst vol att use"
  using run
proof (cases rule: apply_op_cases)
  case create_volume
  from create_volume(3) show ?thesis
    by (cases rule: create_volume_cases) (simp_all add: held)
next
  case volume_case
  from volume_case(3) show ?thesis
    by (cases rule: volume_case_cases) (simp_all add: held)
next
  case create_attachment
  from create_attachment(3) show ?thesis
  proof (cases rule: create_attachment_cases)
    case (created v v' i a)
    have "fmlookup (Attachments s) (aID a) = None"
      using fresh by (simp add: created(12) fresh_ids_def new_attachment_simps)
    then show ?thesis unfolding created(14) using held by (intro use_held_put) auto
  qed (simp_all add: held)
next
  case attachment_case
  from attachment_case(3) show ?thesis
  proof (cases rule: attachment_case_cases)
    case (deleted k a a')
    then show ?thesis unfolding deleted(10) using held by (intro use_held_put) auto
  qed (simp_all add: held)
next
  case node
  from node(2) show ?thesis
  proof (cases rule: node_op_cases)
    case (released i a a')
    have a: "fmlookup (Attachments s) (rAttachmentID r) = Some a" "aVolumeID a = rVolumeID r"
      using released(3) by (simp_all add: node_authorised_def)
    have "aInstanceID a \<noteq> inst \<or> aVolumeID a \<noteq> vol"
      using other authorised_instance [OF released(3) cfg] a(2) node(1) released(2) by (auto simp: own_release_def)
    then show ?thesis unfolding released(6) using held a(1) by (intro use_held_put) auto
  next
    case (acquired i a v a')
    have "fmlookup (Attachments s) (rAttachmentID r) = Some a"
      using acquired(3) by (simp add: node_authorised_def)
    then show ?thesis unfolding acquired(9) using held acquired(7) by (intro use_held_put) auto
  qed (simp_all add: held)
next
  case get_instance
  then show ?thesis using held by (auto dest: get_instance_state)
qed (simp add: held)

lemma apply_op_keyed:
  assumes run: "apply_op cfg env p op r s = (out, x, s')" and keyed: "volumes_keyed s"
  shows "volumes_keyed s'"
  using run
proof (cases rule: apply_op_cases)
  case create_volume
  from create_volume(3) show ?thesis
    by (cases rule: create_volume_cases) (simp_all add: keyed volumes_keyed_put)
next
  case volume_case
  have look: "vID v = rID r" if "fmlookup (Volumes s) (rID r) = Some v" for v
    using that keyed by (simp add: volumes_keyed_def)
  from volume_case(3) show ?thesis
    by (cases rule: volume_case_cases)
      (auto simp: keyed request_delete_def request_size_def Let_def intro!: volumes_keyed_put dest: look)
next
  case create_attachment
  from create_attachment(3) show ?thesis
  proof (cases rule: create_attachment_cases)
    case (created v v' i a)
    have "vID v' = rVolumeID r" using keyed created(2,11) by (simp add: volumes_keyed_def)
    then show ?thesis unfolding created(14) by (intro volumes_keyed_put keyed)
  qed (simp_all add: keyed)
next
  case attachment_case
  from attachment_case(3) show ?thesis
    by (cases rule: attachment_case_cases) (simp_all add: keyed volumes_keyed_put)
next
  case node
  from node(2) show ?thesis
  proof (cases rule: node_op_cases)
    case (initialised i a v v')
    have "vID v' = aVolumeID a" using keyed initialised(4,6) by (simp add: volumes_keyed_def healthy_def)
    then show ?thesis unfolding initialised(8) by (intro volumes_keyed_put keyed)
  qed (simp_all add: keyed volumes_keyed_put)
next
  case get_instance
  then show ?thesis using keyed by (auto dest: get_instance_state)
qed (simp add: keyed)

lemma reconcile_volume_id:
  assumes "reconcile_volume P ctx aks s v p = (v', p')"
  shows "vID v' = vID v"
  using assms by (cases rule: reconcile_volume_cases) simp_all

lemma reconcile_attachment_use:
  assumes "reconcile_attachment P cfg ctx s a p = (Some a', p')"
  shows "aInstanceID a' = aInstanceID a \<and> aVolumeID a' = aVolumeID a \<and> aUses a' = aUses a"
  using assms by (cases rule: reconcile_attachment_cases) simp_all

lemma reconcile_state_keeps:
  assumes run: "reconcile_state P cfg z s p = (Some s', p')" and keyed: "volumes_keyed s"
  shows "volumes_keyed s' \<and> (use_held s inst vol att use \<longrightarrow> use_held s' inst vol att use)"
proof -
  define I where "I = (\<lambda>t (_ :: 'a). volumes_keyed t \<and> (use_held s inst vol att use \<longrightarrow> use_held t inst vol att use))"
  obtain s1 p1 where volumes: "reconcile_volumes P z (zVolumes z) s p = (s1, p1)" by fastforce
  then have atts: "reconcile_attachments P cfg z (zAttachments z) s1 p1 = (Some s', p')"
    using run by (simp add: reconcile_state_def)
  have "I s1 p1"
  proof (rule reconcile_volumes_invariant [OF volumes])
    show "I s p" using keyed by (simp add: I_def)
    show "I (put_volume k v' t) q'" if "I t q" "k \<in> set (zVolumes z)" "fmlookup (Volumes t) k = Some v"
      "reconcile_volume P (zVolumeCtx z k) (zAttachments z) t v q = (v', q')" for k t q v v' q'
      using that reconcile_volume_id [OF that(4)] by (auto simp: I_def volumes_keyed_def)
  qed
  have "case Some s' of Some t \<Rightarrow> I t p' | None \<Rightarrow> True"
  proof (rule reconcile_attachments_invariant [where I = I and J = "\<lambda>_. True", OF atts \<open>I s1 p1\<close>])
    show "I (put_attachment k a' t) q'" if "I t q" "fmlookup (Attachments t) k = Some a"
      "reconcile_attachment P cfg (zAttachmentCtx z k) t a q = (Some a', q')" for k t q a a' q'
      using that(1,2) reconcile_attachment_use [OF that(3)]
      by (auto simp: I_def volumes_keyed_put intro: use_held_put)
  qed simp
  then show ?thesis by (simp add: I_def)
qed

section \<open>The local caller and its surroundings\<close>

text \<open>
  What the platform does beside the calls of one node: calls of any principal and reconcile runs,
  but no release of a use by the instances \<open>insts\<close>, whose node drivers are modelled.
\<close>

inductive other_step ::
  "('tx, 'b) bolt \<Rightarrow> ('b, platform) codec \<Rightarrow> ('b, audit_entry) codec \<Rightarrow> 'p provider \<Rightarrow> string set
     \<Rightarrow> 'tx \<times> 'p \<Rightarrow> 'tx \<times> 'p \<Rightarrow> bool"
  for B cds cda P insts where
  call: "atomic_update upd \<Longrightarrow> config_ok cfg \<Longrightarrow>
    (\<And>s. platform_read B cds db = Inr s \<Longrightarrow> env_for env s \<and> fresh_ids env s) \<Longrightarrow>
    Call B cds cda upd cfg env p op r db = (res, db') \<Longrightarrow>
    \<not> (op = ''ReleaseUse'' \<and> pRole p = ''node'' \<and> pInstanceID p \<in> insts) \<Longrightarrow>
    other_step B cds cda P insts (db, cloud) (db', cloud)"
| reconcile: "atomic_update upd \<Longrightarrow>
    (\<And>s. platform_read B cds db = Inr s \<Longrightarrow> reconcile_for z s) \<Longrightarrow>
    Reconcile B cds upd P cfg z cloud db = (e, (cloud', panicked), db') \<Longrightarrow>
    other_step B cds cda P insts (db, cloud) (db', cloud')"

inductive_cases other_stepE [consumes 1, case_names call reconcile]: "other_step B cds cda P insts c c'"

lemma other_step_sys: "other_step B cds cda P insts c c' \<Longrightarrow> sys_step B cds cda P c c'"
  by (erule other_stepE) (auto intro: sys_step.intros)

text \<open>
  The world: the database, the cloud, and a ghost counter of the steps so far. The surroundings
  are an oracle over the counter: the other steps taken before the node's next call, with their
  number, what the runtime chooses for that call, and whether its transaction commits.
\<close>

record ('tx, 'p) world =
  wDb :: 'tx
  wCloud :: 'p
  wSteps :: nat

record ('tx, 'p) surroundings =
  oOther :: "nat \<Rightarrow> 'tx \<times> 'p \<Rightarrow> nat \<times> 'tx \<times> 'p"
  oEnv :: "nat \<Rightarrow> 'tx \<Rightarrow> call_env"
  oUpdate :: "nat \<Rightarrow> (response \<times> go_error option, 'tx) tx_fun \<Rightarrow> (response \<times> go_error option, 'tx) tx_fun"

definition Local_Call ::
  "('tx, 'b) bolt \<Rightarrow> ('b, platform) codec \<Rightarrow> ('b, audit_entry) codec \<Rightarrow> config \<Rightarrow> ('tx, 'p) surroundings
     \<Rightarrow> principal \<Rightarrow> ('tx, 'p) world caller" where
  "Local_Call B cds cda cfg E p ctx op r w =
     (case oOther E (wSteps w) (wDb w, wCloud w) of
        (k, db, cloud) \<Rightarrow>
          (case Call B cds cda (oUpdate E (wSteps w)) cfg ((oEnv E (wSteps w) db)\<lparr>eCtx := ctx\<rparr>) p op r db of
             (res, db) \<Rightarrow> (res, \<lparr>wDb = db, wCloud = cloud, wSteps = Suc (wSteps w + k)\<rparr>)))"

definition surroundings_ok ::
  "('tx, 'b) bolt \<Rightarrow> ('b, platform) codec \<Rightarrow> ('b, audit_entry) codec \<Rightarrow> 'p provider \<Rightarrow> string set
     \<Rightarrow> ('tx, 'p) surroundings \<Rightarrow> bool" where
  "surroundings_ok B cds cda P insts E \<longleftrightarrow>
     (\<forall>t c k c'. oOther E t c = (k, c') \<longrightarrow> (other_step B cds cda P insts ^^ k) c c')
     \<and> (\<forall>t db s. platform_read B cds db = Inr s \<longrightarrow> env_for (oEnv E t db) s \<and> fresh_ids (oEnv E t db) s)
     \<and> (\<forall>t. atomic_update (oUpdate E t))"

section \<open>What holds of the world\<close>

text \<open>
  The state can be read and its volumes carry their keys; within the range of the generation
  counters the joint invariant of platform and cloud holds.
\<close>

definition world_at ::
  "('tx, 'b) bolt \<Rightarrow> ('b, platform) codec \<Rightarrow> ('p \<Rightarrow> string \<Rightarrow> disk option) \<Rightarrow> nat \<Rightarrow> 'tx \<times> 'p \<Rightarrow> bool" where
  "world_at B cds disks_of n c \<longleftrightarrow> (\<exists>s. platform_read B cds (fst c) = Inr s \<and> volumes_keyed s
     \<and> (n \<le> 2 ^ 64 - 1 \<longrightarrow> sys_inv B cds disks_of n c s))"

definition world_ok ::
  "('tx, 'b) bolt \<Rightarrow> ('b, platform) codec \<Rightarrow> ('p \<Rightarrow> string \<Rightarrow> disk option) \<Rightarrow> ('tx, 'p) world \<Rightarrow> bool" where
  "world_ok B cds disks_of w \<longleftrightarrow> world_at B cds disks_of (wSteps w) (wDb w, wCloud w)"

definition world_holds ::
  "('tx, 'b) bolt \<Rightarrow> ('b, platform) codec \<Rightarrow> string \<Rightarrow> ('tx, 'p) world \<Rightarrow> string \<Rightarrow> string \<Rightarrow> string \<Rightarrow> bool" where
  "world_holds B cds inst w vol att use \<longleftrightarrow>
     (\<exists>s. platform_read B cds (wDb w) = Inr s \<and> use_held s inst vol att use)"

lemma Call_keeps:
  assumes B: "bolt_ok B" and cd: "codec_ok cds zero_platform" and upd: "atomic_update upd"
    and run: "Call B cds cda upd cfg env p op r db = (res, db')"
    and s: "platform_read B cds db = Inr s" "volumes_keyed s" and fresh: "fresh_ids env s" and cfg: "config_ok cfg"
  shows "\<exists>s'. platform_read B cds db' = Inr s' \<and> volumes_keyed s'
    \<and> (\<forall>inst vol att use. use_held s inst vol att use \<longrightarrow> \<not> own_release inst p op \<or> rVolumeID r \<noteq> vol \<longrightarrow>
          use_held s' inst vol att use)"
proof -
  obtain out e where run': "Call B cds cda upd cfg env p op r db = ((out, e), db')"
    using run by (metis prod.exhaust)
  from B cd upd run' show ?thesis
  proof (cases rule: Call_cases)
    case failed
    then show ?thesis using s by auto
  next
    case (completed s1 s')
    then have op: "apply_op cfg env p op r s = (out, e, s')" and "s1 = s" using s by simp_all
    then show ?thesis
      using completed(5) s apply_op_keyed [OF op s(2)] apply_op_keeps_use [OF op _ fresh cfg]
      by (cases e) auto
  qed
qed

lemma Reconcile_keeps:
  assumes B: "bolt_ok B" and cd: "codec_ok cds zero_platform" and upd: "atomic_update upd"
    and run: "Reconcile B cds upd P cfg z cloud db = (e, (cloud', panicked), db')"
    and s: "platform_read B cds db = Inr s" "volumes_keyed s"
  shows "\<exists>s'. platform_read B cds db' = Inr s' \<and> volumes_keyed s'
    \<and> (\<forall>inst vol att use. use_held s inst vol att use \<longrightarrow> use_held s' inst vol att use)"
  using B cd upd run
proof (cases rule: Reconcile_cases)
  case (committed s1 s')
  then have "s1 = s" using s by simp
  then have "reconcile_state P cfg z s cloud = (Some s', cloud')" using committed(4) by simp
  note kept = reconcile_state_keeps [OF this s(2)]
  show ?thesis using committed(5) kept by blast
qed (use s in auto)

context storage_provider
begin

lemma world_at_step:
  assumes B: "bolt_ok B" and cd: "codec_ok cds zero_platform"
    and step: "sys_step B cds cda P c c'" and w: "world_at B cds disks_of n c"
  shows "world_at B cds disks_of (Suc n) c'"
proof -
  obtain s where s: "platform_read B cds (fst c) = Inr s" "volumes_keyed s"
    "n \<le> 2 ^ 64 - 1 \<longrightarrow> sys_inv B cds disks_of n c s"
    using w by (auto simp: world_at_def)
  have "\<exists>s'. platform_read B cds (fst c') = Inr s' \<and> volumes_keyed s'"
    using step
  proof (cases rule: sys_stepE)
    case (call upd cfg db env p op r res db' cloud)
    then show ?thesis
      using Call_keeps [OF B cd call(3,6) _ s(2) _ call(4)] s(1) by auto
  next
    case (reconcile upd db z cfg cloud e cloud' panicked db')
    then show ?thesis
      using Reconcile_keeps [OF B cd reconcile(3,5) _ s(2)] s(1) by auto
  qed
  moreover have "\<exists>s'. sys_inv B cds disks_of (Suc n) c' s'" if "Suc n \<le> 2 ^ 64 - 1"
    using sys_step_inv [OF B cd step, of n s] s(3) that by auto
  ultimately show ?thesis
    by (fastforce simp: world_at_def sys_inv_def)
qed

lemma world_at_steps:
  assumes "bolt_ok B" and "codec_ok cds zero_platform"
    and "(other_step B cds cda P insts ^^ k) c c'" and "world_at B cds disks_of n c"
  shows "world_at B cds disks_of (n + k) c'"
  using assms(3)
proof (induction k arbitrary: c')
  case 0
  then show ?case using assms(4) by simp
next
  case (Suc k)
  then show ?case
    using world_at_step [OF assms(1,2) other_step_sys] by (auto elim!: relcompp.cases)
qed

lemma other_steps_hold:
  assumes B: "bolt_ok B" and cd: "codec_ok cds zero_platform"
    and run: "(other_step B cds cda P insts ^^ k) c c'" and i: "inst \<in> insts"
    and s: "platform_read B cds (fst c) = Inr s" "volumes_keyed s" "use_held s inst vol att use"
  shows "\<exists>s'. platform_read B cds (fst c') = Inr s' \<and> volumes_keyed s' \<and> use_held s' inst vol att use"
  using run
proof (induction k arbitrary: c')
  case 0
  then show ?case using s by auto
next
  case (Suc k)
  then obtain c1 where step: "other_step B cds cda P insts c1 c'"
    and before: "(other_step B cds cda P insts ^^ k) c c1"
    by (auto elim!: relcompp.cases)
  from Suc.IH [OF before] obtain s1 where
    s1: "platform_read B cds (fst c1) = Inr s1" "volumes_keyed s1" "use_held s1 inst vol att use" by blast
  from step show ?case
  proof (cases rule: other_stepE)
    case (call upd cfg db env p op r res db' cloud)
    have "\<not> own_release inst p op" using call(7) i by (auto simp: own_release_def)
    then show ?thesis
      using Call_keeps [OF B cd call(3,6) _ s1(2) _ call(4)] call(1,2,5) s1 by fastforce
  next
    case (reconcile upd db z cfg cloud e cloud' panicked db')
    then show ?thesis
      using Reconcile_keeps [OF B cd reconcile(3,5) _ s1(2)] s1 by fastforce
  qed
qed


end

section \<open>The answers\<close>

text \<open>A successful answer has the field the drivers dereference.\<close>

lemma apply_op_fields:
  assumes run: "apply_op cfg env p op r s = (out, None, s')"
  shows "op \<in> {''CreateVolume'', ''GetVolume'', ''ResizeVolume'', ''AcquireUse'', ''CheckUse''} \<Longrightarrow> oVolume out \<noteq> None"
    and "op = ''CreateAttachment'' \<Longrightarrow> oAttachment out \<noteq> None"
proof -
  have "(op \<in> {''CreateVolume'', ''GetVolume'', ''ResizeVolume'', ''AcquireUse'', ''CheckUse''} \<longrightarrow> oVolume out \<noteq> None)
      \<and> (op = ''CreateAttachment'' \<longrightarrow> oAttachment out \<noteq> None)"
    using run
  proof (cases rule: apply_op_cases)
    case create_volume
    from create_volume(3) show ?thesis
      by (cases rule: create_volume_cases) (simp_all add: create_volume(2))
  next
    case volume_case
    from volume_case(3) show ?thesis
      by (cases rule: volume_case_cases) (use volume_case(2) in \<open>simp_all, (elim disjE; simp)?\<close>)
  next
    case create_attachment
    from create_attachment(3) show ?thesis
    proof (cases rule: create_attachment_cases)
      case (existing v i k a)
      show ?thesis by (simp add: existing(3) create_attachment(2))
    next
      case (created v v' i a)
      show ?thesis by (simp add: created(13) create_attachment(2))
    qed simp
  next
    case attachment_case
    then show ?thesis by auto
  next
    case node
    from node(2) show ?thesis
    proof (cases rule: node_op_cases)
      case (self i)
      show ?thesis by (simp add: self(3))
    next
      case (released i a a')
      show ?thesis by (simp add: released(2))
    next
      case (acquired i a v a')
      show ?thesis by (simp add: acquired(2,8))
    next
      case (initialised i a v v')
      show ?thesis by (simp add: initialised(2))
    next
      case (checked i a v)
      show ?thesis using checked(3) by (auto simp: checked(7))
    qed simp
  next
    case get_instance
    show ?thesis by (simp add: get_instance(2))
  qed simp
  then show "op \<in> {''CreateVolume'', ''GetVolume'', ''ResizeVolume'', ''AcquireUse'', ''CheckUse''} \<Longrightarrow> oVolume out \<noteq> None"
    and "op = ''CreateAttachment'' \<Longrightarrow> oAttachment out \<noteq> None" by auto
qed

text \<open>What a node learns from a successful use operation.\<close>

lemma node_op_confirms:
  assumes run: "node_op cfg p op r s = (out, None, s')" and cfg: "config_ok cfg"
    and op: "op \<in> {''AcquireUse'', ''CheckUse'', ''RecordPublish'', ''MarkInitialized''}"
  shows "use_held s' (pInstanceID p) (rVolumeID r) (rAttachmentID r) (rUseID r)"
    and "op \<in> {''AcquireUse'', ''CheckUse''} \<Longrightarrow> oVolume out = Some v \<Longrightarrow> volumes_keyed s \<Longrightarrow> vID v = rVolumeID r"
proof -
  have found: "fmlookup (Attachments s) (rAttachmentID r) = Some a \<and> aVolumeID a = rVolumeID r
      \<and> aInstanceID a = pInstanceID p" if "node_authorised cfg p r s i a" for i a
    using that authorised_instance [OF that cfg] by (simp add: node_authorised_def)
  have "use_held s' (pInstanceID p) (rVolumeID r) (rAttachmentID r) (rUseID r) \<and>
      (op \<in> {''AcquireUse'', ''CheckUse''} \<longrightarrow> oVolume out = Some v \<longrightarrow> volumes_keyed s \<longrightarrow> vID v = rVolumeID r)"
    using run
  proof (cases rule: node_op_cases)
    case (acquired i a v0 a')
    then show ?thesis using found [OF acquired(3)] by (auto simp: use_held_def healthy_def volumes_keyed_def)
  next
    case (initialised i a v0 v')
    then show ?thesis using found [OF initialised(3)] by (auto simp: use_held_def)
  next
    case (checked i a v0)
    then show ?thesis using found [OF checked(4)] by (auto simp: use_held_def healthy_def volumes_keyed_def)
  qed (use op in auto)
  then show "use_held s' (pInstanceID p) (rVolumeID r) (rAttachmentID r) (rUseID r)"
    and "op \<in> {''AcquireUse'', ''CheckUse''} \<Longrightarrow> oVolume out = Some v \<Longrightarrow> volumes_keyed s \<Longrightarrow> vID v = rVolumeID r"
    by auto
qed

section \<open>The contract holds\<close>

text \<open>The calls of one principal, of either role, with the platform's other activity around each.\<close>

locale world_around = storage_provider P disks_of
  for P :: "'p provider" and disks_of :: "'p \<Rightarrow> string \<Rightarrow> disk option" +
  fixes B :: "('tx, 'b) bolt" and cds :: "('b, platform) codec" and cda :: "('b, audit_entry) codec"
    and cfg :: config and E :: "('tx, 'p) surroundings" and insts :: "string set" and p :: principal
  assumes database: "bolt_ok B" and states: "codec_ok cds zero_platform" and config: "config_ok cfg"
    and around: "surroundings_ok B cds cda P insts E"
begin

lemma Local_Call_steps:
  assumes "Local_Call B cds cda cfg E p ctx op r w = (res, w')"
  obtains k db cloud env where "(other_step B cds cda P insts ^^ k) (wDb w, wCloud w) (db, cloud)"
    and "Call B cds cda (oUpdate E (wSteps w)) cfg env p op r db = (res, wDb w')"
    and "wCloud w' = cloud" and "wSteps w' = Suc (wSteps w + k)" and "atomic_update (oUpdate E (wSteps w))"
    and "\<And>s. platform_read B cds db = Inr s \<Longrightarrow> env_for env s \<and> fresh_ids env s"
proof -
  obtain k db cloud where o: "oOther E (wSteps w) (wDb w, wCloud w) = (k, db, cloud)"
    by (metis prod_cases3)
  define env where "env = (oEnv E (wSteps w) db)\<lparr>eCtx := ctx\<rparr>"
  obtain db' where run: "Call B cds cda (oUpdate E (wSteps w)) cfg env p op r db = (res, db')"
    and w': "w' = \<lparr>wDb = db', wCloud = cloud, wSteps = Suc (wSteps w + k)\<rparr>"
    using assms o by (auto simp: Local_Call_def env_def split: prod.splits)
  have "env_for env s \<and> fresh_ids env s" if "platform_read B cds db = Inr s" for s
    using around that by (auto simp: surroundings_ok_def env_def env_for_def fresh_ids_def)
  moreover have "(other_step B cds cda P insts ^^ k) (wDb w, wCloud w) (db, cloud)"
    and "atomic_update (oUpdate E (wSteps w))"
    using around o by (auto simp: surroundings_ok_def)
  ultimately show thesis using that run w' by simp
qed

lemma Local_Call_ok:
  assumes ok: "world_ok B cds disks_of w" and run: "Local_Call B cds cda cfg E p ctx op r w = (res, w')"
  shows "world_ok B cds disks_of w'"
  using run
proof (cases rule: Local_Call_steps)
  case (1 k db cloud env)
  have "world_at B cds disks_of (wSteps w + k) (db, cloud)"
    using world_at_steps [OF database states 1(1)] ok by (simp add: world_ok_def)
  moreover have "sys_step B cds cda P (db, cloud) (wDb w', wCloud w')"
    using sys_step.call [OF 1(5) config 1(6,2)] 1(3) by simp
  ultimately show ?thesis
    using world_at_step [OF database states] 1(4) by (simp add: world_ok_def)
qed

lemma Local_Call_answer:
  assumes "Local_Call B cds cda cfg E p ctx op r w = ((out, None), w')"
  obtains k db cloud env s s' where "(other_step B cds cda P insts ^^ k) (wDb w, wCloud w) (db, cloud)"
    and "platform_read B cds db = Inr s" and "apply_op cfg env p op r s = (out, None, s')"
    and "platform_read B cds (wDb w') = Inr s'"
  using assms
proof (cases rule: Local_Call_steps)
  case (1 k db cloud env)
  from database states 1(5,2) show thesis
    by (cases rule: Call_cases) (use that [OF 1(1)] in auto)
qed

lemma Local_Call_holds:
  assumes ok: "world_ok B cds disks_of w" and run: "Local_Call B cds cda cfg E p ctx op r w = (res, w')"
    and held: "world_holds B cds i w vol att use" and i: "i \<in> insts"
    and other: "\<not> own_release i p op \<or> rVolumeID r \<noteq> vol"
  shows "world_holds B cds i w' vol att use"
  using run
proof (cases rule: Local_Call_steps)
  case (1 k db cloud env)
  obtain s where s: "platform_read B cds (wDb w) = Inr s" "volumes_keyed s" "use_held s i vol att use"
    using ok held by (auto simp: world_ok_def world_at_def world_holds_def)
  obtain s1 where s1: "platform_read B cds db = Inr s1" "volumes_keyed s1" "use_held s1 i vol att use"
    using other_steps_hold [OF database states 1(1) i, of s vol att use] s by auto
  then show ?thesis
    using Call_keeps [OF database states 1(5,2) s1(1,2) _ config] 1(6) other by (auto simp: world_holds_def)
qed

end

sublocale world_around \<subseteq> answers: storage_api "Local_Call B cds cda cfg E p"
proof unfold_locales
  fix ctx op r w out w'
  assume run: "Local_Call B cds cda cfg E p ctx op r w = ((out, None), w')"
    and op: "op \<in> {''CreateVolume'', ''GetVolume'', ''ResizeVolume'', ''AcquireUse'', ''CheckUse''}"
  from run show "oVolume out \<noteq> None"
    by (cases rule: Local_Call_answer) (rule apply_op_fields(1) [OF _ op])
next
  fix ctx r w out w'
  assume "Local_Call B cds cda cfg E p ctx ''CreateAttachment'' r w = ((out, None), w')"
  then show "oAttachment out \<noteq> None"
    by (cases rule: Local_Call_answer) (rule apply_op_fields(2) [OF _ refl])
qed

text \<open>For a node's principal, whose uses nobody else releases, the contract of durable uses.\<close>

locale local_world = world_around P disks_of B cds cda cfg E insts p
  for P :: "'p provider" and disks_of :: "'p \<Rightarrow> string \<Rightarrow> disk option" and B :: "('tx, 'b) bolt"
    and cds :: "('b, platform) codec" and cda :: "('b, audit_entry) codec" and cfg :: config
    and E :: "('tx, 'p) surroundings" and insts :: "string set" and p :: principal +
  assumes node_role: "pRole p = ''node''" and own: "pInstanceID p \<in> insts"

sublocale local_world \<subseteq> api: use_service "Local_Call B cds cda cfg E p" "world_ok B cds disks_of"
  "world_holds B cds (pInstanceID p)"
proof unfold_locales
  fix w ctx op r res w'
  assume "world_ok B cds disks_of w" and "Local_Call B cds cda cfg E p ctx op r w = (res, w')"
  then show "world_ok B cds disks_of w'" by (rule Local_Call_ok)
next
  fix w ctx op r res w' vol att use
  assume "world_ok B cds disks_of w" and "Local_Call B cds cda cfg E p ctx op r w = (res, w')"
    and "world_holds B cds (pInstanceID p) w vol att use" and "op \<noteq> ''ReleaseUse'' \<or> rVolumeID r \<noteq> vol"
  then show "world_holds B cds (pInstanceID p) w' vol att use"
    using Local_Call_holds [OF _ _ _ own] by (auto simp: own_release_def)
next
  fix w ctx op r out w'
  assume "world_ok B cds disks_of w" and run: "Local_Call B cds cda cfg E p ctx op r w = ((out, None), w')"
    and op: "op \<in> {''AcquireUse'', ''CheckUse'', ''RecordPublish'', ''MarkInitialized''}"
  from run show "world_holds B cds (pInstanceID p) w' (rVolumeID r) (rAttachmentID r) (rUseID r)"
  proof (cases rule: Local_Call_answer)
    case (1 k db cloud env s s')
    then have "node_op cfg p op r s = (out, None, s')" using node_role by (simp add: apply_op_def)
    from node_op_confirms(1) [OF this config op] show ?thesis using 1(4) by (auto simp: world_holds_def)
  qed
next
  fix w ctx op r out w' v
  assume ok: "world_ok B cds disks_of w" and run: "Local_Call B cds cda cfg E p ctx op r w = ((out, None), w')"
    and op: "op \<in> {''AcquireUse'', ''CheckUse''}" and v: "oVolume out = Some v"
  from run show "vID v = rVolumeID r"
  proof (cases rule: Local_Call_answer)
    case (1 k db cloud env s s')
    have "world_at B cds disks_of (wSteps w + k) (db, cloud)"
      using world_at_steps [OF database states 1(1)] ok by (simp add: world_ok_def)
    then have "volumes_keyed s" using 1(2) by (auto simp: world_at_def)
    moreover have "node_op cfg p op r s = (out, None, s')" using node_role 1(3) by (simp add: apply_op_def)
    ultimately show ?thesis using node_op_confirms(2) [OF _ config _ op v] op by blast
  qed
qed

context local_world
begin

lemmas uses = api.use_service_axioms

end

end
