(* ===== verification/Cluster.thy ===== *)
theory Cluster
  imports World
begin

text \<open>
  Everything together: the platform, its cloud, and a node driver on every instance of \<open>insts\<close>.
  A step is a call of one node's service, with anything going on at the platform around each of
  its API calls; other platform activity; or the loss of mounts on a node (a reboot). A crash of
  a driver in the middle of a method leaves a state that a failure of the method's next step also
  leaves, and the driver keeps nothing else in memory.
\<close>

record ('h, 'j) machine =
  mcHost :: 'h
  mcJournal :: 'j

record ('tx, 'p, 'h, 'j) cluster =
  clWorld :: "('tx, 'p) world"
  clNodes :: "string \<Rightarrow> ('h, 'j) machine"

definition at_node :: "('tx, 'p, 'h, 'j) cluster \<Rightarrow> string \<Rightarrow> (('tx, 'p) world, 'h, 'j) node_state" where
  "at_node g i = \<lparr>nAPI = clWorld g, nHost = mcHost (clNodes g i), nJournal = mcJournal (clNodes g i)\<rparr>"

definition serve_at ::
  "(('tx, 'p) world, 'h, 'j, 'jb) node \<Rightarrow> string \<Rightarrow> (nat \<Rightarrow> ctx) \<Rightarrow> (string \<Rightarrow> lstat) \<Rightarrow> node_call
     \<Rightarrow> ('tx, 'p, 'h, 'j) cluster \<Rightarrow> ('tx, 'p, 'h, 'j) cluster" where
  "serve_at n i cx ls call g =
     (let s = serve_call n cx ls call (at_node g i)
      in \<lparr>clWorld = nAPI s, clNodes = (clNodes g)(i := \<lparr>mcHost = nHost s, mcJournal = nJournal s\<rparr>)\<rparr>)"

inductive cluster_step ::
  "('tx, 'b) bolt \<Rightarrow> ('b, platform) codec \<Rightarrow> ('b, audit_entry) codec \<Rightarrow> 'p provider \<Rightarrow> ('h \<Rightarrow> string \<Rightarrow> string option)
     \<Rightarrow> string set \<Rightarrow> (string \<Rightarrow> principal) \<Rightarrow> (string \<Rightarrow> (('tx, 'p) world, 'h, 'j, 'jb) node)
     \<Rightarrow> ('tx, 'p, 'h, 'j) cluster \<Rightarrow> ('tx, 'p, 'h, 'j) cluster \<Rightarrow> bool"
  for B cds cda P mounted_at insts prin nd where
  serve: "i \<in> insts \<Longrightarrow> config_ok cfg \<Longrightarrow> surroundings_ok B cds cda P insts E \<Longrightarrow>
    n = (nd i)\<lparr>ndAPI := Local_Call B cds cda cfg E (prin i)\<rparr> \<Longrightarrow>
    cluster_step B cds cda P mounted_at insts prin nd g (serve_at n i cx ls call g)"
| outside: "(other_step B cds cda P insts ^^ k) (wDb (clWorld g), wCloud (clWorld g)) (db, cloud) \<Longrightarrow>
    cluster_step B cds cda P mounted_at insts prin nd g
      (g\<lparr>clWorld := \<lparr>wDb = db, wCloud = cloud, wSteps = wSteps (clWorld g) + k\<rparr>\<rparr>)"
| lost: "(\<And>path vol. mounted_at h path = Some vol \<Longrightarrow> mounted_at (mcHost (clNodes g i)) path = Some vol) \<Longrightarrow>
    cluster_step B cds cda P mounted_at insts prin nd g
      (g\<lparr>clNodes := (clNodes g)(i := (clNodes g i)\<lparr>mcHost := h\<rparr>)\<rparr>)"

inductive_cases cluster_stepE [consumes 1, case_names serve outside lost]:
  "cluster_step B cds cda P mounted_at insts prin nd g g'"

definition cluster_init ::
  "('tx, 'b) bolt \<Rightarrow> ('b, platform) codec \<Rightarrow> ('p \<Rightarrow> string \<Rightarrow> disk option) \<Rightarrow> ('h \<Rightarrow> string \<Rightarrow> string option)
     \<Rightarrow> string set \<Rightarrow> (string \<Rightarrow> (('tx, 'p) world, 'h, 'j, 'jb) node) \<Rightarrow> ('tx, 'p, 'h, 'j) cluster \<Rightarrow> bool" where
  "cluster_init B cds disks_of mounted_at insts nd g \<longleftrightarrow>
     sys_init B cds disks_of (wDb (clWorld g), wCloud (clWorld g)) \<and> wSteps (clWorld g) = 0
     \<and> (\<forall>i\<in>insts. journal (nd i) (mcJournal (clNodes g i)) = Inr fmempty
           \<and> mounted_at (mcHost (clNodes g i)) = (\<lambda>_. None))"

text \<open>How the nodes are set up: on the same kind of host, each with its own machine's identity.\<close>

definition nodes_ok ::
  "'h host \<Rightarrow> string set \<Rightarrow> (string \<Rightarrow> principal) \<Rightarrow> (string \<Rightarrow> ('a, 'h, 'j, 'jb) node) \<Rightarrow> bool" where
  "nodes_ok H insts prin nd \<longleftrightarrow> (\<forall>i\<in>insts. ndHost (nd i) = H \<and> journal_ok (nd i)
     \<and> pRole (prin i) = ''node'' \<and> pInstanceID (prin i) = i)"

lemma at_node_serve: "at_node (serve_at n i cx ls call g) i = serve_call n cx ls call (at_node g i)"
  by (rule node_state.equality) (simp_all add: at_node_def serve_at_def Let_def)

lemma journal_api [simp]: "journal (n\<lparr>ndAPI := C\<rparr>) = journal n"
  by (simp add: fun_eq_iff journal_def)

lemma journal_ok_api [simp]: "journal_ok (n\<lparr>ndAPI := C\<rparr>) = journal_ok n"
  by (simp add: journal_ok_def)

lemma node_ok_api [simp]: "node_ok (n\<lparr>ndAPI := C\<rparr>) = node_ok n"
  by (simp add: fun_eq_iff node_ok_def)

lemma node_ok_cong:
  assumes "node_ok n ok holds mounted_at s" and "ok (nAPI s')"
    and "\<And>vol att use. holds (nAPI s) vol att use \<Longrightarrow> holds (nAPI s') vol att use"
    and "\<And>path vol. mounted_at (nHost s') path = Some vol \<Longrightarrow> mounted_at (nHost s) path = Some vol"
    and "nJournal s' = nJournal s"
  shows "node_ok n ok holds mounted_at s'"
  using assms unfolding node_ok_def node_inv_def by metis

section \<open>The invariant\<close>

locale nodes = storage_provider P disks_of + mount_host H mounted_at
  for P :: "'p provider" and disks_of :: "'p \<Rightarrow> string \<Rightarrow> disk option"
    and H :: "'h host" and mounted_at :: "'h \<Rightarrow> string \<Rightarrow> string option" +
  fixes B :: "('tx, 'b) bolt" and cds :: "('b, platform) codec" and cda :: "('b, audit_entry) codec"
    and insts :: "string set" and prin :: "string \<Rightarrow> principal"
    and nd :: "string \<Rightarrow> (('tx, 'p) world, 'h, 'j, 'jb) node"
  assumes database: "bolt_ok B" and states: "codec_ok cds zero_platform" and machines: "nodes_ok H insts prin nd"
begin

definition cluster_ok where
  "cluster_ok g \<longleftrightarrow> world_ok B cds disks_of (clWorld g)
     \<and> (\<forall>i\<in>insts. node_ok (nd i) (world_ok B cds disks_of) (world_holds B cds i) mounted_at (at_node g i))"

lemma local_world_at:
  assumes "i \<in> insts" and "config_ok cfg" and "surroundings_ok B cds cda P insts E"
  shows "local_world P disks_of B cds cda cfg E insts (prin i)"
  using assms machines database states
  by unfold_locales (auto simp: nodes_ok_def)

lemma serve_ok:
  assumes g: "cluster_ok g" and i: "i \<in> insts" and cfg: "config_ok cfg"
    and E: "surroundings_ok B cds cda P insts E"
    and n: "n = (nd i)\<lparr>ndAPI := Local_Call B cds cda cfg E (prin i)\<rparr>"
  shows "cluster_ok (serve_at n i cx ls call g)"
proof -
  note lw = local_world_at [OF i cfg E]
  have pi: "pInstanceID (prin i) = i" using machines i by (simp add: nodes_ok_def)
  let ?s' = "serve_call n cx ls call (at_node g i)"
  let ?W = "\<lambda>w. world_ok B cds disks_of w"
  have ok: "?W (clWorld g)" "node_ok n ?W (world_holds B cds i) mounted_at (at_node g i)"
    using g i by (simp_all add: cluster_ok_def n)
  have nd: "node_driver (Local_Call B cds cda cfg E (prin i)) ?W (world_holds B cds i) H mounted_at n"
    using local_world.uses [OF lw] mount_host_axioms machines i
    by (auto simp: node_driver_def node_driver_axioms_def n nodes_ok_def pi)
  have own: "node_ok n ?W (world_holds B cds i) mounted_at ?s'"
    by (rule node_driver.serve_call_okay [OF nd ok(2)])
  have calls: "api_kept n (\<lambda>w. ?W w \<and> (j \<in> insts \<and> j \<noteq> i \<and> world_holds B cds j w0 vol att use
      \<longrightarrow> world_holds B cds j w vol att use))" for j w0 vol att use
    unfolding api_kept_def n
    using world_around.Local_Call_ok [OF local_world.axioms(1) [OF lw]]
      world_around.Local_Call_holds [OF local_world.axioms(1) [OF lw], where i = j]
    by (auto simp: own_release_def pi)
  have kept: "?W (nAPI ?s') \<and> (j \<in> insts \<and> j \<noteq> i \<and> world_holds B cds j (clWorld g) vol att use
      \<longrightarrow> world_holds B cds j (nAPI ?s') vol att use)" for j vol att use
    using serve_call_api [OF calls [of j "clWorld g" vol att use], of "at_node g i" cx ls call] ok(1)
    by (simp add: at_node_def)
  show ?thesis
    unfolding cluster_ok_def
  proof (intro conjI ballI)
    show "?W (clWorld (serve_at n i cx ls call g))" using kept by (simp add: serve_at_def Let_def)
    fix j assume j: "j \<in> insts"
    show "node_ok (nd j) ?W (world_holds B cds j) mounted_at (at_node (serve_at n i cx ls call g) j)"
    proof (cases "j = i")
      case True
      then show ?thesis using own by (simp add: at_node_serve n)
    next
      case False
      then have "node_ok (nd j) ?W (world_holds B cds j) mounted_at (at_node g j)"
        using g j by (simp add: cluster_ok_def)
      then show ?thesis
        by (rule node_ok_cong) (use kept [of j] j False in \<open>auto simp: serve_at_def at_node_def Let_def\<close>)
    qed
  qed
qed

lemma outside_ok:
  assumes g: "cluster_ok g"
    and run: "(other_step B cds cda P insts ^^ k) (wDb (clWorld g), wCloud (clWorld g)) (db, cloud)"
  shows "cluster_ok (g\<lparr>clWorld := \<lparr>wDb = db, wCloud = cloud, wSteps = wSteps (clWorld g) + k\<rparr>\<rparr>)"
    (is "cluster_ok (g\<lparr>clWorld := ?w\<rparr>)")
proof -
  have w: "world_ok B cds disks_of ?w"
    using g world_at_steps [OF database states run] by (simp add: cluster_ok_def world_ok_def)
  have held: "world_holds B cds j ?w vol att use"
    if j: "j \<in> insts" and h: "world_holds B cds j (clWorld g) vol att use" for j vol att use
  proof -
    obtain s where s: "platform_read B cds (wDb (clWorld g)) = Inr s" "use_held s j vol att use"
      using h by (auto simp: world_holds_def)
    moreover have "volumes_keyed s" using g s(1) by (auto simp: cluster_ok_def world_ok_def world_at_def)
    ultimately show ?thesis
      using other_steps_hold [OF database states run j, of s vol att use] by (auto simp: world_holds_def)
  qed
  show ?thesis
    unfolding cluster_ok_def
  proof (intro conjI ballI)
    fix j assume j: "j \<in> insts"
    then have "node_ok (nd j) (world_ok B cds disks_of) (world_holds B cds j) mounted_at (at_node g j)"
      using g by (simp add: cluster_ok_def)
    then show "node_ok (nd j) (world_ok B cds disks_of) (world_holds B cds j) mounted_at (at_node (g\<lparr>clWorld := ?w\<rparr>) j)"
      by (rule node_ok_cong) (use w held [OF j] in \<open>auto simp: at_node_def\<close>)
  qed (simp add: w)
qed

lemma cluster_step_ok:
  assumes "cluster_step B cds cda P mounted_at insts prin nd g g'" and g: "cluster_ok g"
  shows "cluster_ok g'"
  using assms(1)
proof (cases rule: cluster_stepE)
  case (serve i cfg E cx ls call)
  then show ?thesis using serve_ok [OF g serve(2,3,4) refl] by simp
next
  case (outside k db cloud)
  then show ?thesis using outside_ok [OF g] by simp
next
  case (lost h i)
  have "node_ok (nd j) (world_ok B cds disks_of) (world_holds B cds j) mounted_at (at_node g' j)"
    if j: "j \<in> insts" for j
  proof -
    have "node_ok (nd j) (world_ok B cds disks_of) (world_holds B cds j) mounted_at (at_node g j)"
      using g j by (simp add: cluster_ok_def)
    then show ?thesis
      by (rule node_ok_cong) (use g lost in \<open>auto simp: at_node_def cluster_ok_def split: if_splits\<close>)
  qed
  then show ?thesis using g lost(1) by (simp add: cluster_ok_def)
qed

lemma cluster_init_ok: "cluster_init B cds disks_of mounted_at insts nd g \<Longrightarrow> cluster_ok g"
  using sys_init_inv [of B cds disks_of "(wDb (clWorld g), wCloud (clWorld g))"]
  by (auto simp: cluster_init_def cluster_ok_def world_ok_def world_at_def sys_init_def volumes_keyed_def
      zero_platform_def node_ok_def node_inv_def at_node_def)

lemma cluster_reachable_ok:
  assumes "(cluster_step B cds cda P mounted_at insts prin nd)\<^sup>*\<^sup>* g g'"
    and "cluster_init B cds disks_of mounted_at insts nd g"
  shows "cluster_ok g'"
  using assms(1) by (induction rule: rtranclp_induct) (use cluster_init_ok [OF assms(2)] cluster_step_ok in blast)+

text \<open>A mount rests on a durable use, and within the counters' range on the attached disk.\<close>

lemma mounted_use:
  assumes "cluster_ok g" and "i \<in> insts" and "mounted_at (mcHost (clNodes g i)) path = Some vol"
  shows "\<exists>s att use. platform_read B cds (wDb (clWorld g)) = Inr s \<and> use_held s i vol att use"
  using assms unfolding cluster_ok_def node_ok_def node_inv_def world_holds_def
  by (fastforce simp: at_node_def)

lemma mounted_disk:
  assumes g: "cluster_ok g" and few: "wSteps (clWorld g) \<le> 2 ^ 64 - 1" and i: "i \<in> insts"
    and mnt: "mounted_at (mcHost (clNodes g i)) path = Some vol"
  shows "\<exists>d. disks_of (wCloud (clWorld g)) vol = Some d \<and> dInstanceID d = i"
proof -
  obtain s att use where s: "platform_read B cds (wDb (clWorld g)) = Inr s" and u: "use_held s i vol att use"
    using mounted_use [OF g i mnt] by blast
  obtain a where a: "fmlookup (Attachments s) att = Some a" "aInstanceID a = i" "aVolumeID a = vol"
    "fmlookup (aUses a) use = Some True"
    using u by (auto simp: use_held_def)
  then have "aUses a \<noteq> fmempty" by auto
  moreover have "use_attached s (disks_of (wCloud (clWorld g)))"
    using g s few by (auto simp: cluster_ok_def world_ok_def world_at_def sys_inv_def sys_ok_def)
  ultimately show ?thesis
    using a by (auto simp: use_attached_def attached_to_def)
qed

end

end
