(* ===== verification/Issued.thy ===== *)
theory Issued
  imports World
begin

text \<open>
  The identifiers the platform issues. \<open>newID\<close> in \<^verbatim>\<open>internal/platform/engine.go\<close> writes a prefix and 16 random
  bytes in hexadecimal; as long as no more bytes are drawn, every attachment the platform ever records has an
  identifier the drivers and the host accept. \<open>drawn_step\<close> is a step of the platform's surroundings with that bound.
\<close>

section \<open>What is issued is valid\<close>

lemma attachment_id_valid:
  assumes "length rnd \<le> 16"
  shows "ValidID (newID ''attachment-'' rnd)"
proof -
  have "list_all id_rest_char (hex_encode rnd)"
    using hex_encode_id by (auto simp: list_all_iff id_rest_char_def)
  then show ?thesis
    using assms
    by (simp add: ValidID_def newID_def id_first_char_def id_rest_char_def less_eq_char_def length_hex_encode)
qed

definition issued_ids :: "platform \<Rightarrow> bool" where
  "issued_ids s \<longleftrightarrow> (\<forall>k. fmlookup (Attachments s) k \<noteq> None \<longrightarrow> ValidID k)"

lemma issued_ids_empty: "issued_ids zero_platform"
  by (simp add: issued_ids_def zero_platform_def)

lemma issued_ids_put: "issued_ids s \<Longrightarrow> ValidID k \<Longrightarrow> issued_ids (put_attachment k a s)"
  by (simp add: issued_ids_def)

lemma issued_ids_rewrite: "issued_ids s \<Longrightarrow> fmlookup (Attachments s) k = Some a \<Longrightarrow> issued_ids (put_attachment k a' s)"
  by (auto simp: issued_ids_def)

lemma issued_ids_put_volume [simp]: "issued_ids (put_volume k v s) = issued_ids s"
  by (simp add: issued_ids_def)

section \<open>Every operation issues valid identifiers\<close>

lemma apply_op_issued:
  assumes run: "apply_op cfg env p op r s = (out, x, s')" and ids: "issued_ids s"
    and few: "op = ''CreateAttachment'' \<Longrightarrow> length (eRandom env) \<le> 16"
  shows "issued_ids s'"
  using run
proof (cases rule: apply_op_cases)
  case create_volume
  from create_volume(3) show ?thesis by (cases rule: create_volume_cases) (simp_all add: ids)
next
  case volume_case
  from volume_case(3) show ?thesis by (cases rule: volume_case_cases) (simp_all add: ids)
next
  case create_attachment
  from create_attachment(3) show ?thesis
  proof (cases rule: create_attachment_cases)
    case (created v v' i a)
    have "ValidID (aID a)" using attachment_id_valid [OF few [OF create_attachment(2)]] by (simp add: created(12))
    then show ?thesis unfolding created(14) by (intro issued_ids_put) (simp_all add: ids)
  qed (simp_all add: ids)
next
  case attachment_case
  from attachment_case(3) show ?thesis
    by (cases rule: attachment_case_cases) (simp_all add: ids issued_ids_rewrite)
next
  case node
  from node(2) show ?thesis
    by (cases rule: node_op_cases) (simp_all add: ids issued_ids_rewrite node_authorised_def)
next
  case get_instance
  then show ?thesis using ids by (auto dest: get_instance_state)
qed (simp add: ids)

lemma reconcile_state_issued:
  assumes run: "reconcile_state P cfg z s p = (Some s', p')" and ids: "issued_ids s"
  shows "issued_ids s'"
proof -
  obtain s1 p1 where volumes: "reconcile_volumes P z (zVolumes z) s p = (s1, p1)" by fastforce
  then have atts: "reconcile_attachments P cfg z (zAttachments z) s1 p1 = (Some s', p')"
    using run by (simp add: reconcile_state_def)
  have "issued_ids s1"
    by (rule reconcile_volumes_invariant [OF volumes, of "\<lambda>s _. issued_ids s"]) (simp_all add: ids)
  then have "case Some s' of Some t \<Rightarrow> issued_ids t | None \<Rightarrow> True"
    by (rule reconcile_attachments_invariant [where I = "\<lambda>s _. issued_ids s" and J = "\<lambda>_. True", OF atts])
      (simp_all add: issued_ids_rewrite)
  then show ?thesis by simp
qed

section \<open>Runs that draw at most 16 bytes\<close>

inductive drawn_step ::
  "('tx, 'b) bolt \<Rightarrow> ('b, platform) codec \<Rightarrow> ('b, audit_entry) codec \<Rightarrow> 'p provider \<Rightarrow> string set
     \<Rightarrow> 'tx \<times> 'p \<Rightarrow> 'tx \<times> 'p \<Rightarrow> bool"
  for B cds cda P insts where
  call: "atomic_update upd \<Longrightarrow> config_ok cfg \<Longrightarrow>
    (\<And>s. platform_read B cds db = Inr s \<Longrightarrow> env_for env s \<and> fresh_ids env s) \<Longrightarrow>
    Call B cds cda upd cfg env p op r db = (res, db') \<Longrightarrow>
    \<not> (op = ''ReleaseUse'' \<and> pRole p = ''node'' \<and> pInstanceID p \<in> insts) \<Longrightarrow>
    length (eRandom env) \<le> 16 \<Longrightarrow>
    drawn_step B cds cda P insts (db, cloud) (db', cloud)"
| reconcile: "atomic_update upd \<Longrightarrow>
    (\<And>s. platform_read B cds db = Inr s \<Longrightarrow> reconcile_for z s) \<Longrightarrow>
    Reconcile B cds upd P cfg z cloud db = (e, (cloud', panicked), db') \<Longrightarrow>
    drawn_step B cds cda P insts (db, cloud) (db', cloud')"

inductive_cases drawn_stepE [consumes 1, case_names call reconcile]: "drawn_step B cds cda P insts c c'"

lemma drawn_step_other: "drawn_step B cds cda P insts c c' \<Longrightarrow> other_step B cds cda P insts c c'"
  by (erule drawn_stepE) (auto intro: other_step.intros)

lemma drawn_steps_other: "(drawn_step B cds cda P insts ^^ k) c c' \<Longrightarrow> (other_step B cds cda P insts ^^ k) c c'"
  by (erule relpowp_mono [rotated]) (rule drawn_step_other)

lemma drawn_step_issued:
  assumes B: "bolt_ok B" and cd: "codec_ok cds zero_platform" and step: "drawn_step B cds cda P insts c c'"
    and s: "platform_read B cds (fst c) = Inr s" "issued_ids s"
  shows "\<exists>s'. platform_read B cds (fst c') = Inr s' \<and> issued_ids s'"
  using step
proof (cases rule: drawn_stepE)
  case (call upd cfg db env p op r res db' cloud)
  obtain out e where run: "Call B cds cda upd cfg env p op r db = ((out, e), db')"
    using call(6) by (metis prod.exhaust)
  from B cd call(3) run show ?thesis
  proof (cases rule: Call_cases)
    case failed
    then show ?thesis using s call(1,2) by auto
  next
    case (completed s1 s')
    have "issued_ids s'" by (rule apply_op_issued [OF completed(3)]) (use completed(2) s call(1,8) in simp_all)
    then show ?thesis using completed(2,5) s call(1,2) by (cases e) auto
  qed
next
  case (reconcile upd db z cfg cloud e cloud' panicked db')
  from B cd reconcile(3,5) show ?thesis
  proof (cases rule: Reconcile_cases)
    case (committed s1 s')
    then have "s1 = s" using s(1) reconcile(1) by simp
    then have "issued_ids s'" using reconcile_state_issued [OF committed(4)] s(2) by simp
    then show ?thesis using committed(5) reconcile(2) by simp
  qed (use s reconcile(1,2) in auto)
qed

lemma drawn_steps_issued:
  assumes "bolt_ok B" and "codec_ok cds zero_platform" and "(drawn_step B cds cda P insts ^^ k) c c'"
    and "platform_read B cds (fst c) = Inr s" "issued_ids s"
  shows "\<exists>s'. platform_read B cds (fst c') = Inr s' \<and> issued_ids s'"
  using assms(3)
proof (induction k arbitrary: c')
  case 0
  then show ?case using assms(4,5) by simp
next
  case (Suc k)
  then obtain c1 where "(drawn_step B cds cda P insts ^^ k) c c1" "drawn_step B cds cda P insts c1 c'"
    by (auto elim!: relcompp.cases)
  then show ?case using Suc.IH drawn_step_issued [OF assms(1,2)] by blast
qed

text \<open>A call of the local client: the drawn steps around it, then the call itself.\<close>

lemma Local_Call_drawn:
  assumes "Local_Call B cds cda cfg E p ctx op r w = (res, w')"
    and "\<forall>t c1 k c2. oOther E t c1 = (k, c2) \<longrightarrow> (drawn_step B cds cda P insts ^^ k) c1 c2"
  obtains k db cloud env where "(drawn_step B cds cda P insts ^^ k) (wDb w, wCloud w) (db, cloud)"
    and "Call B cds cda (oUpdate E (wSteps w)) cfg env p op r db = (res, wDb w')"
    and "wCloud w' = cloud" and "wSteps w' = Suc (wSteps w + k)"
proof -
  obtain k db cloud where o: "oOther E (wSteps w) (wDb w, wCloud w) = (k, db, cloud)"
    by (metis prod_cases3)
  then obtain db' where "Call B cds cda (oUpdate E (wSteps w)) cfg ((oEnv E (wSteps w) db)\<lparr>eCtx := ctx\<rparr>) p op r db = (res, db')"
    and "w' = \<lparr>wDb = db', wCloud = cloud, wSteps = Suc (wSteps w + k)\<rparr>"
    using assms(1) by (auto simp: Local_Call_def split: prod.splits)
  moreover have "(drawn_step B cds cda P insts ^^ k) (wDb w, wCloud w) (db, cloud)"
    using assms(2) o by blast
  ultimately show thesis using that by simp
qed

lemma Local_Call_issued:
  assumes "bolt_ok B" and "codec_ok cds zero_platform" and "atomic_update (oUpdate E (wSteps w))"
    and "Local_Call B cds cda cfg E p ctx op r w = (res, w')" and "op \<noteq> ''CreateAttachment''"
    and others: "\<forall>t c1 k c2. oOther E t c1 = (k, c2) \<longrightarrow> (drawn_step B cds cda P insts ^^ k) c1 c2"
    and "platform_read B cds (wDb w) = Inr s" "issued_ids s"
  shows "\<exists>s'. platform_read B cds (wDb w') = Inr s' \<and> issued_ids s'"
  using assms(4) others
proof (cases rule: Local_Call_drawn)
  case (1 k db cloud env)
  obtain s1 where s1: "platform_read B cds db = Inr s1" "issued_ids s1"
    using drawn_steps_issued [OF assms(1,2) 1(1)] assms(7,8) by auto
  obtain out e where run: "Call B cds cda (oUpdate E (wSteps w)) cfg env p op r db = ((out, e), wDb w')"
    using 1(2) by (metis prod.exhaust)
  from assms(1-3) run show ?thesis
  proof (cases rule: Call_cases)
    case failed
    then show ?thesis using s1 by simp
  next
    case (completed s2 s3)
    have "issued_ids s3" by (rule apply_op_issued [OF completed(3)]) (use completed(2) s1 assms(5) in simp_all)
    then show ?thesis using completed(2,5) s1 by (cases e) auto
  qed
qed

section \<open>The world such a run leaves\<close>

lemma world_at_init: "sys_init B cds disks_of c \<Longrightarrow> world_at B cds disks_of 0 c"
  using sys_init_inv [of B cds disks_of c]
  by (auto simp: world_at_def sys_init_def volumes_keyed_def zero_platform_def)

context storage_provider
begin

lemma world_at_drawn:
  assumes "bolt_ok B" and "codec_ok cds zero_platform" and "sys_init B cds disks_of c"
    and "(drawn_step B cds cda P insts ^^ n) c c'"
  shows "world_at B cds disks_of n c'"
  using world_at_steps [OF assms(1,2) drawn_steps_other [OF assms(4)] world_at_init [OF assms(3)]] by simp

lemma issued_drawn:
  assumes "bolt_ok B" and "codec_ok cds zero_platform" and "sys_init B cds disks_of c"
    and "(drawn_step B cds cda P insts ^^ n) c c'"
  shows "\<exists>s'. platform_read B cds (fst c') = Inr s' \<and> issued_ids s'"
  using drawn_steps_issued [OF assms(1,2,4) _ issued_ids_empty] assms(3) by (simp add: sys_init_def)

end

end
