(* ===== verification/NodeSpec.thy ===== *)
theory NodeSpec
  imports Cluster DriverSpec Issued
begin

text \<open>
  The node driver on the in-memory platform, cloud, journal and simulated host, and what the
  cluster guarantees from the kubelet's mounts down to the cloud's disks.
\<close>

section \<open>Surroundings that compute\<close>

text \<open>Loop orders and random bytes read off the state: zeros enough to exceed every key.\<close>

definition mem_env :: "platform \<Rightarrow> call_env" where
  "mem_env s = (let vs = sorted_list_of_fset (fmdom (Volumes s)); as = sorted_list_of_fset (fmdom (Attachments s))
     in \<lparr>eCtx = None, eNow = ''2024-01-01T00:00:00Z'', eKeyTime = ''2024-01-01T00:00:00Z'',
         eRandom = replicate (Suc (length (concat (vs @ as)))) 0, eVolumes = vs, eAttachments = as\<rparr>)"

definition mem_around :: "((platform + audit_entry) mem_db, disks mem_db) surroundings" where
  "mem_around = \<lparr>oOther = (\<lambda>t c. (0, c)),
     oEnv = (\<lambda>t db. case platform_read mem_bolt ex_states db of Inr s \<Rightarrow> mem_env s | Inl _ \<Rightarrow> mem_env zero_platform),
     oUpdate = (\<lambda>t. mem_update)\<rparr>"

lemma length_in_concat: "x \<in> set xs \<Longrightarrow> length x \<le> length (concat xs)"
  by (induction xs) auto

lemma long_key_fresh:
  assumes "fmdom m = fset_of_list ks" and "length (concat ks) < length k"
  shows "fmlookup m k = None"
proof (rule fmdom_notD)
  show "k |\<notin>| fmdom m"
    using assms length_in_concat [of k ks] by (auto simp: fset_of_list_elem)
qed

lemma distinct_keys: "distinct (sorted_list_of_fset S)"
  by (simp add: sorted_list_of_fset.rep_eq)

lemma length_newID: "length (newID pre rnd) = length pre + 2 * length rnd"
  by (induction rnd) (simp_all add: newID_def hex_encode_def)

lemma mem_env_ok: "env_for (mem_env s) s \<and> fresh_ids (mem_env s) s"
proof -
  let ?vs = "sorted_list_of_fset (fmdom (Volumes s))" and ?as = "sorted_list_of_fset (fmdom (Attachments s))"
  have "fmlookup (Volumes s) (newID ''volume-'' (eRandom (mem_env s))) = None"
    by (rule long_key_fresh [of _ ?vs]) (simp_all add: mem_env_def Let_def length_newID)
  moreover have "fmlookup (Attachments s) (newID ''attachment-'' (eRandom (mem_env s))) = None"
    by (rule long_key_fresh [of _ ?as]) (simp_all add: mem_env_def Let_def length_newID)
  ultimately show ?thesis
    by (simp add: env_for_def fresh_ids_def enumerates_def mem_env_def Let_def distinct_keys)
qed

lemma mem_around_ok: "surroundings_ok mem_bolt ex_states ex_audits mem_cloud insts mem_around"
  by (auto simp: surroundings_ok_def mem_around_def atomic_update_mem mem_env_ok)

section \<open>Interpretations\<close>

definition mem_node :: "string \<Rightarrow>
    (((platform + audit_entry) mem_db, disks mem_db) world, mounts mem_db, stages mem_db, stages) node" where
  "mem_node i = \<lparr>ndAPI = Local_Call mem_bolt ex_states ex_audits ex_config mem_around (ex_node ''t1'' i),
     ndHost = mem_host, ndBolt = mem_bolt, ndCodec = mem_codec (\<lambda>m. m) Some, ndUpdate = mem_update,
     ndView = mem_view, ndRoot = ''/kubelet'', ndInstance = ex_instance i ''t1''\<rparr>"

lemma mem_journal_ok: "journal_ok (mem_node i)"
  by (simp add: journal_ok_def mem_node_def bolt_ok_mem codec_ok_mem atomic_update_mem atomic_view_mem)

lemma mem_nodes_ok: "nodes_ok mem_host insts (ex_node ''t1'') mem_node"
  by (simp add: nodes_ok_def mem_journal_ok) (simp add: mem_node_def ex_node_def)

interpretation mem_local: local_world mem_cloud mem_cloud_disks mem_bolt ex_states ex_audits ex_config
  mem_around "{''vm-a''}" "ex_node ''t1'' ''vm-a''"
  by unfold_locales (simp_all add: bolt_ok_mem codec_ok_ex_states mem_around_ok ex_node_def)

interpretation mem_driver: node_driver "Local_Call mem_bolt ex_states ex_audits ex_config mem_around (ex_node ''t1'' ''vm-a'')"
  "world_ok mem_bolt ex_states mem_cloud_disks" "world_holds mem_bolt ex_states (pInstanceID (ex_node ''t1'' ''vm-a''))"
  mem_host mem_mounted "mem_node ''vm-a''"
  by unfold_locales (simp_all add: mem_journal_ok, simp_all add: mem_node_def)

interpretation mem_nodes: nodes mem_cloud mem_cloud_disks mem_host mem_mounted mem_bolt ex_states ex_audits
  "{''vm-a''}" "ex_node ''t1''" mem_node
  by unfold_locales (simp_all add: bolt_ok_mem codec_ok_ex_states mem_nodes_ok)

section \<open>A volume comes up on a node\<close>

abbreviation run_attached :: platform where
  "run_attached \<equiv> run_state (run_available\<lparr>vGeneration := 1\<rparr>) (Some (run_attachment\<lparr>aState := ''ATTACHED''\<rparr>))"

lemma mem_drawn_call:
  assumes s: "platform_read mem_bolt ex_states db = Inr s" and op: "apply_op ex_config env p op r s = (out, None, s')"
    and env: "env_for env s" "fresh_ids env s" "eCtx env = None" "length (eRandom env) \<le> 16" and p: "op \<noteq> ''ReleaseUse''"
  shows "\<exists>db'. drawn_step mem_bolt ex_states ex_audits mem_cloud insts (db, cloud) (db', cloud)
    \<and> platform_read mem_bolt ex_states db' = Inr s'"
proof -
  obtain db' where run: "Call mem_bolt ex_states ex_audits mem_update ex_config env p op r db = ((out, None), db')"
    and s': "platform_read mem_bolt ex_states db' = Inr s'"
    using mem_Call [OF s op env(3)] by blast
  have "drawn_step mem_bolt ex_states ex_audits mem_cloud insts (db, cloud) (db', cloud)"
    by (rule drawn_step.call [OF atomic_update_mem _ _ run]) (use s env p in auto)
  then show ?thesis using s' by blast
qed

lemma mem_drawn_reconcile:
  assumes s: "platform_read mem_bolt ex_states db = Inr s"
    and run: "reconcile_state mem_cloud ex_config z s cloud = (Some s', cloud')" and keys: "reconcile_for z s"
  shows "\<exists>db'. drawn_step mem_bolt ex_states ex_audits mem_cloud insts (db, cloud) (db', cloud')
    \<and> platform_read mem_bolt ex_states db' = Inr s'"
proof -
  obtain db' where s': "platform_read mem_bolt ex_states db' = Inr s'"
    and rec: "Reconcile mem_bolt ex_states mem_update mem_cloud ex_config z cloud db = (None, (cloud', False), db')"
    using mem_reconcile_step [OF s run keys] by blast
  have "drawn_step mem_bolt ex_states ex_audits mem_cloud insts (db, cloud) (db', cloud')"
    by (rule drawn_step.reconcile [OF atomic_update_mem _ rec]) (use s keys in auto)
  then show ?thesis using s' by blast
qed

text \<open>Four steps of the platform: create, provision, attach, carry out.\<close>

lemma run_drawn:
  "\<exists>db. (drawn_step mem_bolt ex_states ex_audits mem_cloud insts ^^ 4) run_start (db, run_cloud)
     \<and> platform_read mem_bolt ex_states db = Inr run_attached"
proof -
  let ?step = "drawn_step mem_bolt ex_states ex_audits mem_cloud insts"
  have ctx: "eCtx (run_env [b] vs as) = None" "length (eRandom (run_env [b] vs as)) \<le> 16" for b vs as
    by (simp_all add: run_env_def)
  have r0: "platform_read mem_bolt ex_states mem_empty = Inr zero_platform"
    using run_init by (simp add: sys_init_def run_start_def)
  from mem_drawn_call [OF r0 run_create_volume run_envs(1,2) ctx, of insts] obtain db1 where
    s1: "?step run_start (db1, cloud_db fmempty)" and
    r1: "platform_read mem_bolt ex_states db1 = Inr (run_state run_volume None)"
    unfolding run_start_def by auto
  from mem_drawn_reconcile [OF r1 run_provision run_envs(5), of insts] obtain db2 where
    s2: "?step (db1, cloud_db fmempty) (db2, cloud_db (fmupd ''volume-01'' run_disk fmempty))" and
    r2: "platform_read mem_bolt ex_states db2 = Inr (run_state run_available None)" by blast
  from mem_drawn_call [OF r2 run_create_attachment run_envs(3,7) ctx, of insts] obtain db3 where
    s3: "?step (db2, cloud_db (fmupd ''volume-01'' run_disk fmempty)) (db3, cloud_db (fmupd ''volume-01'' run_disk fmempty))" and
    r3: "platform_read mem_bolt ex_states db3 = Inr (run_state (run_available\<lparr>vGeneration := 1\<rparr>) (Some run_attachment))"
    by auto
  from mem_drawn_reconcile [OF r3 run_attach run_envs(6), of insts] obtain db4 where
    s4: "?step (db3, cloud_db (fmupd ''volume-01'' run_disk fmempty)) (db4, run_cloud)" and
    r4: "platform_read mem_bolt ex_states db4 = Inr run_attached" by blast
  have "(?step ^^ 4) run_start (db4, run_cloud)"
    using s1 s2 s3 s4 by (simp add: eval_nat_numeral relcompp.simps OO_def) blast
  with r4 show ?thesis by blast
qed

lemma run_to_attached:
  "\<exists>db. (other_step mem_bolt ex_states ex_audits mem_cloud insts ^^ 4) run_start (db, run_cloud)
     \<and> platform_read mem_bolt ex_states db = Inr run_attached"
  using run_drawn [of insts] drawn_steps_other by blast

definition run_publish_context :: "(string, string) fmap" where
  "run_publish_context = fmupd ''attachmentGeneration'' (FormatUint 1) (fmupd ''attachmentID'' ''attachment-02'' fmempty)"

definition run_stage_request :: stage_request where
  "run_stage_request = \<lparr>srVolumeId = ''volume-01'', srPath = ''/kubelet/stage'',
     srCapability = Some \<lparr>kAccessMode = Some SingleNodeWriter, kAccessType = MountAccess '''' [] ''''\<rparr>,
     srContext = run_publish_context\<rparr>"

definition run_proof :: request where
  "run_proof = zero_request\<lparr>rVolumeID := ''volume-01'', rAttachmentID := ''attachment-02'', rGeneration := 1,
     rUseID := useID ''volume-01'' ''/kubelet/stage'' 1, rMode := ''mount'', rFSType := ''ext4''\<rparr>"

lemma mem_local_call:
  assumes s: "platform_read mem_bolt ex_states (wDb w) = Inr s"
    and op: "apply_op ex_config ((mem_env s)\<lparr>eCtx := None\<rparr>) p op r s = (out, None, s')"
  shows "\<exists>w'. Local_Call mem_bolt ex_states ex_audits ex_config mem_around p None op r w = ((out, None), w')
    \<and> platform_read mem_bolt ex_states (wDb w') = Inr s' \<and> wSteps w' = Suc (wSteps w) \<and> wCloud w' = wCloud w"
  using mem_Call [OF s op] by (auto simp: Local_Call_def mem_around_def s)

abbreviation run_node where "run_node \<equiv> ex_node ''t1'' ''vm-a''"

abbreviation run_used :: attachment where
  "run_used \<equiv> run_attachment\<lparr>aState := ''ATTACHED'', aUses := fmupd (rUseID run_proof) True fmempty\<rparr>"

abbreviation run_granted :: volume where
  "run_granted \<equiv> run_available\<lparr>vGeneration := 1\<rparr>"

lemma run_proof_simps [simp]:
  "rVolumeID run_proof = ''volume-01''" "rAttachmentID run_proof = ''attachment-02''" "rGeneration run_proof = 1"
  "rMode run_proof = ''mount''" "rFSType run_proof = ''ext4''" "ValidID (rUseID run_proof)"
  by (simp_all add: run_proof_def useID_valid)

lemma run_acquire_proof:
  "apply_op ex_config env run_node ''AcquireUse'' run_proof run_attached
     = (respond_use run_used (Some run_granted), None, run_state run_granted (Some run_used))"
  by (simp add: apply_op_def node_op_def Let_def run_defs ex_defs engine_instance_def)

lemma run_initialized:
  "apply_op ex_config env run_node ''MarkInitialized'' run_proof (run_state run_granted (Some run_used))
     = (respond_use run_used (Some (run_granted\<lparr>vAllowFormat := False\<rparr>)), None,
        run_state (run_granted\<lparr>vAllowFormat := False\<rparr>) (Some run_used))"
  by (simp add: apply_op_def node_op_def Let_def run_defs ex_defs engine_instance_def)

lemma run_capability: "capability (srCapability run_stage_request) = Inr (''mount'', ''ext4'')"
  by (simp add: capability_def run_stage_request_def)

lemma run_attach_proof:
  "attach_proof ''volume-01'' run_publish_context
     = Inr (zero_request\<lparr>rVolumeID := ''volume-01'', rAttachmentID := ''attachment-02'', rGeneration := 1\<rparr>)"
  by (simp add: attach_proof_def field_def run_publish_context_def ParseUint_FormatUint ValidID_def id_first_char_def
      id_rest_char_def less_eq_char_def)

lemma run_path: "validPath ''/kubelet'' (\<lambda>_. LstatFile False) ''/kubelet/stage'' = None"
proof -
  have "\<exists>rs cs. list_all proper (rs @ cs) \<and> rs \<noteq> [] \<and> cs \<noteq> [] \<and> Clean ''/kubelet'' = abs_path rs
      \<and> ''/kubelet/stage'' = abs_path (rs @ cs)"
    by (rule exI [of _ "[''kubelet'']"], rule exI [of _ "[''stage'']"])
      (use demo_path demo_root in simp)
  then show ?thesis by (simp add: validPath_accepts)
qed

text \<open>Stepping through a method that succeeds.\<close>

lemma step_through:
  "andThen (require True e) f1 = f1 ()" "andThen (pure_result (Inr x)) f2 = f2 x"
  "andThen (deref (Some v)) f3 = f3 v" "validPath (ndRoot n) ls path = None \<Longrightarrow> andThen (check_path n ls path) f4 = f4 ()"
  by (simp_all add: fun_eq_iff andThen_def require_def give_def pure_result_def deref_def check_path_def)

lemma andThen_run: "m s = (Inr x, s') \<Longrightarrow> andThen m f s = f x s'"
  by (simp add: andThen_def)

lemma mem_read_stages: "read_stages (mem_node i) (s\<lparr>nJournal := mem_empty\<rparr>) = (Inr fmempty, s\<lparr>nJournal := mem_empty\<rparr>)"
  by (simp add: read_stages_def reading_def mem_node_def mem_view_def store_Read_def mem_bolt_def mem_empty_def)

lemma mem_save_stages: "\<exists>j. save_stages (mem_node i) m s = (Inr (), s\<lparr>nJournal := j\<rparr>)"
  by (auto simp: save_stages_def failing_def mem_node_def mem_update_def store_Write_def mem_bolt_def mem_codec_def)

lemma call_api_run:
  "ndAPI n ctx op r (nAPI s) = ((out, None), a) \<Longrightarrow> call_api n ctx op r s = (Inr out, s\<lparr>nAPI := a\<rparr>)"
  by (simp add: call_api_def valued_def)

lemma on_host_run: "g (nHost s) = (None, h) \<Longrightarrow> on_host g s = (Inr (), s\<lparr>nHost := h\<rparr>)"
  by (simp add: on_host_def failing_def)

lemma run_stage_request_simps [simp]:
  "srVolumeId run_stage_request = ''volume-01''" "srPath run_stage_request = ''/kubelet/stage''"
  "srContext run_stage_request = run_publish_context"
  by (simp_all add: run_stage_request_def)

lemma run_granted_simps:
  "vMode run_granted = ''mount''" "vFSType run_granted = ''ext4''" "vID run_granted = ''volume-01''"
  by (simp_all add: run_defs)

lemma mem_node_simps [simp]:
  "ndAPI (mem_node i) = Local_Call mem_bolt ex_states ex_audits ex_config mem_around (ex_node ''t1'' i)"
  "ndHost (mem_node i) = mem_host" "ndRoot (mem_node i) = ''/kubelet''"
  by (simp_all add: mem_node_def)

lemma run_stage:
  assumes s: "platform_read mem_bolt ex_states (wDb w) = Inr run_attached"
  shows "\<exists>w' h j. NodeStageVolume (mem_node ''vm-a'') (\<lambda>_. None) (\<lambda>_. LstatFile False) run_stage_request
      \<lparr>nAPI = w, nHost = mem_empty, nJournal = mem_empty\<rparr> = (Inr (), \<lparr>nAPI = w', nHost = h, nJournal = j\<rparr>)
    \<and> mem_mounted h ''/kubelet/stage'' = Some ''volume-01'' \<and> wSteps w' = wSteps w + 2 \<and> wCloud w' = wCloud w"
proof -
  let ?n = "mem_node ''vm-a''"
  let ?st = "\<lparr>stVolume = run_granted, stProof = run_proof, stPath = ''/kubelet/stage'', stReady = False, stTargets = fmempty\<rparr>"
  obtain w1 where w1: "Local_Call mem_bolt ex_states ex_audits ex_config mem_around run_node None ''AcquireUse'' run_proof w
      = ((respond_use run_used (Some run_granted), None), w1)"
    and s1: "platform_read mem_bolt ex_states (wDb w1) = Inr (run_state run_granted (Some run_used))"
    and n1: "wSteps w1 = Suc (wSteps w)" "wCloud w1 = wCloud w"
    using mem_local_call [OF s run_acquire_proof] by blast
  obtain w2 out where w2: "Local_Call mem_bolt ex_states ex_audits ex_config mem_around run_node None ''MarkInitialized'' run_proof w1
      = ((out, None), w2)" and n2: "wSteps w2 = Suc (wSteps w1)" "wCloud w2 = wCloud w1"
    using mem_local_call [OF s1 run_initialized] by blast
  obtain h where h: "HostStage mem_host None run_granted ''/kubelet/stage'' mem_empty = (None, h)"
    by (simp add: sim_run_simps run_defs zero_volume_def zero_request_def Let_def)
  then have m: "mem_mounted h ''/kubelet/stage'' = Some ''volume-01''"
    using mem_mounts.stage_mounted [OF h] by (simp add: run_defs)
  have commit: "\<exists>j. stage_commit ?n (\<lambda>_. None) ''volume-01'' ?st run_granted fmempty
      \<lparr>nAPI = w1, nHost = mem_empty, nJournal = mem_empty\<rparr> = (Inr (), \<lparr>nAPI = w2, nHost = h, nJournal = j\<rparr>)"
  proof -
    obtain j where j: "save_stages ?n (fmupd ''volume-01'' ?st fmempty) \<lparr>nAPI = w1, nHost = mem_empty, nJournal = mem_empty\<rparr>
        = (Inr (), \<lparr>nAPI = w1, nHost = mem_empty, nJournal = j\<rparr>)"
      using mem_save_stages [of "''vm-a''" _ "\<lparr>nAPI = w1, nHost = mem_empty, nJournal = mem_empty\<rparr>"] by fastforce
    have "on_host (HostStage mem_host None run_granted ''/kubelet/stage'') \<lparr>nAPI = w1, nHost = mem_empty, nJournal = j\<rparr>
        = (Inr (), \<lparr>nAPI = w1, nHost = h, nJournal = j\<rparr>)"
      by (subst on_host_run) (use h in simp_all)
    moreover have "call_api ?n None ''MarkInitialized'' run_proof \<lparr>nAPI = w1, nHost = h, nJournal = j\<rparr>
        = (Inr out, \<lparr>nAPI = w2, nHost = h, nJournal = j\<rparr>)"
      by (subst call_api_run) (use w2 in simp_all)
    ultimately show ?thesis
      using j mem_save_stages [of "''vm-a''" _ "\<lparr>nAPI = w2, nHost = h, nJournal = j\<rparr>"]
      by (fastforce simp: stage_commit_def Let_def andThen_run)
  qed
  have p: "(zero_request\<lparr>rVolumeID := ''volume-01'', rAttachmentID := ''attachment-02'', rGeneration := 1\<rparr>)
      \<lparr>rUseID := useID ''volume-01'' ''/kubelet/stage'' 1, rMode := ''mount'', rFSType := ''ext4''\<rparr> = run_proof"
    by (simp add: run_proof_def)
  have rd: "andThen (read_stages ?n) f \<lparr>nAPI = w, nHost = mem_empty, nJournal = mem_empty\<rparr>
      = f fmempty \<lparr>nAPI = w, nHost = mem_empty, nJournal = mem_empty\<rparr>" for f :: "_ \<Rightarrow> (_, fault, unit) proc"
    using mem_read_stages [of "''vm-a''" "\<lparr>nAPI = w, nHost = mem_empty, nJournal = mem_empty\<rparr>"]
    by (intro andThen_run) simp
  have aq: "andThen (call_api ?n None ''AcquireUse'' run_proof) f \<lparr>nAPI = w, nHost = mem_empty, nJournal = mem_empty\<rparr>
      = f (respond_use run_used (Some run_granted)) \<lparr>nAPI = w1, nHost = mem_empty, nJournal = mem_empty\<rparr>"
    for f :: "_ \<Rightarrow> (_, fault, unit) proc"
    by (intro andThen_run, subst call_api_run) (use w1 in simp_all)
  have "NodeStageVolume ?n (\<lambda>_. None) (\<lambda>_. LstatFile False) run_stage_request
      \<lparr>nAPI = w, nHost = mem_empty, nJournal = mem_empty\<rparr>
    = stage_commit ?n (\<lambda>_. None) ''volume-01'' ?st run_granted fmempty
      \<lparr>nAPI = w1, nHost = mem_empty, nJournal = mem_empty\<rparr>"
    by (simp add: NodeStageVolume_def step_through run_path run_capability run_attach_proof Let_def p some_entry_def
        rd aq run_granted_simps)
  then show ?thesis using commit m n1 n2 by auto
qed

section \<open>From the kubelet's mount to the cloud's disk\<close>

definition run_cluster :: "((platform + audit_entry) mem_db, disks mem_db, mounts mem_db, stages mem_db) cluster" where
  "run_cluster = \<lparr>clWorld = \<lparr>wDb = mem_empty, wCloud = cloud_db fmempty, wSteps = 0\<rparr>,
     clNodes = (\<lambda>_. \<lparr>mcHost = mem_empty, mcJournal = mem_empty\<rparr>)\<rparr>"

lemma mem_mounted_empty [simp]: "mem_mounted mem_empty = (\<lambda>_. None)"
  by (simp add: fun_eq_iff mem_mounted_def sim_mounted_at_def sim_mounts_def sim_run_simps)

lemma run_cluster_init: "cluster_init mem_bolt ex_states mem_cloud_disks mem_mounted {''vm-a''} mem_node run_cluster"
  using run_init
  by (simp add: cluster_init_def run_cluster_def run_start_def journal_def mem_node_def store_Read_def mem_bolt_def
      mem_empty_def)
    (simp add: mem_empty_def [symmetric])

lemma run_cluster_steps:
  "\<exists>g. (cluster_step mem_bolt ex_states ex_audits mem_cloud mem_mounted {''vm-a''} (ex_node ''t1'') mem_node)\<^sup>*\<^sup>* run_cluster g
     \<and> mem_mounted (mcHost (clNodes g ''vm-a'')) ''/kubelet/stage'' = Some ''volume-01'' \<and> wSteps (clWorld g) = 6"
proof -
  let ?step = "cluster_step mem_bolt ex_states ex_audits mem_cloud mem_mounted {''vm-a''} (ex_node ''t1'') mem_node"
  obtain db where out: "(other_step mem_bolt ex_states ex_audits mem_cloud {''vm-a''} ^^ 4) run_start (db, run_cloud)"
    and s: "platform_read mem_bolt ex_states db = Inr run_attached"
    using run_to_attached by blast
  define w where "w = \<lparr>wDb = db, wCloud = run_cloud, wSteps = 4\<rparr>"
  define g1 where "g1 = run_cluster\<lparr>clWorld := w\<rparr>"
  have "?step run_cluster
      (run_cluster\<lparr>clWorld := \<lparr>wDb = db, wCloud = run_cloud, wSteps = wSteps (clWorld run_cluster) + 4\<rparr>\<rparr>)"
    by (rule cluster_step.outside) (use out in \<open>simp add: run_cluster_def run_start_def\<close>)
  then have one: "?step run_cluster g1" by (simp add: g1_def w_def run_cluster_def)
  obtain w' h j where st: "NodeStageVolume (mem_node ''vm-a'') (\<lambda>_. None) (\<lambda>_. LstatFile False) run_stage_request
      \<lparr>nAPI = w, nHost = mem_empty, nJournal = mem_empty\<rparr> = (Inr (), \<lparr>nAPI = w', nHost = h, nJournal = j\<rparr>)"
    and h: "mem_mounted h ''/kubelet/stage'' = Some ''volume-01''" and n: "wSteps w' = wSteps w + 2"
    using run_stage [of w] s by (auto simp: w_def)
  define g2 where "g2 = serve_at (mem_node ''vm-a'') ''vm-a'' (\<lambda>_. None) (\<lambda>_. LstatFile False) (CallStage run_stage_request) g1"
  have two: "?step g1 g2"
    unfolding g2_def
    by (rule cluster_step.serve [of "''vm-a''" _ ex_config, OF _ _ mem_around_ok]) (simp_all add: mem_node_def)
  have "at_node g1 ''vm-a'' = \<lparr>nAPI = w, nHost = mem_empty, nJournal = mem_empty\<rparr>"
    by (simp add: at_node_def g1_def run_cluster_def)
  then have "mem_mounted (mcHost (clNodes g2 ''vm-a'')) ''/kubelet/stage'' = Some ''volume-01'' \<and> wSteps (clWorld g2) = 6"
    using st h n by (simp add: g2_def serve_at_def serve_call_def Let_def w_def)
  moreover have "?step\<^sup>*\<^sup>* run_cluster g2" using one two by (meson rtranclp.rtrancl_into_rtrancl rtranclp.rtrancl_refl)
  ultimately show ?thesis by blast
qed

text \<open>
  C1: a mounted volume belongs to its node alone. Take any number of nodes on a host and a platform
  that keep their contracts, and any run: calls of the node services in any order, failing at
  any step, with any other calls and reconcile runs around every one of their API calls,
  transactions failing, cloud answers lost, machines rebooting. Whenever a volume is mounted
  anywhere on a node, as a stage or a publication, the platform records a durable use of it by an
  attachment to that node's instance; within the range of the generation counters the cloud has its disk
  attached to that very instance, and no other node has it mounted. Nobody but the node's own
  driver releases its uses in such a run.
\<close>

theorem mounted_volume_exclusive:
  assumes "storage_provider P disks_of" and "mount_host H mounted_at" and "bolt_ok B"
    and "codec_ok cds zero_platform" and "nodes_ok H insts prin nd"
    and "cluster_init B cds disks_of mounted_at insts nd g0"
    and "(cluster_step B cds cda P mounted_at insts prin nd)\<^sup>*\<^sup>* g0 g"
    and "i \<in> insts" and "mounted_at (mcHost (clNodes g i)) path = Some vol"
  shows "(\<exists>s att a use. platform_read B cds (wDb (clWorld g)) = Inr s \<and> fmlookup (Attachments s) att = Some a
        \<and> aVolumeID a = vol \<and> aInstanceID a = i \<and> fmlookup (aUses a) use = Some True)
    \<and> (wSteps (clWorld g) \<le> 2 ^ 64 - 1 \<longrightarrow>
        (\<exists>d. disks_of (wCloud (clWorld g)) vol = Some d \<and> dInstanceID d = i)
        \<and> (\<forall>j\<in>insts. \<forall>path'. mounted_at (mcHost (clNodes g j)) path' = Some vol \<longrightarrow> j = i))"
proof -
  have nodes: "nodes P disks_of H mounted_at B cds insts prin nd"
    using assms(1-5) by (simp add: nodes_def nodes_axioms_def)
  note ok = nodes.cluster_reachable_ok [OF nodes assms(7,6)]
  note use = nodes.mounted_use [OF nodes ok assms(8,9)]
  have disk: "\<exists>d. disks_of (wCloud (clWorld g)) vol = Some d \<and> dInstanceID d = j"
    if "wSteps (clWorld g) \<le> 2 ^ 64 - 1" "j \<in> insts" "mounted_at (mcHost (clNodes g j)) p = Some vol" for j p
    using nodes.mounted_disk [OF nodes ok that] .
  show ?thesis
  proof (intro conjI impI)
    show "\<exists>s att a use. platform_read B cds (wDb (clWorld g)) = Inr s \<and> fmlookup (Attachments s) att = Some a
        \<and> aVolumeID a = vol \<and> aInstanceID a = i \<and> fmlookup (aUses a) use = Some True"
      using use unfolding use_held_def by blast
    assume few: "wSteps (clWorld g) \<le> 2 ^ 64 - 1"
    show "\<exists>d. disks_of (wCloud (clWorld g)) vol = Some d \<and> dInstanceID d = i" by (rule disk [OF few assms(8,9)])
    show "\<forall>j\<in>insts. \<forall>path'. mounted_at (mcHost (clNodes g j)) path' = Some vol \<longrightarrow> j = i"
    proof (intro ballI allI impI)
      fix j path' assume "j \<in> insts" and "mounted_at (mcHost (clNodes g j)) path' = Some vol"
      from disk [OF few this] disk [OF few assms(8,9)] show "j = i" by auto
    qed
  qed
qed

theorem mounted_volume_exclusive_witness:
  "\<exists>g. (cluster_step mem_bolt ex_states ex_audits mem_cloud mem_mounted {''vm-a''} (ex_node ''t1'') mem_node)\<^sup>*\<^sup>* run_cluster g
     \<and> mem_mounted (mcHost (clNodes g ''vm-a'')) ''/kubelet/stage'' = Some ''volume-01''
     \<and> (\<exists>d. mem_cloud_disks (wCloud (clWorld g)) ''volume-01'' = Some d \<and> dInstanceID d = ''vm-a'')"
proof -
  obtain g where g: "(cluster_step mem_bolt ex_states ex_audits mem_cloud mem_mounted {''vm-a''} (ex_node ''t1'') mem_node)\<^sup>*\<^sup>* run_cluster g"
    and m: "mem_mounted (mcHost (clNodes g ''vm-a'')) ''/kubelet/stage'' = Some ''volume-01''"
    and n: "wSteps (clWorld g) = 6"
    using run_cluster_steps by blast
  have "storage_provider mem_cloud mem_cloud_disks" and "mount_host mem_host mem_mounted"
    by (rule mem_fake.storage_provider_axioms, rule mem_mounts.mount_host_axioms)
  from mounted_volume_exclusive [OF this bolt_ok_mem codec_ok_ex_states mem_nodes_ok run_cluster_init g _ m]
  show ?thesis using g m n by auto
qed

end
