(* ===== verification/NodeResults.thy ===== *)
theory NodeResults
  imports NodeSpec
begin

text \<open>
  What the success of the node service's methods means: which checks passed, what the journal
  holds, what is mounted, and which call of the API confirmed it.
\<close>

section \<open>Steps that succeeded\<close>

lemma call_api_Inr:
  "call_api n ctx op r s = (Inr out, s') \<longleftrightarrow>
     (\<exists>a. ndAPI n ctx op r (nAPI s) = ((out, None), a) \<and> s' = s\<lparr>nAPI := a\<rparr>)"
  by (auto simp: call_api_def valued_def split: prod.splits option.splits)

lemma on_host_Inr:
  "on_host g s = (Inr u, s') \<longleftrightarrow> (\<exists>h. g (nHost s) = (None, h) \<and> s' = s\<lparr>nHost := h\<rparr>)"
  by (auto simp: on_host_def failing_def split: prod.splits option.splits)

lemma deref_Inr: "deref x s = (Inr v, s') \<longleftrightarrow> x = Some v \<and> s' = s"
  by (auto simp: deref_def give_def raise_def split: option.splits)

lemma check_path_Inr: "check_path n ls path s = (Inr u, s') \<longleftrightarrow> validPath (ndRoot n) ls path = None \<and> s' = s"
  by (auto simp: check_path_def give_def raise_def split: option.splits)

lemma read_stages_Inr:
  assumes "journal_ok n" and "read_stages n s = (Inr m, s')"
  shows "s' = s \<and> journal n (nJournal s) = Inr m"
proof -
  have "ensures (andThen (read_stages n) give)
      (\<lambda>r t. \<forall>m. r = Inr m \<longrightarrow> t = s \<and> journal n (nJournal s) = Inr m) s"
    by (rule read_stages_step [OF assms(1)]) (simp_all add: ensures_give)
  then show ?thesis using assms(2) by (simp add: andThen_give ensures_def)
qed

lemma save_stages_Inr:
  assumes "journal_ok n" and "save_stages n m s = (Inr u, s')"
  shows "\<exists>tx. s' = s\<lparr>nJournal := tx\<rparr> \<and> journal n tx = Inr m"
proof -
  have "ensures (andThen (save_stages n m) give)
      (\<lambda>r t. \<forall>u. r = Inr u \<longrightarrow> (\<exists>tx. t = s\<lparr>nJournal := tx\<rparr> \<and> journal n tx = Inr m)) s"
    by (rule save_stages_step [OF assms(1)]) (auto simp: ensures_give)
  then show ?thesis using assms(2) by (simp add: andThen_give ensures_def)
qed

lemmas node_success = andThen_Inr call_api_Inr on_host_Inr deref_Inr check_path_Inr

text \<open>Going through a method that succeeded, step by step.\<close>

lemma andThenE:
  assumes "andThen m f s = (Inr y, t)" obtains x s' where "m s = (Inr x, s')" "f x s' = (Inr y, t)"
  using assms by (auto simp: andThen_Inr)

lemma someE:
  assumes "(case x of None \<Rightarrow> raise e | Some v \<Rightarrow> f v) s = (Inr y, t)" obtains v where "x = Some v" "f v s = (Inr y, t)"
  using assms by (cases x) auto

lemma pairE:
  assumes "(case p of (a, b) \<Rightarrow> f a b) s = (Inr y, t)" obtains a b where "p = (a, b)" "f a b s = (Inr y, t)"
  using assms by (cases p) auto

lemmas went_through = andThenE someE pairE

section \<open>Unstaging\<close>

text \<open>
  C16: unstaging takes down in the right order. When \<open>NodeUnstageVolume\<close> reports success for a volume
  the journal knows, the path was its staging path, no published target was left, the path is
  unmounted and nothing else changed on the host, the durable use was released by exactly one
  call, and the entry is gone from the journal. For a volume the journal does not know it
  does nothing at all: in particular it releases no use.
\<close>

theorem node_unstage_success:
  assumes "mount_host H mounted_at" and "journal_ok n" and "ndHost n = H"
    and "NodeUnstageVolume n cx ls vol path s = (Inr (), s')"
  shows "\<exists>m. journal n (nJournal s) = Inr m \<and>
    (case fmlookup m vol of
       None \<Rightarrow> s' = s
     | Some st \<Rightarrow> path = stPath st \<and> stTargets st = fmempty
         \<and> mounted_at (nHost s') = (mounted_at (nHost s))(path := None)
         \<and> (\<exists>out. ndAPI n (cx 1) ''ReleaseUse'' (stProof st) (nAPI s) = ((out, None), nAPI s'))
         \<and> journal n (nJournal s') = Inr (fmdrop vol m))"
proof -
  obtain m where m: "journal n (nJournal s) = Inr m"
    and run: "(case fmlookup m vol of None \<Rightarrow> give () | Some st \<Rightarrow>
       andThen (require (stPath st = path) (Status CInvalidArgument ''staging path mismatch'')) (\<lambda>_.
       andThen (require (stTargets st = fmempty) (Status CFailedPrecondition ''published targets remain'')) (\<lambda>_.
       andThen (on_host (HostUnmount (ndHost n) (cx 0) (stPath st))) (\<lambda>_.
       andThen (call_api n (cx 1) ''ReleaseUse'' (stProof st)) (\<lambda>_.
       save_stages n (fmdrop vol m)))))) s = (Inr (), s')"
    using assms(4) read_stages_Inr [OF assms(2)] by (fastforce simp: NodeUnstageVolume_def node_success)
  show ?thesis
  proof (cases "fmlookup m vol")
    case None
    then show ?thesis using m run by simp
  next
    case (Some st)
    then obtain h out a where path: "stPath st = path" "stTargets st = fmempty"
      and h: "HostUnmount H (cx 0) path (nHost s) = (None, h)"
      and a: "ndAPI n (cx 1) ''ReleaseUse'' (stProof st) (nAPI s) = ((out, None), a)"
      and save: "save_stages n (fmdrop vol m) (s\<lparr>nHost := h, nAPI := a\<rparr>) = (Inr (), s')"
      using run assms(3) by (auto simp: node_success)
    have "mounted_at h = (mounted_at (nHost s))(path := None)"
      using mount_host.unmount [OF assms(1) h] by (auto simp: fun_eq_iff)
    then show ?thesis
      using m Some path a save_stages_Inr [OF assms(2) save] by auto
  qed
qed

section \<open>Publishing\<close>

text \<open>The host is touched only after the journal holds the target, wherever the method fails.\<close>

lemma publish_commit_journalled:
  assumes "journal_ok n"
  shows "ensures (publish_commit n cx r st wanted m) (\<lambda>_ t. nHost t \<noteq> nHost s \<longrightarrow> journal n (nJournal t)
      = Inr (fmupd (npVolumeId r) (st\<lparr>stTargets := fmupd (npPath r) wanted (stTargets st)\<rparr>) m)) s"
  unfolding publish_commit_def
  by (rule call_api_step, rule save_stages_step [OF assms], rule last_step, rule on_host_step) (simp_all add: ensures_give)

lemma publish_journalled:
  assumes "journal_ok n" and "NodePublishVolume n cx ls r s = (res, s')" and "nHost s' \<noteq> nHost s"
  shows "\<exists>m st. journal n (nJournal s') = Inr m \<and> fmlookup m (npVolumeId r) = Some st
    \<and> fmlookup (stTargets st) (npPath r)
      = Some \<lparr>tgReadOnly = npReadonly r, tgPodUID = field (npVolumeContext r) ''csi.storage.k8s.io/pod.uid''\<rparr>"
    (is "?tracked s'")
proof -
  have commit: "ensures (publish_commit n cx r st
      \<lparr>tgReadOnly = npReadonly r, tgPodUID = field (npVolumeContext r) ''csi.storage.k8s.io/pod.uid''\<rparr> m)
      (\<lambda>_ t. nHost t \<noteq> nHost s \<longrightarrow> ?tracked t) s" for st m
    by (rule ensures_mono [OF publish_commit_journalled [OF assms(1)]]) auto
  have "ensures (NodePublishVolume n cx ls r) (\<lambda>_ t. nHost t \<noteq> nHost s \<longrightarrow> ?tracked t) s"
    unfolding NodePublishVolume_def Let_def
    by (intro plain_steps read_stages_step [OF assms(1)] commit) (simp_all add: ensures_raise)
  then show ?thesis using assms(2,3) by (auto simp: ensures_def)
qed

text \<open>
  C15: a published volume is tracked before it is mounted. Whatever the outcome of \<open>NodePublishVolume\<close>, if it has
  touched the host at all, the journal already holds the target with the pod and the read-only flag. When it reports success,
  the volume was staged ready at the given staging path with the capability of the request and under the attachment and
  generation of its publish context, the pod's UID is valid, no other use of the target path was on record, an earlier record of
  this target was the same, the platform confirmed the use of the stage and
  audited the pod, the journal holds the target, and the volume is mounted there and nothing else has changed on the host.
\<close>

theorem node_publish_success:
  assumes "recording_host H mounted_at" and "journal_ok n" and "ndHost n = H"
    and "NodePublishVolume n cx ls r s = (res, s')"
  shows "(nHost s' \<noteq> nHost s \<longrightarrow> (\<exists>m st. journal n (nJournal s') = Inr m \<and> fmlookup m (npVolumeId r) = Some st
      \<and> fmlookup (stTargets st) (npPath r)
        = Some \<lparr>tgReadOnly = npReadonly r, tgPodUID = field (npVolumeContext r) ''csi.storage.k8s.io/pod.uid''\<rparr>))
    \<and> (res = Inr () \<longrightarrow> (\<exists>m st p pod out. journal n (nJournal s) = Inr m \<and> fmlookup m (npVolumeId r) = Some st
    \<and> stReady st \<and> stPath st = npStage r \<and> npPath r \<noteq> npStage r
    \<and> capability (npCapability r) = Inr (vMode (stVolume st), vFSType (stVolume st))
    \<and> attach_proof (npVolumeId r) (npContext r) = Inr p
    \<and> rAttachmentID (stProof st) = rAttachmentID p \<and> rGeneration (stProof st) = rGeneration p
    \<and> (\<forall>vol other. fmlookup m vol = Some other \<longrightarrow> stPath other \<noteq> npPath r
         \<and> (vol \<noteq> npVolumeId r \<longrightarrow> fmlookup (stTargets other) (npPath r) = None))
    \<and> fmlookup (npVolumeContext r) ''csi.storage.k8s.io/pod.uid'' = Some pod \<and> ValidID pod
    \<and> fmlookup (stTargets st) (npPath r) \<in> {None, Some \<lparr>tgReadOnly = npReadonly r, tgPodUID = pod\<rparr>}
    \<and> ndAPI n (cx 0) ''RecordPublish'' ((stProof st)\<lparr>rPodUID := pod,
         rPodName := field (npVolumeContext r) ''csi.storage.k8s.io/pod.name'',
         rNamespace := field (npVolumeContext r) ''csi.storage.k8s.io/pod.namespace'',
         rServiceAccount := field (npVolumeContext r) ''csi.storage.k8s.io/serviceAccount.name''\<rparr>) (nAPI s)
       = ((out, None), nAPI s')
    \<and> journal n (nJournal s') = Inr (fmupd (npVolumeId r)
         (st\<lparr>stTargets := fmupd (npPath r) \<lparr>tgReadOnly = npReadonly r, tgPodUID = pod\<rparr> (stTargets st)\<rparr>) m)
    \<and> mounted_at (nHost s') = (mounted_at (nHost s))(npPath r \<mapsto> vID (stVolume st))))"
proof (intro conjI impI)
  show "\<exists>m st. journal n (nJournal s') = Inr m \<and> fmlookup m (npVolumeId r) = Some st
      \<and> fmlookup (stTargets st) (npPath r)
        = Some \<lparr>tgReadOnly = npReadonly r, tgPodUID = field (npVolumeContext r) ''csi.storage.k8s.io/pod.uid''\<rparr>"
    if "nHost s' \<noteq> nHost s" by (rule publish_journalled [OF assms(2,4) that])
next
  assume "res = Inr ()"
  then have run: "NodePublishVolume n cx ls r s = (Inr (), s')" using assms(4) by simp
  define pod where "pod = field (npVolumeContext r) ''csi.storage.k8s.io/pod.uid''"
  define wanted where "wanted = \<lparr>tgReadOnly = npReadonly r, tgPodUID = pod\<rparr>"
  obtain m st mode fs p where m: "journal n (nJournal s) = Inr m" and st: "fmlookup m (npVolumeId r) = Some st"
    and ne: "npPath r \<noteq> npStage r" and ready: "stReady st" "stage_match st mode fs (npStage r) p"
    and cap: "capability (npCapability r) = Inr (mode, fs)" and p: "attach_proof (npVolumeId r) (npContext r) = Inr p"
    and pod: "ValidID pod" and old: "case fmlookup (stTargets st) (npPath r) of None \<Rightarrow> True | Some old \<Rightarrow> old = wanted"
    and free: "\<not> some_entry (\<lambda>id other. stPath other = npPath r
                 \<or> id \<noteq> npVolumeId r \<and> fmlookup (stTargets other) (npPath r) \<noteq> None) m"
    and commit: "publish_commit n cx r st wanted m s = (Inr (), s')"
    using run unfolding NodePublishVolume_def Let_def pod_def [symmetric] wanted_def [symmetric]
    by (elim went_through) (simp add: check_path_Inr, blast dest: read_stages_Inr [OF assms(2)])
  define req where "req = (stProof st)\<lparr>rPodUID := tgPodUID wanted,
       rPodName := field (npVolumeContext r) ''csi.storage.k8s.io/pod.name'',
       rNamespace := field (npVolumeContext r) ''csi.storage.k8s.io/pod.namespace'',
       rServiceAccount := field (npVolumeContext r) ''csi.storage.k8s.io/serviceAccount.name''\<rparr>"
  obtain out a s1 h where call: "ndAPI n (cx 0) ''RecordPublish'' req (nAPI s) = ((out, None), a)"
    and save: "save_stages n (fmupd (npVolumeId r) (st\<lparr>stTargets := fmupd (npPath r) wanted (stTargets st)\<rparr>) m)
        (s\<lparr>nAPI := a\<rparr>) = (Inr (), s1)"
    and pub: "HostPublish H (cx 1) (stVolume st) (stPath st) (npPath r) (npReadonly r) (nHost s1) = (None, h)"
    and s': "s' = s1\<lparr>nHost := h\<rparr>"
    using commit assms(3) by (auto simp: publish_commit_def node_success req_def)
  obtain tx where tx: "s1 = s\<lparr>nAPI := a, nJournal := tx\<rparr>"
    "journal n tx = Inr (fmupd (npVolumeId r) (st\<lparr>stTargets := fmupd (npPath r) wanted (stTargets st)\<rparr>) m)"
    using save_stages_Inr [OF assms(2) save] by auto
  have host: "mount_host H mounted_at" using assms(1) by (rule recording_host.axioms(1))
  have "mounted_at h = (mounted_at (nHost s))(npPath r \<mapsto> vID (stVolume st))"
    using mount_host.publish [OF host pub] recording_host.publish_mounted [OF assms(1) pub] tx(1)
    by (auto simp: may_mount_def fun_eq_iff)
  moreover have "fmlookup (npVolumeContext r) ''csi.storage.k8s.io/pod.uid'' = Some pod"
    using pod ValidID_nonempty [of pod] by (auto simp: pod_def field_def split: option.splits)
  moreover have "stPath st = npStage r" "capability (npCapability r) = Inr (vMode (stVolume st), vFSType (stVolume st))"
    "rAttachmentID (stProof st) = rAttachmentID p" "rGeneration (stProof st) = rGeneration p"
    using ready(2) cap by (simp_all add: stage_match_def)
  moreover have "fmlookup (stTargets st) (npPath r) \<in> {None, Some wanted}" using old by (simp split: option.splits)
  moreover have "stPath other \<noteq> npPath r \<and> (vol \<noteq> npVolumeId r \<longrightarrow> fmlookup (stTargets other) (npPath r) = None)"
    if "fmlookup m vol = Some other" for vol other
    using free that by (auto simp: some_entry_def fmpred_iff)
  moreover have "ndAPI n (cx 0) ''RecordPublish'' ((stProof st)\<lparr>rPodUID := pod,
         rPodName := field (npVolumeContext r) ''csi.storage.k8s.io/pod.name'',
         rNamespace := field (npVolumeContext r) ''csi.storage.k8s.io/pod.namespace'',
         rServiceAccount := field (npVolumeContext r) ''csi.storage.k8s.io/serviceAccount.name''\<rparr>) (nAPI s)
       = ((out, None), nAPI s')"
    using call tx(1) s' by (simp add: req_def wanted_def)
  ultimately show "\<exists>m st p pod out. journal n (nJournal s) = Inr m \<and> fmlookup m (npVolumeId r) = Some st
    \<and> stReady st \<and> stPath st = npStage r \<and> npPath r \<noteq> npStage r
    \<and> capability (npCapability r) = Inr (vMode (stVolume st), vFSType (stVolume st))
    \<and> attach_proof (npVolumeId r) (npContext r) = Inr p
    \<and> rAttachmentID (stProof st) = rAttachmentID p \<and> rGeneration (stProof st) = rGeneration p
    \<and> (\<forall>vol other. fmlookup m vol = Some other \<longrightarrow> stPath other \<noteq> npPath r
         \<and> (vol \<noteq> npVolumeId r \<longrightarrow> fmlookup (stTargets other) (npPath r) = None))
    \<and> fmlookup (npVolumeContext r) ''csi.storage.k8s.io/pod.uid'' = Some pod \<and> ValidID pod
    \<and> fmlookup (stTargets st) (npPath r) \<in> {None, Some \<lparr>tgReadOnly = npReadonly r, tgPodUID = pod\<rparr>}
    \<and> ndAPI n (cx 0) ''RecordPublish'' ((stProof st)\<lparr>rPodUID := pod,
         rPodName := field (npVolumeContext r) ''csi.storage.k8s.io/pod.name'',
         rNamespace := field (npVolumeContext r) ''csi.storage.k8s.io/pod.namespace'',
         rServiceAccount := field (npVolumeContext r) ''csi.storage.k8s.io/serviceAccount.name''\<rparr>) (nAPI s)
       = ((out, None), nAPI s')
    \<and> journal n (nJournal s') = Inr (fmupd (npVolumeId r)
         (st\<lparr>stTargets := fmupd (npPath r) \<lparr>tgReadOnly = npReadonly r, tgPodUID = pod\<rparr> (stTargets st)\<rparr>) m)
    \<and> mounted_at (nHost s') = (mounted_at (nHost s))(npPath r \<mapsto> vID (stVolume st))"
    by (intro exI [of _ m] exI [of _ st] exI [of _ p] exI [of _ pod] exI [of _ out] conjI)
      (use m st ready(1) ne pod p tx s' in \<open>simp_all add: wanted_def\<close>)
qed

section \<open>Staging\<close>

text \<open>
  C10: a staged volume is authorised, recorded, mounted, and never formatted again. When
  \<open>NodeStageVolume\<close> reports success, the platform granted a durable use for exactly the proof in the
  publish context, with a use name derived from volume, path and generation, and the capability
  agrees with the volume the platform returned; no other volume owns the path; that volume is
  mounted at the path; the platform was told that it is initialised; and the journal has the
  entry, ready, without the permission to format, with the proof and the targets of an earlier
  entry of the same configuration if there was one.
\<close>

theorem node_stage_success:
  assumes "recording_host H mounted_at" and "journal_ok n" and "ndHost n = H"
    and "NodeStageVolume n cx ls r s = (Inr (), s')"
  shows "\<exists>m p q v out a out' st. journal n (nJournal s) = Inr m
    \<and> attach_proof (srVolumeId r) (srContext r) = Inr p
    \<and> q = p\<lparr>rUseID := useID (srVolumeId r) (srPath r) (rGeneration p), rMode := vMode v, rFSType := vFSType v\<rparr>
    \<and> capability (srCapability r) = Inr (vMode v, vFSType v)
    \<and> ndAPI n (cx 0) ''AcquireUse'' q (nAPI s) = ((out, None), a) \<and> oVolume out = Some v
    \<and> ndAPI n (cx 2) ''MarkInitialized'' (stProof st) a = ((out', None), nAPI s')
    \<and> (case fmlookup m (srVolumeId r) of
         None \<Rightarrow> stProof st = q \<and> stTargets st = fmempty
       | Some old \<Rightarrow> stProof st = stProof old \<and> stTargets st = stTargets old
           \<and> stage_match old (vMode v) (vFSType v) (srPath r) q)
    \<and> stPath st = srPath r \<and> stReady st \<and> stVolume st = v\<lparr>vAllowFormat := False\<rparr>
    \<and> journal n (nJournal s') = Inr (fmupd (srVolumeId r) st m)
    \<and> (\<forall>vol other. fmlookup m vol = Some other \<longrightarrow> vol \<noteq> srVolumeId r \<longrightarrow> stPath other \<noteq> srPath r)
    \<and> mounted_at (nHost s') = (mounted_at (nHost s))(srPath r \<mapsto> vID v)"
proof -
  obtain mode fs p m t out s0 v where capab: "capability (srCapability r) = Inr (mode, fs)"
    and p: "attach_proof (srVolumeId r) (srContext r) = Inr p" and read: "read_stages n s = (Inr m, t)"
    and old: "case fmlookup m (srVolumeId r) of None \<Rightarrow> True | Some st0 \<Rightarrow> stage_match st0 mode fs (srPath r)
      (p\<lparr>rUseID := useID (srVolumeId r) (srPath r) (rGeneration p), rMode := mode, rFSType := fs\<rparr>)"
    and free: "\<not> some_entry (\<lambda>id other. id \<noteq> srVolumeId r
                 \<and> (stPath other = srPath r \<or> target_pod other (srPath r) \<noteq> '''')) m"
    and acquire: "call_api n (cx 0) ''AcquireUse''
      (p\<lparr>rUseID := useID (srVolumeId r) (srPath r) (rGeneration p), rMode := mode, rFSType := fs\<rparr>) t = (Inr out, s0)"
    and v: "oVolume out = Some v" and fit: "vMode v = mode" "vFSType v = fs"
    and commit: "stage_commit n cx (srVolumeId r) (case fmlookup m (srVolumeId r) of
        None \<Rightarrow> \<lparr>stVolume = v, stProof = p\<lparr>rUseID := useID (srVolumeId r) (srPath r) (rGeneration p), rMode := mode,
          rFSType := fs\<rparr>, stPath = srPath r, stReady = False, stTargets = fmempty\<rparr>
      | Some s \<Rightarrow> s) v m s0 = (Inr (), s')"
    using assms(4) unfolding NodeStageVolume_def Let_def
    by (elim went_through) (simp only: pure_result_Inr require_Inr check_path_Inr deref_Inr prod.inject; blast)
  define q where "q = p\<lparr>rUseID := useID (srVolumeId r) (srPath r) (rGeneration p), rMode := mode, rFSType := fs\<rparr>"
  note m' = read_stages_Inr [OF assms(2) read]
  then have m: "journal n (nJournal s) = Inr m" by simp
  obtain a where a: "ndAPI n (cx 0) ''AcquireUse'' q (nAPI s) = ((out, None), a)" and s0: "s0 = s\<lparr>nAPI := a\<rparr>"
    using acquire m' unfolding q_def [symmetric] call_api_Inr by auto
  note old = old [folded q_def] and commit = commit [folded q_def, unfolded s0]
  define st0 where "st0 = (case fmlookup m (srVolumeId r) of
        None \<Rightarrow> \<lparr>stVolume = v, stProof = q, stPath = srPath r, stReady = False, stTargets = fmempty\<rparr>
      | Some s \<Rightarrow> s)"
  have path: "stPath st0 = srPath r"
    using old by (auto simp: st0_def stage_match_def split: option.splits)
  define st where "st = st0\<lparr>stVolume := v\<lparr>vAllowFormat := False\<rparr>, stReady := True\<rparr>"
  obtain s1 h out' b where save1: "save_stages n (fmupd (srVolumeId r) (st0\<lparr>stVolume := v\<rparr>) m) (s\<lparr>nAPI := a\<rparr>) = (Inr (), s1)"
    and host: "HostStage H (cx 1) v (srPath r) (nHost s1) = (None, h)"
    and mark: "ndAPI n (cx 2) ''MarkInitialized'' (stProof st0) (nAPI s1) = ((out', None), b)"
    and save2: "save_stages n (fmupd (srVolumeId r) st m) (s1\<lparr>nHost := h, nAPI := b\<rparr>) = (Inr (), s')"
    using commit unfolding stage_commit_def Let_def st0_def [symmetric]
    by (elim went_through) (auto simp: call_api_Inr on_host_Inr assms(3) path st_def)
  have s1: "nAPI s1 = a" "nHost s1 = nHost s" using save_stages_Inr [OF assms(2) save1] by auto
  have s': "nAPI s' = b" "nHost s' = h" "journal n (nJournal s') = Inr (fmupd (srVolumeId r) st m)"
    using save_stages_Inr [OF assms(2) save2] by auto
  have mnt: "mounted_at h = (mounted_at (nHost s))(srPath r \<mapsto> vID v)"
    using mount_host.stage [OF recording_host.axioms(1) [OF assms(1)] host]
      recording_host.stage_mounted [OF assms(1) host] s1 by (auto simp: may_mount_def fun_eq_iff)
  have others: "\<forall>vol other. fmlookup m vol = Some other \<longrightarrow> vol \<noteq> srVolumeId r \<longrightarrow> stPath other \<noteq> srPath r"
    using free by (auto simp: some_entry_def fmpred_iff)
  have entry: "stProof st = stProof st0" "stPath st = srPath r" "stReady st" "stVolume st = v\<lparr>vAllowFormat := False\<rparr>"
    "stTargets st = stTargets st0"
    by (simp_all add: st_def path)
  have kept: "case fmlookup m (srVolumeId r) of
         None \<Rightarrow> stProof st = q \<and> stTargets st = fmempty
       | Some old \<Rightarrow> stProof st = stProof old \<and> stTargets st = stTargets old
           \<and> stage_match old (vMode v) (vFSType v) (srPath r) q"
    using old entry fit by (auto simp: st0_def split: option.splits)
  have q: "q = p\<lparr>rUseID := useID (srVolumeId r) (srPath r) (rGeneration p), rMode := vMode v, rFSType := vFSType v\<rparr>"
    by (simp add: q_def fit)
  have capab': "capability (srCapability r) = Inr (vMode v, vFSType v)" by (simp add: capab fit)
  have mark': "ndAPI n (cx 2) ''MarkInitialized'' (stProof st) a = ((out', None), nAPI s')"
    by (simp add: mark entry(1) s'(1) flip: s1(1))
  have mnt': "mounted_at (nHost s') = (mounted_at (nHost s))(srPath r \<mapsto> vID v)" by (simp add: mnt s'(2))
  show ?thesis
    by (rule exI [of _ m], rule exI [of _ p], rule exI [of _ q], rule exI [of _ v], rule exI [of _ out],
        rule exI [of _ a], rule exI [of _ out'], rule exI [of _ st], intro conjI)
      (fact m p q capab' a v mark' kept entry s'(3) others mnt')+
qed

section \<open>Any call, any failure\<close>

text \<open>
  C14: the node's invariant. Over any API that keeps the contract of durable uses and any host that keeps the
  contract of mounts, every call of the node service, whatever its request, at whatever step it fails and whether it succeeds, keeps
  this: the journal can be read, every entry belongs to its volume and carries the use named after volume, path
  and generation, and every mounted path is the stage or a target of an entry of the volume mounted there whose durable use is held.
\<close>

theorem node_rpc_invariant:
  assumes "use_service C ok holds" and "mount_host H mounted_at" and "ndAPI n = C" and "ndHost n = H" and "journal_ok n"
    and "journal n (nJournal s) = Inr m" and "ok (nAPI s)"
    and "\<forall>vol st. fmlookup m vol = Some st \<longrightarrow> vID (stVolume st) = vol \<and> rVolumeID (stProof st) = vol
           \<and> rUseID (stProof st) = useID vol (stPath st) (rGeneration (stProof st))"
    and "\<forall>path vol. mounted_at (nHost s) path = Some vol \<longrightarrow> (\<exists>st. fmlookup m vol = Some st
           \<and> (path = stPath st \<or> fmlookup (stTargets st) path \<noteq> None)
           \<and> holds (nAPI s) vol (rAttachmentID (stProof st)) (rUseID (stProof st)))"
    and "serve_call n cx ls call s = s'"
  shows "\<exists>m'. journal n (nJournal s') = Inr m' \<and> ok (nAPI s')
    \<and> (\<forall>vol st. fmlookup m' vol = Some st \<longrightarrow> vID (stVolume st) = vol \<and> rVolumeID (stProof st) = vol
         \<and> rUseID (stProof st) = useID vol (stPath st) (rGeneration (stProof st)))
    \<and> (\<forall>path vol. mounted_at (nHost s') path = Some vol \<longrightarrow> (\<exists>st. fmlookup m' vol = Some st
         \<and> (path = stPath st \<or> fmlookup (stTargets st) path \<noteq> None)
         \<and> holds (nAPI s') vol (rAttachmentID (stProof st)) (rUseID (stProof st))))"
proof -
  have nd: "node_driver C ok holds H mounted_at n"
    using assms(1-5) by (simp add: node_driver_def node_driver_axioms_def)
  have "node_ok n ok holds mounted_at s"
    using assms(6-9) unfolding node_ok_def node_inv_def stage_ok_def tracks_def by (intro exI [of _ m]) simp
  from node_driver.serve_call_okay [OF nd this, of cx ls call] show ?thesis
    unfolding assms(10) node_ok_def node_inv_def stage_ok_def tracks_def by (simp add: conj_assoc)
qed

section \<open>Instances\<close>

theorem node_stage_success_witness:
  "\<exists>w s' m st. NodeStageVolume (mem_node ''vm-a'') (\<lambda>_. None) (\<lambda>_. LstatFile False) run_stage_request
      \<lparr>nAPI = w, nHost = mem_empty, nJournal = mem_empty\<rparr> = (Inr (), s')
    \<and> journal (mem_node ''vm-a'') (nJournal s') = Inr (fmupd ''volume-01'' st m)
    \<and> stReady st \<and> stPath st = ''/kubelet/stage'' \<and> mem_mounted (nHost s') ''/kubelet/stage'' \<noteq> None"
proof -
  obtain db where "platform_read mem_bolt ex_states db = Inr run_attached"
    using run_to_attached by blast
  then obtain w s' where run: "NodeStageVolume (mem_node ''vm-a'') (\<lambda>_. None) (\<lambda>_. LstatFile False) run_stage_request
      \<lparr>nAPI = w, nHost = mem_empty, nJournal = mem_empty\<rparr> = (Inr (), s')"
    using run_stage [of "\<lparr>wDb = db, wCloud = run_cloud, wSteps = 4\<rparr>"] by auto
  have "ndHost (mem_node ''vm-a'') = mem_host" by simp
  from node_stage_success [OF mem_mounts.recording_host_axioms mem_journal_ok this run]
  obtain m and st :: stage and v :: volume where "journal (mem_node ''vm-a'') (nJournal s') = Inr (fmupd (srVolumeId run_stage_request) st m)"
    and "stReady st" and "stPath st = srPath run_stage_request"
    and "mem_mounted (nHost s') = (mem_mounted (nHost
       \<lparr>nAPI = w, nHost = mem_empty, nJournal = mem_empty :: stages mem_db\<rparr>))
      (srPath run_stage_request \<mapsto> vID v)"
    by (elim exE conjE) (rule that)
  with run show ?thesis by (intro exI [of _ w] exI [of _ s'] exI [of _ m] exI [of _ st]) simp
qed

text \<open>A node on the simulated host over an API that agrees to everything, with one ready stage.\<close>

definition agreeing :: "unit caller" where
  "agreeing = (\<lambda>ctx op r a. ((zero_response, None), a))"

definition calm_node :: "(unit, mounts mem_db, stages mem_db, stages) node" where
  "calm_node = \<lparr>ndAPI = agreeing, ndHost = mem_host, ndBolt = mem_bolt, ndCodec = mem_codec (\<lambda>m. m) Some,
     ndUpdate = mem_update, ndView = mem_view, ndRoot = ''/kubelet'', ndInstance = ex_instance ''vm-a'' ''t1''\<rparr>"

definition calm_stage :: stage where
  "calm_stage = \<lparr>stVolume = run_granted, stProof = run_proof, stPath = ''/kubelet/stage'', stReady = True, stTargets = fmempty\<rparr>"

definition calm_journal :: "stages mem_db" where
  "calm_journal = mem_empty\<lparr>mem_entries := fmupd (''state'', ''stages'') (fmupd ''volume-01'' calm_stage fmempty) fmempty\<rparr>"

definition calm_state :: "(unit, mounts mem_db, stages mem_db) node_state" where
  "calm_state = \<lparr>nAPI = (), nHost = snd (HostStage mem_host None run_granted ''/kubelet/stage'' mem_empty),
     nJournal = calm_journal\<rparr>"

lemma calm_journal_ok: "journal_ok calm_node"
  by (simp add: journal_ok_def calm_node_def bolt_ok_mem codec_ok_mem atomic_update_mem atomic_view_mem)

lemma calm_node_simps [simp]: "ndAPI calm_node = agreeing" "ndHost calm_node = mem_host" "ndRoot calm_node = ''/kubelet''"
  by (simp_all add: calm_node_def)

lemma calm_read: "read_stages calm_node calm_state = (Inr (fmupd ''volume-01'' calm_stage fmempty), calm_state)"
  by (simp add: read_stages_def reading_def calm_node_def mem_view_def store_Read_def mem_bolt_def mem_codec_def
      calm_state_def calm_journal_def)

lemma calm_save: "\<exists>j. save_stages calm_node m s = (Inr (), s\<lparr>nJournal := j\<rparr>)"
  by (auto simp: save_stages_def failing_def calm_node_def mem_update_def store_Write_def mem_bolt_def mem_codec_def)

lemma calm_call: "call_api calm_node ctx op r s = (Inr zero_response, s)"
  by (simp add: call_api_def valued_def agreeing_def)

lemma calm_unmount: "\<exists>h. HostUnmount mem_host None ''/kubelet/stage'' (nHost calm_state) = (None, h)"
  by (simp add: calm_state_def sim_run_simps run_defs zero_volume_def zero_request_def Let_def)

lemma calm_publish: "\<exists>h. HostPublish mem_host None run_granted ''/kubelet/stage'' ''/kubelet/pod'' True (nHost calm_state) = (None, h)"
  by (simp add: calm_state_def sim_run_simps run_defs zero_volume_def zero_request_def Let_def)

theorem node_unstage_success_witness:
  "\<exists>s'. NodeUnstageVolume calm_node (\<lambda>_. None) (\<lambda>_. LstatFile False) ''volume-01'' ''/kubelet/stage'' calm_state = (Inr (), s')
     \<and> mem_mounted (nHost s') ''/kubelet/stage'' = None \<and> journal calm_node (nJournal s') = Inr fmempty"
proof -
  obtain h where h: "HostUnmount mem_host None ''/kubelet/stage'' (nHost calm_state) = (None, h)"
    using calm_unmount by blast
  have rd: "andThen (read_stages calm_node) f calm_state = f (fmupd ''volume-01'' calm_stage fmempty) calm_state"
    for f :: "_ \<Rightarrow> (_, fault, unit) proc"
    by (intro andThen_run calm_read)
  have un: "andThen (on_host (HostUnmount mem_host None ''/kubelet/stage'')) f calm_state = f () (calm_state\<lparr>nHost := h\<rparr>)"
    for f :: "unit \<Rightarrow> (_, fault, unit) proc"
    by (intro andThen_run) (simp add: on_host_def failing_def h)
  have cl: "andThen (call_api calm_node ctx op r) f s = f zero_response s" for ctx op r s and f :: "_ \<Rightarrow> (_, fault, unit) proc"
    by (intro andThen_run calm_call)
  obtain j where "save_stages calm_node (fmdrop ''volume-01'' (fmupd ''volume-01'' calm_stage fmempty)) (calm_state\<lparr>nHost := h\<rparr>)
      = (Inr (), calm_state\<lparr>nHost := h, nJournal := j\<rparr>)"
    using calm_save [of _ "calm_state\<lparr>nHost := h\<rparr>"] by fastforce
  then have run: "NodeUnstageVolume calm_node (\<lambda>_. None) (\<lambda>_. LstatFile False) ''volume-01'' ''/kubelet/stage'' calm_state
      = (Inr (), calm_state\<lparr>nHost := h, nJournal := j\<rparr>)"
    by (simp add: NodeUnstageVolume_def step_through run_path rd un cl) (simp add: calm_stage_def step_through un cl)
  have m: "journal calm_node (nJournal calm_state) = Inr (fmupd ''volume-01'' calm_stage fmempty)"
    using read_stages_Inr [OF calm_journal_ok calm_read] by simp
  have "fmdrop ''volume-01'' (fmupd ''volume-01'' calm_stage fmempty) = fmempty" by (rule fmap_ext) simp
  with node_unstage_success [OF mem_mounts.mount_host_axioms calm_journal_ok _ run] m run
  show ?thesis by auto
qed

definition calm_publish_request :: node_publish_request where
  "calm_publish_request = \<lparr>npVolumeId = ''volume-01'', npPath = ''/kubelet/pod'', npStage = ''/kubelet/stage'',
     npCapability = srCapability run_stage_request, npContext = run_publish_context, npReadonly = True,
     npVolumeContext = fmupd ''csi.storage.k8s.io/pod.uid'' ''pod-01'' fmempty\<rparr>"

lemma calm_publish_request_simps [simp]:
  "npVolumeId calm_publish_request = ''volume-01''" "npPath calm_publish_request = ''/kubelet/pod''"
  "npStage calm_publish_request = ''/kubelet/stage''" "npContext calm_publish_request = run_publish_context"
  "npCapability calm_publish_request = srCapability run_stage_request" "npReadonly calm_publish_request = True"
  "field (npVolumeContext calm_publish_request) ''csi.storage.k8s.io/pod.uid'' = ''pod-01''"
  by (simp_all add: calm_publish_request_def field_def)

lemma calm_stage_simps:
  "stReady calm_stage" "stPath calm_stage = ''/kubelet/stage''" "stTargets calm_stage = fmempty"
  "stage_match calm_stage ''mount'' ''ext4'' ''/kubelet/stage''
     (zero_request\<lparr>rVolumeID := ''volume-01'', rAttachmentID := ''attachment-02'', rGeneration := 1\<rparr>)"
  by (simp_all add: calm_stage_def stage_match_def run_granted_simps)

lemma calm_pod_valid: "ValidID ''pod-01''"
  by (simp add: ValidID_def id_first_char_def id_rest_char_def less_eq_char_def)

lemma calm_publish_path: "validPath ''/kubelet'' (\<lambda>_. LstatFile False) ''/kubelet/pod'' = None"
proof -
  have "\<exists>rs cs. list_all proper (rs @ cs) \<and> rs \<noteq> [] \<and> cs \<noteq> [] \<and> Clean ''/kubelet'' = abs_path rs
      \<and> ''/kubelet/pod'' = abs_path (rs @ cs)"
    by (rule exI [of _ "[''kubelet'']"], rule exI [of _ "[''pod'']"])
      (use demo_root in \<open>simp add: abs_path_def proper_def\<close>)
  then show ?thesis by (simp add: validPath_accepts)
qed

theorem node_publish_success_witness:
  "\<exists>s'. NodePublishVolume calm_node (\<lambda>_. None) (\<lambda>_. LstatFile False) calm_publish_request calm_state = (Inr (), s')
     \<and> mem_mounted (nHost s') ''/kubelet/pod'' = Some ''volume-01''"
proof -
  let ?r = calm_publish_request
  have rd: "andThen (read_stages calm_node) f calm_state = f (fmupd ''volume-01'' calm_stage fmempty) calm_state"
    for f :: "_ \<Rightarrow> (_, fault, unit) proc"
    by (intro andThen_run calm_read)
  have cl: "andThen (call_api calm_node ctx op r) f s = f zero_response s" for ctx op r s and f :: "_ \<Rightarrow> (_, fault, unit) proc"
    by (intro andThen_run calm_call)
  obtain h where h: "HostPublish mem_host None run_granted ''/kubelet/stage'' ''/kubelet/pod'' True (nHost calm_state) = (None, h)"
    using calm_publish by blast
  have commit: "\<exists>s'. publish_commit calm_node (\<lambda>_. None) ?r calm_stage w m calm_state = (Inr (), s')" for w m
  proof -
    let ?m = "fmupd (npVolumeId ?r) (calm_stage\<lparr>stTargets := fmupd (npPath ?r) w (stTargets calm_stage)\<rparr>) m"
    obtain j where j: "save_stages calm_node ?m calm_state = (Inr (), calm_state\<lparr>nJournal := j\<rparr>)"
      using calm_save by blast
    have "andThen (save_stages calm_node ?m) f calm_state = f () (calm_state\<lparr>nJournal := j\<rparr>)"
      for f :: "unit \<Rightarrow> (_, fault, unit) proc"
      using j by (intro andThen_run)
    moreover have "on_host (HostPublish mem_host None run_granted ''/kubelet/stage'' ''/kubelet/pod'' True) (calm_state\<lparr>nJournal := j\<rparr>)
        = (Inr (), calm_state\<lparr>nJournal := j, nHost := h\<rparr>)"
      by (subst on_host_run) (use h in simp_all)
    ultimately show ?thesis
      by (simp add: publish_commit_def Let_def cl) (simp add: calm_stage_def calm_publish_request_def)
  qed
  have free: "fmpred (\<lambda>k v. stPath v \<noteq> ''/kubelet/pod'' \<and> (k = ''volume-01'' \<or> fmlookup (stTargets v) ''/kubelet/pod'' = None))
      (fmupd ''volume-01'' calm_stage fmempty)"
    by (simp add: fmpred_iff calm_stage_simps)
  have "\<exists>s'. NodePublishVolume calm_node (\<lambda>_. None) (\<lambda>_. LstatFile False) ?r calm_state = (Inr (), s')"
    using commit free
    by (simp add: NodePublishVolume_def Let_def step_through run_path calm_publish_path run_capability run_attach_proof rd
        calm_stage_simps calm_pod_valid some_entry_def)
  then obtain s' where run: "NodePublishVolume calm_node (\<lambda>_. None) (\<lambda>_. LstatFile False) ?r calm_state = (Inr (), s')"
    by blast
  have "ndHost calm_node = mem_host" by simp
  from node_publish_success [OF mem_mounts.recording_host_axioms calm_journal_ok this run, THEN conjunct2, THEN mp, OF refl]
  obtain m and st :: stage where "journal calm_node (nJournal calm_state) = Inr m" "fmlookup m (npVolumeId ?r) = Some st"
    "mem_mounted (nHost s') = (mem_mounted (nHost calm_state))(npPath ?r \<mapsto> vID (stVolume st))"
    by (elim exE conjE) (rule that)
  moreover have "journal calm_node (nJournal calm_state) = Inr (fmupd ''volume-01'' calm_stage fmempty)"
    using read_stages_Inr [OF calm_journal_ok calm_read] by simp
  ultimately show ?thesis
    using run by (auto simp: calm_publish_request_def calm_stage_def run_granted_simps)
qed

text \<open>
  The node stages a volume, then takes a second call: at the second call the journal has an entry, a path is mounted
  and its use is held, so both parts of the invariant are exercised.
\<close>

theorem node_rpc_invariant_witness:
  "\<exists>s1 s2 m1 m2 st. mem_mounted (nHost s1) ''/kubelet/stage'' = Some ''volume-01''
     \<and> journal (mem_node ''vm-a'') (nJournal s1) = Inr m1 \<and> fmlookup m1 ''volume-01'' = Some st
     \<and> world_holds mem_bolt ex_states ''vm-a'' (nAPI s1) ''volume-01'' (rAttachmentID (stProof st)) (rUseID (stProof st))
     \<and> s2 = serve_call (mem_node ''vm-a'') (\<lambda>_. None) (\<lambda>_. LstatFile False) (CallUnstage ''volume-01'' ''/kubelet/stage'') s1
     \<and> journal (mem_node ''vm-a'') (nJournal s2) = Inr m2 \<and> world_ok mem_bolt ex_states mem_cloud_disks (nAPI s2)
     \<and> (\<forall>path vol. mem_mounted (nHost s2) path = Some vol \<longrightarrow> fmlookup m2 vol \<noteq> None)"
proof -
  let ?n = "mem_node ''vm-a''"
  obtain db where out: "(drawn_step mem_bolt ex_states ex_audits mem_cloud {} ^^ 4) run_start (db, run_cloud)"
    and at: "platform_read mem_bolt ex_states db = Inr run_attached"
    using run_drawn by blast
  define w where "w = \<lparr>wDb = db, wCloud = run_cloud, wSteps = 4\<rparr>"
  have w: "world_ok mem_bolt ex_states mem_cloud_disks w"
    using mem_fake.world_at_drawn [OF bolt_ok_mem codec_ok_ex_states run_init out] by (simp add: world_ok_def w_def)
  define s0 where "s0 = \<lparr>nAPI = w, nHost = mem_empty :: mounts mem_db, nJournal = mem_empty :: stages mem_db\<rparr>"
  define s1 where "s1 = serve_call ?n (\<lambda>_. None) (\<lambda>_. LstatFile False) (CallStage run_stage_request) s0"
  define s2 where "s2 = serve_call ?n (\<lambda>_. None) (\<lambda>_. LstatFile False) (CallUnstage ''volume-01'' ''/kubelet/stage'') s1"
  have "read_stages ?n s0 = (Inr fmempty, s0)" using mem_read_stages [of "''vm-a''" s0] by (simp add: s0_def)
  then have j0: "journal ?n (nJournal s0) = Inr fmempty" using read_stages_Inr [OF mem_journal_ok] by blast
  have who: "pInstanceID (ex_node ''t1'' ''vm-a'') = ''vm-a''" by (simp add: ex_node_def)
  note uses = mem_local.uses [unfolded who]
  note step = node_rpc_invariant [OF uses mem_mounts.mount_host_axioms _ _ mem_journal_ok]
  obtain m1 where m1: "journal ?n (nJournal s1) = Inr m1" "world_ok mem_bolt ex_states mem_cloud_disks (nAPI s1)"
    and named: "\<forall>vol st. fmlookup m1 vol = Some st \<longrightarrow> vID (stVolume st) = vol \<and> rVolumeID (stProof st) = vol
        \<and> rUseID (stProof st) = useID vol (stPath st) (rGeneration (stProof st))"
    and held: "\<forall>path vol. mem_mounted (nHost s1) path = Some vol \<longrightarrow> (\<exists>st. fmlookup m1 vol = Some st
        \<and> (path = stPath st \<or> fmlookup (stTargets st) path \<noteq> None)
        \<and> world_holds mem_bolt ex_states ''vm-a'' (nAPI s1) vol (rAttachmentID (stProof st)) (rUseID (stProof st)))"
    using step [OF _ _ j0 _ _ _ s1_def [symmetric]] w by (auto simp: s0_def)
  have mounted: "mem_mounted (nHost s1) ''/kubelet/stage'' = Some ''volume-01''"
    using run_stage [of w] at by (auto simp: s1_def s0_def serve_call_def w_def)
  from held [rule_format, OF this] obtain st where st: "fmlookup m1 ''volume-01'' = Some st"
    "world_holds mem_bolt ex_states ''vm-a'' (nAPI s1) ''volume-01'' (rAttachmentID (stProof st)) (rUseID (stProof st))" by blast
  obtain m2 where "journal ?n (nJournal s2) = Inr m2" "world_ok mem_bolt ex_states mem_cloud_disks (nAPI s2)"
    "\<forall>path vol. mem_mounted (nHost s2) path = Some vol \<longrightarrow> (\<exists>st. fmlookup m2 vol = Some st
        \<and> (path = stPath st \<or> fmlookup (stTargets st) path \<noteq> None)
        \<and> world_holds mem_bolt ex_states ''vm-a'' (nAPI s2) vol (rAttachmentID (stProof st)) (rUseID (stProof st)))"
    using step [OF _ _ m1 named held s2_def [symmetric]] by auto
  then show ?thesis using mounted m1(1) st s2_def
    by (intro exI [of _ s1] exI [of _ s2] exI [of _ m1] exI [of _ m2] exI [of _ st]) (simp, blast)
qed

end
