(* ===== verification/ControllerSpec.thy ===== *)
theory ControllerSpec
  imports NodeResults
begin

text \<open>
  The controller driver over the interface \<open>storage_api\<close>, on the platform behind
  \<open>testkit.Local\<close>, and together with the node driver: what a CSI request turns into, that no answer of
  the platform crashes a driver, and that what the controller publishes is what the node needs.
\<close>

section \<open>One call of a service\<close>

datatype controller_call =
    AskCreate "string list" create_volume_request
  | AskDelete string
  | AskPublish publish_request
  | AskUnpublish string string
  | AskValidate validate_request
  | AskExpand string "capacity_range option"

definition no_answer :: "('s, 'e, 'x) proc \<Rightarrow> ('s, 'e, unit) proc" where
  "no_answer m = andThen m (\<lambda>_. give ())"

definition serve_controller ::
  "'a controller \<Rightarrow> (nat \<Rightarrow> ctx) \<Rightarrow> controller_call \<Rightarrow> ('a, fault, unit) proc" where
  "serve_controller c cx call =
     (case call of
        AskCreate ks r \<Rightarrow> no_answer (CreateVolume c cx ks r)
      | AskDelete vol \<Rightarrow> DeleteVolume c cx vol
      | AskPublish r \<Rightarrow> no_answer (ControllerPublishVolume c cx r)
      | AskUnpublish vol i \<Rightarrow> ControllerUnpublishVolume c cx vol i
      | AskValidate r \<Rightarrow> no_answer (ValidateVolumeCapabilities c cx r)
      | AskExpand vol cr \<Rightarrow> no_answer (ControllerExpandVolume c cx vol cr))"

definition serve_node ::
  "('a, 'h, 'tx, 'b) node \<Rightarrow> (nat \<Rightarrow> ctx) \<Rightarrow> (string \<Rightarrow> lstat) \<Rightarrow> node_call \<Rightarrow> ('a, 'h, 'tx, unit) rpc" where
  "serve_node n cx ls call =
     (case call of
        CallStage r \<Rightarrow> NodeStageVolume n cx ls r
      | CallPublish r \<Rightarrow> NodePublishVolume n cx ls r
      | CallUnpublish vol path \<Rightarrow> NodeUnpublishVolume n cx ls vol path
      | CallUnstage vol path \<Rightarrow> NodeUnstageVolume n cx ls vol path
      | CallExpand vol path cr \<Rightarrow> no_answer (NodeExpandVolume n cx ls vol path cr)
      | CallStats vol path \<Rightarrow> no_answer (NodeGetVolumeStats n cx ls vol path))"

section \<open>No panic\<close>

text \<open>No error a method turns into its answer is a panic; the only panics are nil responses.\<close>

named_theorems calm "results that are no panics"

lemma context_status_calm [simp]: "context_status e \<noteq> Panic"
  by (simp add: context_status_def)

lemma grpcErr_calm [simp]: "grpcErr e \<noteq> Panic"
  by (simp add: grpcErr_def split: option.splits prod.splits)

lemma capability_calm [calm]: "capability c = Inl e \<Longrightarrow> e \<noteq> Panic"
  using capability_no_panic by auto

lemma attach_proof_calm [calm]: "attach_proof vol pc = Inl e \<Longrightarrow> e \<noteq> Panic"
  by (auto simp: attach_proof_def split: option.splits if_splits)

lemma same_capabilities_calm [calm]: "same_capabilities mode fs cs = Inl e \<Longrightarrow> e \<noteq> Panic"
  by (induction cs) (auto split: sum.splits if_splits dest: capability_calm)

lemma choose_topology_calm [calm]: "choose_topology region zone ar = Inl e \<Longrightarrow> e \<noteq> Panic"
  by (auto simp: choose_topology_def split: option.splits if_splits)

lemma choose_size_calm [calm]: "choose_size cr = Inl e \<Longrightarrow> e \<noteq> Panic"
  by (auto simp: choose_size_def Let_def split: option.splits if_splits)

lemma choose_type_calm [calm]: "choose_type ps t ks = Inl e \<Longrightarrow> e \<noteq> Panic"
  by (induction ks arbitrary: t) (auto split: if_splits)

lemma all_supported_calm [calm]: "all_supported (Some v) ks = Inl e \<Longrightarrow> e \<noteq> Panic"
  by (induction ks) (auto split: sum.splits if_splits)

lemma validPath_calm [calm]: "validPath root ls path = Some e \<Longrightarrow> e \<noteq> Panic"
proof -
  assume bad: "validPath root ls path = Some e"
  show "e \<noteq> Panic"
  proof (cases "IsAbs path \<and> path = Clean path \<and> HasPrefix path (Clean root @ ''/'')")
    case True
    then obtain cs where cs: "list_all proper cs" "path = abs_path cs" by (auto simp: Clean_fixed_iff)
    have "(case List.find (\<lambda>p. refusal (ls p) \<noteq> None) (ancestors cs) of None \<Rightarrow> None | Some p \<Rightarrow> refusal (ls p)) = Some e"
      using bad True cs(2) by (simp add: validPath_def symlink_walk_abs [OF cs(1)])
    then show ?thesis
      by (auto simp: refusal_def split: option.splits lstat.splits bool.splits)
  next
    case False
    then show ?thesis using bad by (auto simp: validPath_def split: if_splits)
  qed
qed

lemma no_answer_calm: "ensures m (\<lambda>r _. r \<noteq> Inl Panic) s \<Longrightarrow> ensures (no_answer m) (\<lambda>r _. r \<noteq> Inl Panic) s"
  by (auto simp: no_answer_def proc_rules elim!: ensures_mono split: sum.splits)

lemma require_last: "(\<not> ok' \<Longrightarrow> Q (Inl e) s) \<Longrightarrow> (ok' \<Longrightarrow> Q (Inr ()) s) \<Longrightarrow> ensures (require ok' e) Q s"
  by (simp add: ensures_require)

lemmas calm_steps = step_rules split_step no_answer_calm require_last

locale controller_driver = storage_api C for C :: "'a caller" +
  fixes c :: "'a controller"
  assumes controller_api: "ctlAPI c = C"
begin

lemma serve_controller_calm: "ensures (serve_controller c cx call) (\<lambda>r _. r \<noteq> Inl Panic) s"
proof (cases call)
  case (AskCreate ks r)
  then show ?thesis
    unfolding serve_controller_def CreateVolume_def AskCreate controller_call.case controller_api
    by (intro calm_steps) (auto simp: ensures_give dest: calm answered)
next
  case (AskDelete vol)
  then show ?thesis
    unfolding serve_controller_def DeleteVolume_def AskDelete controller_call.case controller_api
    by (intro calm_steps) auto
next
  case (AskPublish r)
  then show ?thesis
    unfolding serve_controller_def ControllerPublishVolume_def AskPublish controller_call.case controller_api
    by (intro calm_steps) (auto simp: ensures_give dest: calm answered attachment_field)
next
  case (AskUnpublish vol i)
  then show ?thesis
    unfolding serve_controller_def ControllerUnpublishVolume_def AskUnpublish controller_call.case controller_api
    by (intro calm_steps) auto
next
  case (AskValidate r)
  show ?thesis
    unfolding serve_controller_def ValidateVolumeCapabilities_def AskValidate controller_call.case controller_api
    by (intro calm_steps) (auto simp: ensures_give dest!: answered dest: calm)
next
  case (AskExpand vol cr)
  then show ?thesis
    unfolding serve_controller_def ControllerExpandVolume_def AskExpand controller_call.case controller_api
    by (cases cr; simp add: ensures_raise; intro calm_steps) 
      (auto simp: ensures_give ensures_raise proc_rules no_answer_def dest: answered)
qed

end

text \<open>The node driver; its second reading of the journal finds the entry the first one found.\<close>

lemma lookup_calm_step:
  assumes "journal_ok n" and "\<And>m st. journal n (nJournal s) = Inr m \<Longrightarrow> fmlookup m vol = Some st \<Longrightarrow>
      ensures (f st) (\<lambda>r _. r \<noteq> Inl Panic) s"
  shows "ensures (andThen (lookup_stage n ls vol path) f) (\<lambda>r _. r \<noteq> Inl Panic) s"
proof -
  have "ensures (lookup_stage n ls vol path)
      (\<lambda>r s'. r \<noteq> Inl Panic \<and> (\<forall>st. r = Inr st \<longrightarrow> ensures (f st) (\<lambda>r _. r \<noteq> Inl Panic) s')) s"
    unfolding lookup_stage_def
    by (intro plain_steps read_stages_step [OF assms(1)])
      (auto simp: ensures_raise ensures_give dest: validPath_calm intro: assms(2))
  then show ?thesis by (auto simp: proc_rules elim!: ensures_mono split: sum.splits)
qed

context storage_api
begin

lemma serve_node_calm:
  assumes n: "ndAPI n = C" "journal_ok n"
  shows "ensures (serve_node n cx ls call) (\<lambda>r _. r \<noteq> Inl Panic) s"
proof -
  have save: "ensures (save_stages n m) (\<lambda>r _. r \<noteq> Inl Panic) s" for m s
    by (rule last_step, rule save_stages_step [OF n(2)]) (simp_all add: ensures_give)
  note steps = calm_steps plain_steps read_stages_step [OF n(2)] save_stages_step [OF n(2)] save lookup_calm_step [OF n(2)]
  show ?thesis
  proof (cases call)
    case (CallStage r)
    show ?thesis
      unfolding serve_node_def NodeStageVolume_def stage_commit_def Let_def CallStage node_call.case
      by (intro steps) (auto simp: ensures_give n dest: calm answered)
  next
    case (CallPublish r)
    show ?thesis
      unfolding serve_node_def NodePublishVolume_def publish_commit_def Let_def CallPublish node_call.case
      by (intro steps last_step [where m = "on_host g" for g]) (auto simp: ensures_give ensures_raise n dest: calm)
  next
    case (CallUnpublish vol path)
    show ?thesis
      unfolding serve_node_def NodeUnpublishVolume_def CallUnpublish node_call.case
      by (intro steps) (auto simp: ensures_give n dest: calm)
  next
    case (CallUnstage vol path)
    show ?thesis
      unfolding serve_node_def NodeUnstageVolume_def CallUnstage node_call.case
      by (intro steps) (auto simp: ensures_give n dest: calm)
  next
    case (CallExpand vol path cr)
    show ?thesis
      unfolding serve_node_def NodeExpandVolume_def CallExpand node_call.case
      by (intro steps) (simp_all add: n ensures_give ensures_raise, use answered(5) in blast)
  next
    case (CallStats vol path)
    show ?thesis
      unfolding serve_node_def NodeGetVolumeStats_def CallStats node_call.case
      by (intro steps) (auto simp: ensures_give n dest: calm)
  qed
qed

end

text \<open>
  C38: no answer of the platform crashes a driver. Over an API whose successful answers carry the
  fields the Go code dereferences, every method of the controller and of the node service ends,
  in every state and whatever the context, the host, the kubelet's file system and the request are, in an
  answer or a status, never in a nil dereference; the second journal lookup of
  \<open>NodeExpandVolume\<close>, which the code does not check, finds its entry. The platform behind
  \<open>testkit.Local\<close>, with any other activity around the calls, is such an API.
\<close>

theorem drivers_never_panic:
  assumes "storage_api (ctlAPI c)" and "storage_api (ndAPI n)" and "journal_ok n"
  shows "fst (serve_controller c cx call a) \<noteq> Inl Panic \<and> fst (serve_node n cx ls call' s) \<noteq> Inl Panic"
proof
  have "controller_driver (ctlAPI c) c" by (simp add: controller_driver_def controller_driver_axioms_def assms(1))
  from controller_driver.serve_controller_calm [OF this, of cx call a]
  show "fst (serve_controller c cx call a) \<noteq> Inl Panic" by (simp add: ensures_def split: prod.splits)
  from storage_api.serve_node_calm [OF assms(2) refl assms(3), of cx ls call' s]
  show "fst (serve_node n cx ls call' s) \<noteq> Inl Panic" by (simp add: ensures_def split: prod.splits)
qed

definition mem_controller ::
  "((platform + audit_entry) mem_db, disks mem_db) world controller" where
  "mem_controller = \<lparr>ctlAPI = Local_Call mem_bolt ex_states ex_audits ex_config mem_around (ex_controller ''t1''),
     ctlRegion = ''r1'', ctlZone = ''z1''\<rparr>"

interpretation mem_control_world: world_around mem_cloud mem_cloud_disks mem_bolt ex_states ex_audits ex_config
  mem_around insts "ex_controller ''t1''"
  by unfold_locales (simp_all add: bolt_ok_mem codec_ok_ex_states mem_around_ok)

interpretation mem_control: controller_driver
  "Local_Call mem_bolt ex_states ex_audits ex_config mem_around (ex_controller ''t1'')" mem_controller
  by unfold_locales (simp add: mem_controller_def)

theorem drivers_never_panic_witness:
  "\<forall>cx ls a s. fst (serve_controller mem_controller cx (AskExpand ''volume-01'' (Some \<lparr>crRequiredBytes = 1, crLimitBytes = 0\<rparr>)) a)
       \<noteq> Inl Panic
     \<and> fst (serve_node (mem_node ''vm-a'') cx ls (CallStage run_stage_request) s) \<noteq> Inl Panic"
proof -
  have c: "storage_api (ctlAPI mem_controller)"
    using mem_control_world.answers.storage_api_axioms by (simp add: mem_controller_def)
  have n: "storage_api (ndAPI (mem_node ''vm-a''))"
    using mem_local.answers.storage_api_axioms by simp
  show ?thesis by (intro allI drivers_never_panic [OF c n mem_journal_ok])
qed

lemma api_Inr: "api C ctx op r s = (Inr out, s') \<longleftrightarrow> C ctx op r s = ((out, None), s')"
  by (auto simp: api_def valued_def split: prod.splits option.splits)

section \<open>What CreateVolume asks for\<close>

lemma same_capabilities_Inr:
  "same_capabilities mode fs cs = Inr () \<Longrightarrow> k \<in> set cs \<Longrightarrow> capability (Some k) = Inr (mode, fs)"
  by (induction cs) (auto split: sum.splits if_splits)

lemma choose_type_Inr:
  assumes "choose_type ps t ks = Inr u" and "\<And>k. k \<in> set ks \<Longrightarrow> fmlookup ps k \<noteq> None"
  shows "set ks \<subseteq> {''type'', ''csi.storage.k8s.io/pvc/name'', ''csi.storage.k8s.io/pvc/namespace'', ''csi.storage.k8s.io/pv/name''}
    \<and> u = (if ''type'' \<in> set ks then the (fmlookup ps ''type'') else t)"
  using assms
proof (induction ks arbitrary: t)
  case (Cons k ks)
  show ?case
  proof (cases "k = ''type''")
    case True
    then have "choose_type ps (field ps k) ks = Inr u" using Cons.prems(1) by simp
    note IH = Cons.IH [OF this] Cons.prems(2)
    have "field ps k = the (fmlookup ps ''type'')" using Cons.prems(2) [of k] True by (auto simp: field_def)
    then show ?thesis using IH True by auto
  next
    case False
    then have "choose_type ps t ks = Inr u \<and> k \<in> {''csi.storage.k8s.io/pvc/name'', ''csi.storage.k8s.io/pvc/namespace'', ''csi.storage.k8s.io/pv/name''}"
      using Cons.prems(1) by (simp split: if_splits)
    then show ?thesis using Cons.IH [of t] Cons.prems(2) False by auto
  qed
qed simp

lemma choose_size_Inr:
  "choose_size cr = Inr n \<longleftrightarrow>
     (case cr of None \<Rightarrow> n = 2 ^ 30
      | Some c \<Rightarrow> 0 \<le> crRequiredBytes c \<and> 0 \<le> crLimitBytes c
          \<and> n = (if crRequiredBytes c = 0 then 2 ^ 30 else crRequiredBytes c)
          \<and> (crLimitBytes c = 0 \<or> n \<le> crLimitBytes c))"
  by (auto simp: choose_size_def Let_def split: option.splits)

lemma choose_topology_Inr:
  assumes "choose_topology region zone ar = Inr (rr, zz)"
  shows "(rr, zz) = (region, zone) \<and> (\<forall>a. ar = Some a \<longrightarrow> tpPreferred a = [] \<and> tpRequisite a = [])
    \<or> (\<exists>a t. ar = Some a \<and> t \<in> set (tpPreferred a @ tpRequisite a) \<and> rr = field t RegionKey \<and> zz = field t ZoneKey
         \<and> rr \<noteq> '''' \<and> zz \<noteq> '''' \<and> (tpRequisite a = [] \<or> (\<exists>q\<in>set (tpRequisite a). \<forall>k v. fmlookup q k = Some v \<longrightarrow> field t k = v)))"
proof (cases ar)
  case None
  then show ?thesis using assms by (simp add: choose_topology_def)
next
  case (Some a)
  show ?thesis
  proof (cases "List.find (topology_usable (tpRequisite a)) (tpPreferred a @ tpRequisite a)")
    case None
    then show ?thesis using assms Some by (auto simp: choose_topology_def split: if_splits)
  next
    case (Some t)
    then have t: "t \<in> set (tpPreferred a @ tpRequisite a)" "topology_usable (tpRequisite a) t"
      by (metis find_Some_iff nth_mem)+
    have "rr = field t RegionKey" "zz = field t ZoneKey"
      using assms \<open>ar = Some a\<close> Some by (simp_all add: choose_topology_def)
    then show ?thesis
      using t \<open>ar = Some a\<close>
      by (auto simp: topology_usable_def topology_allowed_def list_ex_iff fmpred_iff)
  qed
qed

lemma create_errors:
  "capability c = Inl e \<Longrightarrow> \<exists>m. e = Status CInvalidArgument m"
  "same_capabilities mode fs cs = Inl e \<Longrightarrow> \<exists>m. e = Status CInvalidArgument m"
  "choose_topology region zone ar = Inl e \<Longrightarrow> \<exists>m. e = Status CInvalidArgument m"
  "choose_size cr = Inl e \<Longrightarrow> \<exists>code m. e = Status code m \<and> code \<in> {CInvalidArgument, COutOfRange}"
  "choose_type ps t ks = Inl e \<Longrightarrow> \<exists>m. e = Status CInvalidArgument m"
proof -
  show cap: "capability c = Inl e \<Longrightarrow> \<exists>m. e = Status CInvalidArgument m" for c
    by (auto simp: capability_def Let_def split: option.splits access_type.splits if_splits)
  show "same_capabilities mode fs cs = Inl e \<Longrightarrow> \<exists>m. e = Status CInvalidArgument m"
    by (induction cs) (auto split: sum.splits if_splits dest: cap)
  show "choose_type ps t ks = Inl e \<Longrightarrow> \<exists>m. e = Status CInvalidArgument m"
    by (induction ks arbitrary: t) (auto split: if_splits)
qed (auto simp: choose_topology_def choose_size_def Let_def split: option.splits if_splits)

text \<open>The request that stands for a CSI request: every part of it is carried over or checked.\<close>

definition asks_for :: "'a controller \<Rightarrow> create_volume_request \<Rightarrow> request \<Rightarrow> bool" where
  "asks_for c r q \<longleftrightarrow>
     rName q = cvName r \<and> cvName r \<noteq> '''' \<and> \<not> cvContentSource r \<and> cvCapabilities r \<noteq> []
     \<and> (\<forall>k\<in>set (cvCapabilities r). capability (Some k) = Inr (rMode q, rFSType q))
     \<and> 0 < rSizeBytes q
     \<and> (case cvCapacityRange r of
          None \<Rightarrow> rSizeBytes q = 2 ^ 30
        | Some cr \<Rightarrow> 0 \<le> crRequiredBytes cr \<and> 0 \<le> crLimitBytes cr \<and> crRequiredBytes cr \<le> rSizeBytes q
            \<and> (crLimitBytes cr = 0 \<or> rSizeBytes q \<le> crLimitBytes cr))
     \<and> ((rRegion q, rZone q) = (ctlRegion c, ctlZone c)
          \<and> (\<forall>a. cvAccessibility r = Some a \<longrightarrow> tpPreferred a = [] \<and> tpRequisite a = [])
        \<or> (\<exists>a t. cvAccessibility r = Some a \<and> t \<in> set (tpPreferred a @ tpRequisite a)
             \<and> rRegion q = field t RegionKey \<and> rZone q = field t ZoneKey \<and> rRegion q \<noteq> '''' \<and> rZone q \<noteq> ''''
             \<and> (tpRequisite a = [] \<or> (\<exists>u\<in>set (tpRequisite a). \<forall>k v. fmlookup u k = Some v \<longrightarrow> field t k = v))))
     \<and> (\<forall>k. fmlookup (cvParameters r) k \<noteq> None \<longrightarrow> k \<in> {''type'', ''csi.storage.k8s.io/pvc/name'',
          ''csi.storage.k8s.io/pvc/namespace'', ''csi.storage.k8s.io/pv/name''})
     \<and> rType q = (case fmlookup (cvParameters r) ''type'' of None \<Rightarrow> ''standard'' | Some t \<Rightarrow> t)"

lemma asks_for_request:
  assumes "enumerates ks (cvParameters r)" and "cvName r \<noteq> '''' \<and> cvCapabilities r \<noteq> []" and "\<not> cvContentSource r"
    and "same_capabilities mode fs (cvCapabilities r) = Inr u"
    and "choose_topology (ctlRegion c) (ctlZone c) (cvAccessibility r) = Inr (region, zone)"
    and "choose_size (cvCapacityRange r) = Inr n" and "choose_type (cvParameters r) ''standard'' ks = Inr t"
  shows "asks_for c r (zero_request\<lparr>rName := cvName r, rSizeBytes := n, rType := t, rRegion := region,
          rZone := zone, rMode := mode, rFSType := fs\<rparr>)"
proof -
  have keys: "k \<in> set ks \<longleftrightarrow> fmlookup (cvParameters r) k \<noteq> None" for k
    using enumerates_dom [OF assms(1)] by simp
  note kind = choose_type_Inr [OF assms(7)]
  have "0 < n \<and> (cvCapacityRange r = None \<longrightarrow> n = 2 ^ 30)
      \<and> (\<forall>cr. cvCapacityRange r = Some cr \<longrightarrow> 0 \<le> crRequiredBytes cr \<and> 0 \<le> crLimitBytes cr \<and> crRequiredBytes cr \<le> n
            \<and> (crLimitBytes cr = 0 \<or> n \<le> crLimitBytes cr))"
    using assms(6) by (auto simp: choose_size_Inr split: option.splits if_splits)
  moreover have "\<forall>k\<in>set (cvCapabilities r). capability (Some k) = Inr (mode, fs)"
    using same_capabilities_Inr assms(4) by auto
  moreover have "t = (case fmlookup (cvParameters r) ''type'' of None \<Rightarrow> ''standard'' | Some t \<Rightarrow> t)"
    using kind keys by (auto split: option.splits)
  moreover have "\<forall>k. fmlookup (cvParameters r) k \<noteq> None \<longrightarrow> k \<in> {''type'', ''csi.storage.k8s.io/pvc/name'',
          ''csi.storage.k8s.io/pvc/namespace'', ''csi.storage.k8s.io/pv/name''}"
    using kind keys by blast
  ultimately show ?thesis
    using assms(2,3) choose_topology_Inr [OF assms(5)] by (simp add: asks_for_def split: option.split)
qed

text \<open>
  C37: what \<open>CreateVolume\<close> asks the platform for. In every state and whatever order Go visits the parameters in, the
  method either answers \<open>InvalidArgument\<close> or \<open>OutOfRange\<close> without calling the API, or it makes exactly one
  call, \<open>CreateVolume\<close>, with a request that carries the CSI name, the one mode and file system every requested capability
  stands for, a size that is at least what is required and within the limit, a topology that is either the configured
  default (nothing was asked) or a usable one of the listed that matches some requisite, and the type
  of the storage class; no parameter is ignored. It succeeds only with the answer's volume, available and without error.
\<close>

theorem create_volume_request:
  assumes "enumerates ks (cvParameters r)" and "CreateVolume c cx ks r s = (res, s')"
  shows "(\<exists>code m. res = Inl (Status code m) \<and> code \<in> {CInvalidArgument, COutOfRange} \<and> s' = s)
    \<or> (\<exists>q out e. asks_for c r q \<and> ctlAPI c (cx 0) ''CreateVolume'' q s = ((out, e), s')
        \<and> (\<forall>x. res = Inr x \<longrightarrow> e = None \<and> (\<exists>v. oVolume out = Some v \<and> vState v = ''AVAILABLE'' \<and> vLastError v = ''''
             \<and> crVolumeId x = vID v \<and> crCapacityBytes x = vSizeBytes v)))"
  (is "?failed res s' \<or> ?asked res s'")
proof -
  have asked: "?failed res s' \<or> ?asked res s'"
    if "cvName r \<noteq> '''' \<and> cvCapabilities r \<noteq> []" "\<not> cvContentSource r"
      "same_capabilities mode fs (cvCapabilities r) = Inr u"
      "choose_topology (ctlRegion c) (ctlZone c) (cvAccessibility r) = Inr (region, zone)"
      "choose_size (cvCapacityRange r) = Inr n" "choose_type (cvParameters r) ''standard'' ks = Inr t"
      "ctlAPI c (cx 0) ''CreateVolume'' (zero_request\<lparr>rName := cvName r, rSizeBytes := n, rType := t, rRegion := region,
          rZone := zone, rMode := mode, rFSType := fs\<rparr>) s = ((out, e), s')"
      "\<And>x. res = Inr x \<Longrightarrow> e = None \<and> (\<exists>v. oVolume out = Some v \<and> vState v = ''AVAILABLE'' \<and> vLastError v = ''''
             \<and> crVolumeId x = vID v \<and> crCapacityBytes x = vSizeBytes v)" for res s' mode fs u region zone n t out e
    using asks_for_request [OF assms(1) that(1-6)] that(7,8) by blast
  have "ensures (CreateVolume c cx ks r) (\<lambda>res s'. ?failed res s' \<or> ?asked res s') s"
    unfolding CreateVolume_def
  proof (intro calm_steps, goal_cases)
    case prems: 1
    show ?case unfolding ensures_give
      by (rule asked [OF prems(1,2) prems(5) _ prems(8,9,10)]) (use prems in auto)
  next
    case prems: 2
    show ?case
      by (rule asked [OF prems(1,2) prems(5) _ prems(8,9,10)]) (use prems in auto)
  next
    case prems: 3
    show ?case
      by (rule asked [OF prems(1,2) prems(5) _ prems(8,9,10)]) (use prems in auto)
  next
    case prems: 4
    show ?case
      by (rule asked [OF prems(1,2) prems(5) _ prems(8,9,10)]) (use prems in auto)
  qed (auto dest: create_errors)
  then show ?thesis using assms(2) by (rule ensuresD)
qed

definition prompt_controller :: "unit controller" where
  "prompt_controller = \<lparr>ctlAPI = (\<lambda>ctx op r a. ((respond_volume run_available, None), a)), ctlRegion = ''r1'', ctlZone = ''z1''\<rparr>"

definition claim_request :: create_volume_request where
  "claim_request = \<lparr>cvName = ''pvc-1'',
     cvCapabilities = [\<lparr>kAccessMode = Some SingleNodeWriter, kAccessType = MountAccess '''' [] ''''\<rparr>],
     cvContentSource = False,
     cvAccessibility = Some \<lparr>tpPreferred = [],
       tpRequisite = [fmupd ZoneKey ''z2'' (fmupd RegionKey ''r1'' fmempty)]\<rparr>,
     cvCapacityRange = Some \<lparr>crRequiredBytes = 10, crLimitBytes = 20\<rparr>,
     cvParameters = fmupd ''type'' ''standard'' fmempty\<rparr>"

theorem create_volume_request_witness:
  "\<exists>x q. CreateVolume prompt_controller (\<lambda>_. None) [''type''] claim_request () = (Inr x, ())
     \<and> asks_for prompt_controller claim_request q \<and> crVolumeId x = ''volume-01''"
proof -
  have usable: "topology_usable [fmupd ZoneKey ''z2'' (fmupd RegionKey ''r1'' fmempty)]
      (fmupd ZoneKey ''z2'' (fmupd RegionKey ''r1'' fmempty))"
    by (simp add: topology_usable_def topology_allowed_def field_def fmpred_iff ZoneKey_def RegionKey_def)
  have "ZoneKey \<noteq> RegionKey" by (simp add: ZoneKey_def RegionKey_def)
  note keys = this this [symmetric]
  have parts: "cvName claim_request \<noteq> '''' \<and> cvCapabilities claim_request \<noteq> []" "\<not> cvContentSource claim_request"
    "capability (Some (hd (cvCapabilities claim_request))) = Inr (''mount'', ''ext4'')"
    "same_capabilities ''mount'' ''ext4'' (cvCapabilities claim_request) = Inr ()"
    "choose_topology (ctlRegion prompt_controller) (ctlZone prompt_controller) (cvAccessibility claim_request) = Inr (''r1'', ''z2'')"
    "choose_size (cvCapacityRange claim_request) = Inr 10" "choose_type (cvParameters claim_request) ''standard'' [''type''] = Inr ''standard''"
    by (simp_all add: claim_request_def capability_def choose_topology_def usable choose_size_def field_def keys)
  have "api (ctlAPI prompt_controller) None ''CreateVolume'' q () = (Inr (respond_volume run_available), ())" for q
    by (simp add: api_Inr prompt_controller_def)
  then have step: "andThen (api (ctlAPI prompt_controller) None ''CreateVolume'' q) f () = f (respond_volume run_available) ()"
    for q and f :: "_ \<Rightarrow> (unit, fault, create_volume_response) proc"
    by (intro andThen_run)
  have "vState run_available = ''AVAILABLE'' \<and> vLastError run_available = ''''" by (simp add: run_defs zero_volume_def)
  then have "\<exists>x. CreateVolume prompt_controller (\<lambda>_. None) [''type''] claim_request () = (Inr x, ())"
    by (simp add: CreateVolume_def parts step_through step)
  then obtain x where run: "CreateVolume prompt_controller (\<lambda>_. None) [''type''] claim_request () = (Inr x, ())" by blast
  have order: "enumerates [''type''] (cvParameters claim_request)" by (simp add: claim_request_def)
  from create_volume_request [OF order run]
  obtain q out e where q: "asks_for prompt_controller claim_request q"
    "ctlAPI prompt_controller None ''CreateVolume'' q () = ((out, e), ())"
    "\<exists>v. oVolume out = Some v \<and> crVolumeId x = vID v" by auto
  then have "crVolumeId x = ''volume-01''" by (auto simp: prompt_controller_def run_defs)
  with run q(1) show ?thesis by blast
qed

end
