(* ===== verification/Handshake.thy ===== *)
theory Handshake
  imports ControllerSpec
begin

text \<open>
  The two drivers together: what the controller driver returns from \<open>ControllerPublishVolume\<close> is, handed
  to a node by the orchestrator, exactly what the platform asks of that node.
\<close>

section \<open>Attached means usable\<close>

lemma existing_attachment:
  assumes run: "create_attachment cfg env p r s = (out, None, s')" and wf: "wf s" and cfg: "config_ok cfg"
    and out: "oAttachment out = Some a" "aState a = ''ATTACHED''" "aLastError a = ''''"
  obtains v i where "s' = s" "fmlookup (Volumes s) (rVolumeID r) = Some v" "fmlookup (Attachments s) (aID a) = Some a"
    "healthy s a v" "aVolumeID a = rVolumeID r" "aInstanceID a = rInstanceID r" "aGeneration a \<noteq> 0"
    "engine_instance cfg p (rInstanceID r) = (i, None)" "iID i = rInstanceID r"
    "aTenantID a = pTenantID p" "aClusterID a = pClusterID p"
  using run
proof (cases rule: create_attachment_cases)
  case (existing v i k a1)
  have a1: "a1 = a" using existing(3) out(1) by simp
  have v: "vID v = rVolumeID r" "wf_volume v" using wf_volumeD [OF wf existing(4)] by simp_all
  obtain v' where "fmlookup (Volumes s) (aVolumeID a) = Some v'" "belongs a v'"
    using wf_attachmentD(4) [OF wf existing(9)] a1 by blast
  then have bel: "belongs a v" using existing(4,10) v(1) a1 by simp
  have i: "iID i = rInstanceID r" using existing(6) cfg by (auto simp: engine_instance_None config_ok_def)
  have "healthy s a v"
    using existing(4,7,10,13,14) v out(2,3) a1 by (simp add: healthy_def wf_volume_def)
  then show thesis
    using that [OF existing(2,4) _ _ _ _ _ existing(6) i] existing(9,10,12) a1 v(1) i bel wf_attachmentD(1) [OF wf existing(9)]
      existing(5)
    by (simp add: belongs_def)
next
  case (created v v' i a1)
  have "a = a1" using created(13) out(1) by simp
  then have "aState a = ''ATTACHING''" unfolding created(12) by (simp add: new_attachment_def)
  then show thesis using out(2) by simp
next
  case (rejected e)
  then show thesis by simp
qed

lemma attached_usable:
  assumes "healthy s a v" and "fmlookup (Attachments s) (aID a) = Some a" and "engine_instance cfg p i = (x, None)" "iID x = i"
    and "aInstanceID a = i" "aTenantID a = pTenantID p" "aClusterID a = pClusterID p"
    and "pInstanceID np = i" "pTenantID np = pTenantID p" "pClusterID np = pClusterID p" "pRole np = ''node''"
    and "rVolumeID q = aVolumeID a" "rAttachmentID q = aID a" "rGeneration q = aGeneration a" "ValidID (rUseID q)"
    and "rMode q = vMode v" "rFSType q = vFSType v"
  shows "\<exists>out s'. apply_op cfg env np ''AcquireUse'' q s = (out, None, s')"
proof -
  have "node_authorised cfg np q s x a"
    using assms by (simp add: node_authorised_def engine_instance_None)
  from node_op_acquire [OF this assms(1,16,17)] show ?thesis by (simp add: apply_op_def assms(11))
qed

text \<open>
  C9: the publish handshake. On a platform that started empty and draws at most 16 random bytes for an identifier,
  when \<open>ControllerPublishVolume\<close> reports success, whatever went on before, around and
  between its two calls, the platform holds an attachment of the volume to the requested instance
  that is attached, and the context it returns passes \<open>attachProof\<close>, names that attachment and its generation, and suffices: in the
  state it leaves, \<open>AcquireUse\<close> with exactly the request \<open>NodeStageVolume\<close> builds from it at any
  path succeeds for the node of that instance in the same tenant and cluster, with the mode and file system
  of the capability that was published.
\<close>

theorem publish_handshake:
  assumes "storage_provider P disks_of" and "bolt_ok B" and "codec_ok cds zero_platform" and "config_ok cfg"
    and "surroundings_ok B cds cda P insts E" and "ctlAPI c = Local_Call B cds cda cfg E p"
    and "pRole p = ''controller''" and "sys_init B cds disks_of c0"
    and "(drawn_step B cds cda P {} ^^ wSteps w) c0 (wDb w, wCloud w)"
    and "\<forall>t c1 k c2. oOther E t c1 = (k, c2) \<longrightarrow> (drawn_step B cds cda P insts ^^ k) c1 c2"
    and "wSteps w' \<le> 2 ^ 64 - 1" and "ControllerPublishVolume c cx r w = (Inr pc, w')"
    and "pRole np = ''node''" and "pInstanceID np = cpNodeId r" and "pTenantID np = pTenantID p"
    and "pClusterID np = pClusterID p"
  shows "\<exists>s a mode fs q. platform_read B cds (wDb w') = Inr s \<and> capability (cpCapability r) = Inr (mode, fs)
    \<and> attach_proof (cpVolumeId r) pc = Inr q \<and> fmlookup (Attachments s) (rAttachmentID q) = Some a
    \<and> rGeneration q = aGeneration a \<and> aVolumeID a = cpVolumeId r \<and> aInstanceID a = cpNodeId r \<and> aState a = ''ATTACHED''
    \<and> (\<forall>env path. \<exists>out s'. apply_op cfg env np ''AcquireUse''
          (q\<lparr>rUseID := useID (cpVolumeId r) path (rGeneration q), rMode := mode, rFSType := fs\<rparr>) s = (out, None, s'))"
proof -
  have wa: "world_around P disks_of B cds cda cfg E insts"
    using assms(1-5) by (simp add: world_around_def world_around_axioms_def)
  obtain mode fs got v0 w1 out a where cap: "capability (cpCapability r) = Inr (mode, fs)"
    and get: "Local_Call B cds cda cfg E p (cx 0) ''GetVolume'' (zero_request\<lparr>rID := cpVolumeId r\<rparr>) w = ((got, None), w1)"
    and v0: "oVolume got = Some v0" "vMode v0 = mode" "vFSType v0 = fs"
    and att: "Local_Call B cds cda cfg E p (cx 1) ''CreateAttachment''
      (zero_request\<lparr>rVolumeID := cpVolumeId r, rInstanceID := cpNodeId r\<rparr>) w1 = ((out, None), w')"
    and a: "oAttachment out = Some a" "aState a = ''ATTACHED''" "aLastError a = ''''"
    and pc: "pc = fmupd ''attachmentGeneration'' (FormatUint (aGeneration a)) (fmupd ''attachmentID'' (aID a) fmempty)"
    using assms(12) unfolding ControllerPublishVolume_def assms(6)
    by (elim went_through)
      (simp only: pure_result_Inr require_Inr deref_Inr api_Inr give_def prod.inject sum.inject; elim conjE; simp only: simp_thms; blast)
  have ok: "world_ok B cds disks_of w"
    using storage_provider.world_at_drawn [OF assms(1-3,8,9)] by (simp add: world_ok_def)
  obtain env0 s0 s1 where
    s0: "apply_op cfg env0 p ''GetVolume'' (zero_request\<lparr>rID := cpVolumeId r\<rparr>) s0 = (got, None, s1)"
    and s1: "platform_read B cds (wDb w1) = Inr s1"
    by (rule world_around.Local_Call_answer [OF wa get])
  have v1: "fmlookup (Volumes s1) (cpVolumeId r) = Some v0"
  proof -
    have "volume_case env0 p ''GetVolume'' (zero_request\<lparr>rID := cpVolumeId r\<rparr>) s0 = (got, None, s1)"
      using s0 assms(7) by (simp add: apply_op_def)
    then show ?thesis by (cases rule: volume_case_cases) (use v0(1) in simp_all)
  qed
  obtain k db cloud env where
    others: "(drawn_step B cds cda P insts ^^ k) (wDb w1, wCloud w1) (db, cloud)"
    and call: "Call B cds cda (oUpdate E (wSteps w1)) cfg env p ''CreateAttachment''
      (zero_request\<lparr>rVolumeID := cpVolumeId r, rInstanceID := cpNodeId r\<rparr>) db = ((out, None), wDb w')"
    and n: "wSteps w' = Suc (wSteps w1 + k)"
    by (rule Local_Call_drawn [OF att assms(10)]) (rule that, simp_all)
  have upd: "atomic_update (oUpdate E t)" for t using assms(5) by (simp add: surroundings_ok_def)
  obtain s00 where "platform_read B cds (wDb w) = Inr s00" "issued_ids s00"
    using storage_provider.issued_drawn [OF assms(1-3,8,9)] by auto
  then obtain s11 where "platform_read B cds (wDb w1) = Inr s11" "issued_ids s11"
    using Local_Call_issued [OF assms(2,3) upd get _ assms(10)] by auto
  then obtain s22 where issued: "platform_read B cds db = Inr s22" "issued_ids s22"
    using drawn_steps_issued [OF assms(2,3) others] by auto
  have "world_ok B cds disks_of w1" by (rule world_around.Local_Call_ok [OF wa ok get])
  then have "sys_inv B cds disks_of (wSteps w1) (wDb w1, wCloud w1) s1"
    using n assms(11) s1 by (auto simp: world_ok_def world_at_def)
  moreover have "(sys_step B cds cda P ^^ k) (wDb w1, wCloud w1) (db, cloud)"
    by (rule relpowp_mono [OF _ others]) (rule other_step_sys [OF drawn_step_other])
  ultimately obtain s where inv: "sys_inv B cds disks_of (wSteps w1 + k) (db, cloud) s" and ev: "evolves s1 s"
    using storage_provider.sys_run_inv [OF assms(1-3)] n assms(11) by (metis Suc_leD)
  have s: "platform_read B cds db = Inr s" and wf: "wf s"
    using inv by (simp_all add: sys_inv_def sys_ok_def)
  from assms(2,3) upd call obtain s' where
    create: "create_attachment cfg env p (zero_request\<lparr>rVolumeID := cpVolumeId r, rInstanceID := cpNodeId r\<rparr>) s = (out, None, s')"
    and s': "platform_read B cds (wDb w') = Inr s'"
    by (cases rule: Call_cases) (use s assms(7) in \<open>auto simp: apply_op_def\<close>)
  from existing_attachment [OF create wf assms(4) a] obtain v i where same: "s' = s"
    and v: "fmlookup (Volumes s) (cpVolumeId r) = Some v" and lk: "fmlookup (Attachments s) (aID a) = Some a"
    and h: "healthy s a v" and vol: "aVolumeID a = cpVolumeId r" and inst: "aInstanceID a = cpNodeId r"
    and gen: "aGeneration a \<noteq> 0" and i: "engine_instance cfg p (cpNodeId r) = (i, None)" "iID i = cpNodeId r"
    and own: "aTenantID a = pTenantID p" "aClusterID a = pClusterID p" by auto
  have fit: "vMode v = mode" "vFSType v = fs"
    using evolves_volumeD [OF ev v1] v v0(2,3) by (auto simp: volume_evolves_def)
  define q where "q = zero_request\<lparr>rVolumeID := cpVolumeId r, rAttachmentID := aID a, rGeneration := aGeneration a\<rparr>"
  have "ValidID (aID a)" using issued s lk by (simp add: issued_ids_def)
  then have q: "attach_proof (cpVolumeId r) pc = Inr q"
    using gen by (simp add: attach_proof_Inr pc q_def field_def)
  have use: "\<exists>out s'. apply_op cfg e np ''AcquireUse''
      (q\<lparr>rUseID := useID (cpVolumeId r) path (rGeneration q), rMode := mode, rFSType := fs\<rparr>) s = (out, None, s')" for e path
    using attached_usable [OF h lk i inst own assms(14-16,13)] by (simp add: q_def vol useID_valid fit)
  show ?thesis
    by (rule exI [of _ s], rule exI [of _ a], rule exI [of _ mode], rule exI [of _ fs], rule exI [of _ q])
      (use s' same cap q lk vol inst a(2) use in \<open>simp add: q_def\<close>)
qed

section \<open>Instance\<close>

definition run_publish_request :: publish_request where
  "run_publish_request = \<lparr>cpVolumeId = ''volume-01'', cpNodeId = ''vm-a'',
     cpCapability = srCapability run_stage_request, cpReadonly = False\<rparr>"

lemma run_get_volume:
  "apply_op ex_config env (ex_controller ''t1'') ''GetVolume'' (zero_request\<lparr>rID := ''volume-01''\<rparr>) run_attached
     = (respond_volume run_granted, None, run_attached)"
  by (simp add: apply_op_def volume_case_def run_defs ex_defs)

lemma run_attach_again:
  "apply_op ex_config ((mem_env run_attached)\<lparr>eCtx := None\<rparr>) (ex_controller ''t1'') ''CreateAttachment''
      (zero_request\<lparr>rVolumeID := ''volume-01'', rInstanceID := ''vm-a''\<rparr>) run_attached
     = (respond_attachment (run_attachment\<lparr>aState := ''ATTACHED''\<rparr>), None, run_attached)"
  by (simp add: apply_op_def create_attachment_def engine_instance_def Let_def run_defs ex_defs mem_env_def
      sorted_list_of_fset.rep_eq live_def zero_volume_def)

lemma run_publish:
  assumes s: "platform_read mem_bolt ex_states (wDb w) = Inr run_attached"
  shows "\<exists>w'. ControllerPublishVolume mem_controller (\<lambda>_. None) run_publish_request w = (Inr run_publish_context, w')
    \<and> wSteps w' = wSteps w + 2"
proof -
  obtain w1 where w1: "Local_Call mem_bolt ex_states ex_audits ex_config mem_around (ex_controller ''t1'') None ''GetVolume''
      (zero_request\<lparr>rID := ''volume-01''\<rparr>) w = ((respond_volume run_granted, None), w1)"
    and s1: "platform_read mem_bolt ex_states (wDb w1) = Inr run_attached" and n1: "wSteps w1 = Suc (wSteps w)"
    using mem_local_call [OF s run_get_volume] by blast
  obtain w2 where w2: "Local_Call mem_bolt ex_states ex_audits ex_config mem_around (ex_controller ''t1'') None ''CreateAttachment''
      (zero_request\<lparr>rVolumeID := ''volume-01'', rInstanceID := ''vm-a''\<rparr>) w1
        = ((respond_attachment (run_attachment\<lparr>aState := ''ATTACHED''\<rparr>), None), w2)"
    and n2: "wSteps w2 = Suc (wSteps w1)"
    using mem_local_call [OF s1 run_attach_again] by blast
  have get: "andThen (api (ctlAPI mem_controller) None ''GetVolume'' (zero_request\<lparr>rID := ''volume-01''\<rparr>)) f w
      = f (respond_volume run_granted) w1" for f :: "_ \<Rightarrow> (_, fault, (string, string) fmap) proc"
    by (intro andThen_run) (use w1 in \<open>simp add: api_Inr mem_controller_def\<close>)
  have att: "andThen (api (ctlAPI mem_controller) None ''CreateAttachment''
        (zero_request\<lparr>rVolumeID := ''volume-01'', rInstanceID := ''vm-a''\<rparr>)) f w1
      = f (respond_attachment (run_attachment\<lparr>aState := ''ATTACHED''\<rparr>)) w2" for f :: "_ \<Rightarrow> (_, fault, (string, string) fmap) proc"
    by (intro andThen_run) (use w2 in \<open>simp add: api_Inr mem_controller_def\<close>)
  have "aGeneration (run_attachment\<lparr>aState := ''ATTACHED''\<rparr>) = 1" "aID (run_attachment\<lparr>aState := ''ATTACHED''\<rparr>) = ''attachment-02''"
    "aLastError (run_attachment\<lparr>aState := ''ATTACHED''\<rparr>) = ''''"
    by (simp_all add: run_defs)
  then have "ControllerPublishVolume mem_controller (\<lambda>_. None) run_publish_request w = (Inr run_publish_context, w2)"
    by (simp add: ControllerPublishVolume_def run_publish_request_def step_through run_capability get att run_granted_simps
        run_publish_context_def give_def)
  then show ?thesis using n1 n2 by auto
qed

theorem publish_handshake_witness:
  "\<exists>w w' s out s'. ControllerPublishVolume mem_controller (\<lambda>_. None) run_publish_request w = (Inr run_publish_context, w')
     \<and> platform_read mem_bolt ex_states (wDb w') = Inr s
     \<and> apply_op ex_config (mem_env s) run_node ''AcquireUse'' run_proof s = (out, None, s')"
proof -
  obtain db where out: "(drawn_step mem_bolt ex_states ex_audits mem_cloud {} ^^ 4) run_start (db, run_cloud)"
    and s: "platform_read mem_bolt ex_states db = Inr run_attached"
    using run_drawn by blast
  obtain w' where publish: "ControllerPublishVolume mem_controller (\<lambda>_. None) run_publish_request
      \<lparr>wDb = db, wCloud = run_cloud, wSteps = 4\<rparr> = (Inr run_publish_context, w')" and n: "wSteps w' = 6"
    using run_publish [of "\<lparr>wDb = db, wCloud = run_cloud, wSteps = 4\<rparr>"] s by auto
  have api: "ctlAPI mem_controller = Local_Call mem_bolt ex_states ex_audits ex_config mem_around (ex_controller ''t1'')"
    by (simp add: mem_controller_def)
  have cfg: "config_ok ex_config" by simp
  have quiet: "\<forall>t c1 k c2. oOther mem_around t c1 = (k, c2) \<longrightarrow>
      (drawn_step mem_bolt ex_states ex_audits mem_cloud {} ^^ k) c1 c2"
    by (simp add: mem_around_def)
  have start: "(drawn_step mem_bolt ex_states ex_audits mem_cloud {} ^^ wSteps \<lparr>wDb = db, wCloud = run_cloud, wSteps = 4\<rparr>) run_start
      (wDb \<lparr>wDb = db, wCloud = run_cloud, wSteps = 4\<rparr>, wCloud \<lparr>wDb = db, wCloud = run_cloud, wSteps = 4\<rparr>)"
    using out by simp
  have who: "pRole (ex_controller ''t1'') = ''controller''" "pRole run_node = ''node''"
    "pInstanceID run_node = cpNodeId run_publish_request" "pTenantID run_node = pTenantID (ex_controller ''t1'')"
    "pClusterID run_node = pClusterID (ex_controller ''t1'')"
    by (simp_all add: ex_controller_def ex_node_def run_publish_request_def)
  from publish_handshake [OF mem_fake.storage_provider_axioms bolt_ok_mem codec_ok_ex_states cfg mem_around_ok api who(1)
      run_init start quiet _ publish who(2-5)] n
  obtain s mode fs q where st: "platform_read mem_bolt ex_states (wDb w') = Inr s"
    and cap: "capability (cpCapability run_publish_request) = Inr (mode, fs)"
    and q: "attach_proof (cpVolumeId run_publish_request) run_publish_context = Inr q"
    and use: "\<forall>env path. \<exists>out s'. apply_op ex_config env run_node ''AcquireUse''
        (q\<lparr>rUseID := useID (cpVolumeId run_publish_request) path (rGeneration q), rMode := mode, rFSType := fs\<rparr>) s = (out, None, s')"
    by (elim exE conjE meta_impE) (simp, rule that)
  have "q\<lparr>rUseID := useID (cpVolumeId run_publish_request) ''/kubelet/stage'' (rGeneration q), rMode := mode, rFSType := fs\<rparr>
      = run_proof"
  proof -
    have "mode = ''mount''" "fs = ''ext4''"
      using cap run_capability by (simp_all add: run_publish_request_def)
    moreover have "q = zero_request\<lparr>rVolumeID := ''volume-01'', rAttachmentID := ''attachment-02'', rGeneration := 1\<rparr>"
      using q run_attach_proof by (simp add: run_publish_request_def)
    ultimately show ?thesis by (simp add: run_proof_def run_publish_request_def)
  qed
  with use [rule_format, of "mem_env s" "''/kubelet/stage''"]
  have "\<exists>out s'. apply_op ex_config (mem_env s) run_node ''AcquireUse'' run_proof s = (out, None, s')" by (simp only:)
  then obtain out s' where run: "apply_op ex_config (mem_env s) run_node ''AcquireUse'' run_proof s = (out, None, s')"
    by blast
  show ?thesis
    by (rule exI, rule exI [of _ w'], rule exI [of _ s], rule exI [of _ out], rule exI [of _ s'])
      (intro conjI, fact publish, fact st, fact run)
qed

end
