(* ===== verification/Lease.thy ===== *)
theory Lease
  imports NodeSpec
begin

text \<open>
  What the platform promises about a volume, as an abstract machine of a few lines, and the proof that the
  engine and the reconciler implement it: a volume is free, held by one instance, or draining.
\<close>

section \<open>The abstract machine\<close>

datatype lease = Free | Held string "string fset" | Draining string "string fset"

text \<open>
  Who acts: a controller, on behalf of the instance it names; the node of an instance, for the use
  it names; or the reconciler. A free volume is granted by a controller to the instance it names; the holder's
  own node, and no other, acquires and releases the use it names; a controller revokes; a revoked lease
  drains: no new use, and only when the last one is released does the reconciler free the volume.
\<close>

datatype actor = ByController string | ByNode string string | ByReconciler

inductive lease_step :: "actor \<Rightarrow> lease \<Rightarrow> lease \<Rightarrow> bool" where
  grant: "lease_step (ByController i) Free (Held i {||})"
| acquire: "lease_step (ByNode i u) (Held i U) (Held i (finsert u U))"
| release: "lease_step (ByNode i u) (Held i U) (Held i (U |-| {|u|}))"
| revoke: "lease_step (ByController j) (Held i U) (Draining i U)"
| release_draining: "lease_step (ByNode i u) (Draining i U) (Draining i (U |-| {|u|}))"
| reclaim: "lease_step ByReconciler (Draining i {||}) Free"

inductive_simps lease_step_simps [simp]:
  "lease_step who Free y" "lease_step who (Held i U) y" "lease_step who (Draining i U) y"

definition lease_path :: "lease \<Rightarrow> lease \<Rightarrow> bool" where
  "lease_path = (\<lambda>x y. \<exists>who. lease_step who x y)\<^sup>*\<^sup>*"

text \<open>The machine never moves a volume from one instance to another without draining it first.\<close>

fun holder :: "lease \<Rightarrow> string option" where
  "holder Free = None"
| "holder (Held i U) = Some i"
| "holder (Draining i U) = Some i"

fun lease_uses :: "lease \<Rightarrow> string fset" where
  "lease_uses Free = {||}"
| "lease_uses (Held i U) = U"
| "lease_uses (Draining i U) = U"

lemma lease_step_holder: "lease_step who x y \<Longrightarrow> holder x = Some i \<Longrightarrow> holder y = Some i \<or> y = Free \<and> x = Draining i {||}"
  by (cases x) auto

section \<open>The abstraction\<close>

definition live_attachment :: "platform \<Rightarrow> string \<Rightarrow> attachment option" where
  "live_attachment s vol = List.find (\<lambda>a. aVolumeID a = vol \<and> live a)
     (range_values (Attachments s) (sorted_list_of_fset (fmdom (Attachments s))))"

definition lease_of_attachment :: "attachment \<Rightarrow> lease" where
  "lease_of_attachment a = (if aDeleteRequested a then Draining else Held) (aInstanceID a) (fmdom (aUses a))"

definition lease_of :: "platform \<Rightarrow> string \<Rightarrow> lease" where
  "lease_of s vol = (case live_attachment s vol of None \<Rightarrow> Free | Some a \<Rightarrow> lease_of_attachment a)"

lemma enumerates_sorted: "enumerates (sorted_list_of_fset (fmdom m)) m"
  by (simp add: enumerates_def sorted_list_of_fset.rep_eq fset_of_list.rep_eq fset_inject [symmetric])

lemma live_attachment_Some:
  assumes "wf s" and "fmlookup (Attachments s) k = Some a" and "live a"
  shows "live_attachment s (aVolumeID a) = Some a"
proof (cases "live_attachment s (aVolumeID a)")
  case None
  then show ?thesis
    using assms(2,3) by (auto simp: live_attachment_def find_range_values_None [OF enumerates_sorted])
next
  case (Some b)
  then obtain k' where "fmlookup (Attachments s) k' = Some b" "aVolumeID b = aVolumeID a" "live b"
    unfolding live_attachment_def by (auto dest!: find_range_values_Some)
  with one_liveD(2) [OF assms(1) this(1) assms(2)] assms(3) Some show ?thesis by simp
qed

lemma live_attachment_None:
  "live_attachment s vol = None \<longleftrightarrow> (\<forall>k a. fmlookup (Attachments s) k = Some a \<longrightarrow> aVolumeID a = vol \<longrightarrow> \<not> live a)"
  unfolding live_attachment_def find_range_values_None [OF enumerates_sorted] by blast

lemma lease_of_cases:
  assumes "wf s"
  obtains (free) "lease_of s vol = Free" "\<And>k a. fmlookup (Attachments s) k = Some a \<Longrightarrow> aVolumeID a = vol \<Longrightarrow> \<not> live a"
  | (taken) k a where "fmlookup (Attachments s) k = Some a" "aVolumeID a = vol" "live a"
      "lease_of s vol = lease_of_attachment a"
proof (cases "live_attachment s vol")
  case None
  then have "lease_of s vol = Free" by (simp add: lease_of_def)
  then show thesis by (rule free) (use None in \<open>simp add: live_attachment_None\<close>)
next
  case (Some b)
  then obtain k where "fmlookup (Attachments s) k = Some b" "aVolumeID b = vol" "live b"
    unfolding live_attachment_def by (auto dest!: find_range_values_Some)
  then show thesis using taken Some by (auto simp: lease_of_def)
qed

lemma lease_of_taken:
  "wf s \<Longrightarrow> fmlookup (Attachments s) k = Some a \<Longrightarrow> live a \<Longrightarrow> lease_of s (aVolumeID a) = lease_of_attachment a"
  by (simp add: lease_of_def live_attachment_Some)

lemma lease_of_free:
  "(\<And>k a. fmlookup (Attachments s) k = Some a \<Longrightarrow> aVolumeID a = vol \<Longrightarrow> \<not> live a) \<Longrightarrow> lease_of s vol = Free"
  using live_attachment_None [of s vol] by (auto simp: lease_of_def)

lemma lease_of_put_volume [simp]: "lease_of (put_volume k v s) vol = lease_of s vol"
  by (simp add: lease_of_def live_attachment_def)

text \<open>Writing one attachment: the lease of its volume follows the record, the others stay.\<close>

lemma lease_of_other:
  assumes "wf s" and "wf (put_attachment k a' s)" and "aVolumeID a' \<noteq> vol"
    and "\<And>a. fmlookup (Attachments s) k = Some a \<Longrightarrow> aVolumeID a \<noteq> vol"
  shows "lease_of (put_attachment k a' s) vol = lease_of s vol"
  using assms(1)
proof (cases rule: lease_of_cases [where vol = vol])
  case free
  have "lease_of (put_attachment k a' s) vol = Free"
    by (rule lease_of_free) (use free(2) assms(3) in \<open>auto split: if_splits\<close>)
  then show ?thesis using free(1) by simp
next
  case (taken k' b)
  then have "fmlookup (Attachments (put_attachment k a' s)) k' = Some b" using assms(4) by auto
  from lease_of_taken [OF assms(2) this taken(3)] taken(2,4) show ?thesis by simp
qed

lemma lease_of_put:
  assumes wf: "wf s" "wf (put_attachment k a' s)"
    and a: "fmlookup (Attachments s) k = Some a" "aVolumeID a' = aVolumeID a" "live a" "live a'"
    and step: "(lease_step who)\<^sup>=\<^sup>= (lease_of_attachment a) (lease_of_attachment a')"
  shows "(lease_step who)\<^sup>=\<^sup>= (lease_of s vol) (lease_of (put_attachment k a' s) vol)"
proof (cases "aVolumeID a = vol")
  case True
  then show ?thesis
    using lease_of_taken [OF wf(1) a(1,3)] lease_of_taken [OF wf(2), of k a'] a step by simp
next
  case False
  have "lease_of (put_attachment k a' s) vol = lease_of s vol"
    by (rule lease_of_other [OF wf]) (use False a in auto)
  then show ?thesis by simp
qed

section \<open>The engine implements it\<close>

lemma node_op_lease:
  assumes run: "node_op cfg p op r s = (out, x, s')" and wf: "wf s" and cfg: "config_ok cfg"
  shows "(lease_step (ByNode (pInstanceID p) (rUseID r)))\<^sup>=\<^sup>= (lease_of s vol) (lease_of s' vol)"
proof -
  have wf': "wf s'" by (rule node_op_wf [OF run wf])
  from run show ?thesis
  proof (cases rule: node_op_cases)
    case (released i a a')
    have a: "fmlookup (Attachments s) (rAttachmentID r) = Some a"
      using released(3) by (simp add: node_authorised_def)
    have inst: "aInstanceID a = pInstanceID p" by (rule authorised_instance [OF released(3) cfg])
    show ?thesis
    proof (cases "live a")
      case True
      have "(lease_step (ByNode (pInstanceID p) (rUseID r)))\<^sup>=\<^sup>= (lease_of_attachment a) (lease_of_attachment a')"
        by (auto simp: released(4) lease_of_attachment_def inst)
      then show ?thesis unfolding released(6)
        by (intro lease_of_put [OF wf wf' [unfolded released(6)] a])
          (use True in \<open>simp_all add: released(4) live_def\<close>)
    next
      case False
      then have "aUses a = fmempty"
        using wf_attachmentD(3) [OF wf a] by (auto simp: wf_attachment_def live_def)
      then have "a' = a" by (simp add: released(4))
      then have "s' = s" using released(6) a by simp
      then show ?thesis by simp
    qed
  next
    case (acquired i a v a')
    have a: "fmlookup (Attachments s) (rAttachmentID r) = Some a" "\<not> aDeleteRequested a" "live a"
      using acquired(3,4) by (simp_all add: node_authorised_def healthy_def live_def)
    have inst: "aInstanceID a = pInstanceID p" by (rule authorised_instance [OF acquired(3) cfg])
    have "(lease_step (ByNode (pInstanceID p) (rUseID r)))\<^sup>=\<^sup>= (lease_of_attachment a) (lease_of_attachment a')"
      using a(2) by (auto simp: acquired(7) lease_of_attachment_def inst)
    then show ?thesis unfolding acquired(9)
      by (intro lease_of_put [OF wf wf' [unfolded acquired(9)] a(1)])
        (use a(3) in \<open>simp_all add: acquired(7) live_def\<close>)
  qed simp_all
qed

lemma attachment_case_lease:
  assumes run: "attachment_case env p op r s = (out, x, s')" and wf: "wf s"
  shows "(lease_step (ByController (rInstanceID r)))\<^sup>=\<^sup>= (lease_of s vol) (lease_of s' vol)"
proof -
  have wf': "wf s'" by (rule attachment_case_wf [OF run wf])
  from run show ?thesis
  proof (cases rule: attachment_case_cases)
    case (deleted k a a')
    have "(lease_step (ByController (rInstanceID r)))\<^sup>=\<^sup>= (lease_of_attachment a) (lease_of_attachment a')"
      by (auto simp: deleted(8) lease_of_attachment_def)
    then show ?thesis unfolding deleted(10)
      by (intro lease_of_put [OF wf wf' [unfolded deleted(10)] deleted(4)])
        (use deleted(7) in \<open>simp_all add: deleted(8) live_def\<close>)
  qed simp_all
qed

lemma create_attachment_lease:
  assumes run: "create_attachment cfg env p r s = (out, x, s')" and wf: "wf s" "wf s'"
    and env: "env_for env s" "fresh_ids env s" and cfg: "config_ok cfg"
  shows "(lease_step (ByController (rInstanceID r)))\<^sup>=\<^sup>= (lease_of s vol) (lease_of s' vol)"
  using run
proof (cases rule: create_attachment_cases)
  case (created v v' i a)
  define t where "t = put_volume (rVolumeID r) v' s"
  have s': "s' = put_attachment (aID a) a t" by (simp add: created(14) t_def)
  have named: "iID i = rInstanceID r" using created(4) cfg by (auto simp: engine_instance_None config_ok_def)
  have new: "fmlookup (Attachments s') (aID a) = Some a" "live a" "aVolumeID a = vID v"
    "lease_of_attachment a = Held (rInstanceID r) {||}"
    by (simp_all add: s' created(11,12) live_def new_attachment_def lease_of_attachment_def named)
  have fresh: "fmlookup (Attachments s) (aID a) = None"
    using env(2) by (simp add: created(12) fresh_ids_def)
  have free: "lease_of s (vID v) = Free"
    by (rule lease_of_free) (use created(10) env(1) in \<open>auto simp: env_for_def find_range_values_None\<close>)
  show ?thesis
  proof (cases "vID v = vol")
    case True
    then show ?thesis
      using lease_of_taken [OF wf(2) new(1,2)] new(3,4) free by simp
  next
    case False
    have "lease_of s' vol = lease_of s vol"
      using wf(1)
    proof (cases rule: lease_of_cases [where vol = vol])
      case free
      have "lease_of s' vol = Free"
        by (rule lease_of_free) (use free(2) False new(3) in \<open>auto simp: s' t_def split: if_splits\<close>)
      then show ?thesis using free(1) by simp
    next
      case (taken k b)
      then have "fmlookup (Attachments s') k = Some b" using fresh by (auto simp: s' t_def)
      from lease_of_taken [OF wf(2) this taken(3)] taken(2,4) show ?thesis by simp
    qed
    then show ?thesis by simp
  qed
qed simp_all

text \<open>Who makes a call: a node speaks for its own instance, any other principal acts as a controller.\<close>

definition actor_of :: "principal \<Rightarrow> request \<Rightarrow> actor" where
  "actor_of p r = (if pRole p = ''node'' then ByNode (pInstanceID p) (rUseID r) else ByController (rInstanceID r))"

lemma apply_op_lease:
  assumes run: "apply_op cfg env p op r s = (out, x, s')" and wf: "wf s" "wf s'"
    and env: "env_for env s" "fresh_ids env s" and cfg: "config_ok cfg"
  shows "(lease_step (actor_of p r))\<^sup>=\<^sup>= (lease_of s vol) (lease_of s' vol)"
  using run
proof (cases rule: apply_op_cases)
  case node
  then show ?thesis using node_op_lease wf(1) cfg by (simp add: actor_of_def)
next
  case create_volume
  from create_volume(3) show ?thesis
    by (cases rule: create_volume_cases) simp_all
next
  case volume_case
  from volume_case(3) show ?thesis
    by (cases rule: volume_case_cases) simp_all
next
  case create_attachment
  then show ?thesis using create_attachment_lease wf env cfg by (simp add: actor_of_def)
next
  case attachment_case
  then show ?thesis using attachment_case_lease wf(1) by (simp add: actor_of_def)
next
  case get_instance
  then show ?thesis by (auto dest: get_instance_state)
qed simp

section \<open>The reconciler implements it\<close>

lemma progressed_lease:
  assumes prog: "progressed s s'" and wf: "wf s" "wf s'"
  shows "(lease_step ByReconciler)\<^sup>=\<^sup>= (lease_of s vol) (lease_of s' vol)"
proof -
  have old: "\<exists>a. fmlookup (Attachments s) k = Some a \<and> aVolumeID a = aVolumeID a' \<and> (live a' \<longrightarrow> live a)"
    if "fmlookup (Attachments s') k = Some a'" for k a'
    using progressed_attachmentD [OF prog that]
    by (auto simp: reconciled_attachment_def attachment_evolves_def)
  show ?thesis
    using wf(1)
  proof (cases rule: lease_of_cases [where vol = vol])
    case free
    have "lease_of s' vol = Free" by (rule lease_of_free) (use old free(2) in fastforce)
    then show ?thesis using free(1) by simp
  next
    case (taken k a)
    have "fmrel reconciled_attachment (Attachments s) (Attachments s')" using prog by (simp add: progressed_def)
    from fmrel_left [OF this taken(1)] obtain a' where
      a': "fmlookup (Attachments s') k = Some a'" and rec: "reconciled_attachment a a'" by blast
    have same: "aVolumeID a' = vol" "lease_of_attachment a' = lease_of_attachment a"
      using rec taken(2) by (simp_all add: reconciled_attachment_def attachment_evolves_def lease_of_attachment_def)
    show ?thesis
    proof (cases "live a'")
      case True
      then show ?thesis using lease_of_taken [OF wf(2) a'] same taken(4) by simp
    next
      case False
      then have "lease_of s vol = Draining (aInstanceID a) {||}"
        using rec taken(3,4) by (simp add: reconciled_attachment_def lease_of_attachment_def)
      moreover have "lease_of s' vol = Free"
      proof (rule lease_of_free)
        fix k2 b' assume b': "fmlookup (Attachments s') k2 = Some b'" "aVolumeID b' = vol"
        show "\<not> live b'"
        proof
          assume l: "live b'"
          obtain b where "fmlookup (Attachments s) k2 = Some b" "aVolumeID b = vol" "live b"
            using old [OF b'(1)] b'(2) l by auto
          then have "k2 = k" using one_liveD(1) [OF wf(1) _ taken(1) _ taken(3)] taken(2) by simp
          then show False using a' b'(1) l False by simp
        qed
      qed
      ultimately show ?thesis by simp
    qed
  qed
qed

section \<open>The simulation\<close>

text \<open>A step of the system (\<open>sys_step\<close>) with the name of its actor.\<close>

inductive actor_step ::
  "('tx, 'b) bolt \<Rightarrow> ('b, platform) codec \<Rightarrow> ('b, audit_entry) codec \<Rightarrow> 'p provider
     \<Rightarrow> actor \<Rightarrow> 'tx \<times> 'p \<Rightarrow> 'tx \<times> 'p \<Rightarrow> bool"
  for B cds cda P where
  call: "atomic_update upd \<Longrightarrow> config_ok cfg \<Longrightarrow>
    (\<And>s. platform_read B cds db = Inr s \<Longrightarrow> env_for env s \<and> fresh_ids env s) \<Longrightarrow>
    Call B cds cda upd cfg env p op r db = (res, db') \<Longrightarrow>
    actor_step B cds cda P (actor_of p r) (db, cloud) (db', cloud)"
| reconcile: "atomic_update upd \<Longrightarrow>
    (\<And>s. platform_read B cds db = Inr s \<Longrightarrow> reconcile_for z s) \<Longrightarrow>
    Reconcile B cds upd P cfg z cloud db = (e, (cloud', panicked), db') \<Longrightarrow>
    actor_step B cds cda P ByReconciler (db, cloud) (db', cloud')"

inductive_cases actor_stepE [consumes 1, case_names call reconcile]: "actor_step B cds cda P who c c'"

lemma sys_step_actor: "sys_step B cds cda P c c' \<longleftrightarrow> (\<exists>who. actor_step B cds cda P who c c')"
proof
  assume "sys_step B cds cda P c c'"
  then show "\<exists>who. actor_step B cds cda P who c c'"
    by (cases rule: sys_stepE) (blast intro: actor_step.intros)+
next
  assume "\<exists>who. actor_step B cds cda P who c c'"
  then obtain who where "actor_step B cds cda P who c c'" by blast
  then show "sys_step B cds cda P c c'"
    by (cases rule: actor_stepE) (auto intro: sys_step.intros)
qed

context storage_provider
begin

lemma actor_step_lease:
  assumes B: "bolt_ok B" and cd: "codec_ok cds zero_platform" and step: "actor_step B cds cda P who c c'"
    and inv: "sys_inv B cds disks_of n c s" and n: "n < 2 ^ 64 - 1"
  shows "\<exists>s'. sys_inv B cds disks_of (Suc n) c' s' \<and> (\<forall>vol. (lease_step who)\<^sup>=\<^sup>= (lease_of s vol) (lease_of s' vol))"
proof -
  have "sys_step B cds cda P c c'" using step by (auto simp: sys_step_actor)
  then obtain s' where s': "sys_inv B cds disks_of (Suc n) c' s'"
    using sys_step_inv [OF B cd _ inv n] by blast
  have read: "platform_read B cds (fst c) = Inr s" "platform_read B cds (fst c') = Inr s'" and wf: "wf s" "wf s'"
    using inv s' by (simp_all add: sys_inv_def sys_ok_def)
  have "(lease_step who)\<^sup>=\<^sup>= (lease_of s vol) (lease_of s' vol)" for vol
    using step
  proof (cases rule: actor_stepE)
    case (call upd cfg db env p op r res db' cloud)
    obtain out e where run: "Call B cds cda upd cfg env p op r db = ((out, e), db')"
      using call(7) by (metis prod.exhaust)
    have env: "env_for env s" "fresh_ids env s" using call(2,6) read(1) by auto
    from B cd call(4) run show ?thesis
    proof (cases rule: Call_cases)
      case failed
      then show ?thesis using read call(2,3) by simp
    next
      case (completed s1 s2)
      have s1: "s1 = s" and s2: "s' = (if e = None then s2 else s)" using completed(2,5) read call(2,3) by auto
      show ?thesis
      proof (cases e)
        case None
        then show ?thesis
          using apply_op_lease [OF completed(3) [unfolded s1] wf(1) _ env call(5)] s2 wf(2) call(1) by simp
      next
        case (Some x)
        then show ?thesis using s2 by simp
      qed
    qed
  next
    case (reconcile upd db z cfg cloud e cloud' panicked db')
    from B cd reconcile(4,6) show ?thesis
    proof (cases rule: Reconcile_cases)
      case (committed s1 s2)
      have s1: "s1 = s" and s2: "s2 = s'" using committed(2,5) read reconcile(2,3) by simp_all
      have "reconcile_for z s" using reconcile(2,5) read by simp
      from reconcile_state_run [OF committed(4) [unfolded s1 s2] wf(1) this] have "progressed s s'" by auto
      from progressed_lease [OF this wf] show ?thesis by (simp only: reconcile(1))
    qed (use read reconcile(2,3) in simp_all)
  qed
  with s' show ?thesis by blast
qed

lemma sys_run_lease:
  assumes B: "bolt_ok B" and cd: "codec_ok cds zero_platform" and run: "(sys_step B cds cda P ^^ m) c c'"
    and inv: "sys_inv B cds disks_of n c s" and room: "n + m \<le> 2 ^ 64 - 1"
  shows "\<exists>s'. sys_inv B cds disks_of (n + m) c' s' \<and> (\<forall>vol. lease_path (lease_of s vol) (lease_of s' vol))"
  using run room
proof (induction m arbitrary: c')
  case 0
  then show ?case using inv by (auto simp: lease_path_def)
next
  case (Suc m)
  then obtain c1 where c1: "(sys_step B cds cda P ^^ m) c c1" "sys_step B cds cda P c1 c'" by auto
  from c1(2) obtain who where who: "actor_step B cds cda P who c1 c'" unfolding sys_step_actor by blast
  then obtain s1 where s1: "sys_inv B cds disks_of (n + m) c1 s1" "\<forall>vol. lease_path (lease_of s vol) (lease_of s1 vol)"
    using Suc.IH [OF c1(1)] Suc.prems(2) by auto
  obtain s' where s': "sys_inv B cds disks_of (Suc (n + m)) c' s'"
    "\<forall>vol. (lease_step who)\<^sup>=\<^sup>= (lease_of s1 vol) (lease_of s' vol)"
    using actor_step_lease [OF B cd who s1(1)] Suc.prems(2) by auto
  have "lease_path (lease_of s vol) (lease_of s' vol)" for vol
  proof -
    have "lease_step who (lease_of s1 vol) (lease_of s' vol) \<or> lease_of s1 vol = lease_of s' vol"
      using s'(2) by auto
    with s1(2) [rule_format, of vol] show ?thesis
      unfolding lease_path_def by (auto intro: rtranclp.rtrancl_into_rtrancl)
  qed
  with s'(1) show ?case by auto
qed

end

lemma lease_of_zero [simp]: "lease_of zero_platform vol = Free"
  by (rule lease_of_free) (simp add: zero_platform_def)

text \<open>
  C3: the platform implements the lease machine. Along any run of the system - calls of any principals, reconcile runs,
  failed transactions, lost cloud answers - every single step takes the lease of every volume
  (read off the committed records) by at most one step of the abstract machine, made by the actor of that step, from the free lease
  on: so a volume is granted only when free, by a controller, to the instance it names; its uses are acquired and released only by the
  node of the instance that holds it, one named use at a time; it is revoked by a controller before it
  drains, gains no use then, and becomes free only through the reconciler, when it has drained without uses; it never passes from one instance to
  another directly.
\<close>

theorem lease_refinement:
  assumes "storage_provider P disks_of" and "bolt_ok B" and "codec_ok cds zero_platform"
    and "sys_init B cds disks_of c0" and "(sys_step B cds cda P ^^ n) c0 c1" and "actor_step B cds cda P who c1 c2"
    and "n < 2 ^ 64 - 1"
  shows "\<exists>s1 s2. platform_read B cds (fst c1) = Inr s1 \<and> platform_read B cds (fst c2) = Inr s2
    \<and> (\<forall>vol. lease_path Free (lease_of s1 vol)
        \<and> (lease_step who (lease_of s1 vol) (lease_of s2 vol) \<or> lease_of s2 vol = lease_of s1 vol)
        \<and> (\<forall>i j. holder (lease_of s1 vol) = Some i \<longrightarrow> holder (lease_of s2 vol) = Some j \<longrightarrow> i = j))"
proof -
  obtain s1 where s1: "sys_inv B cds disks_of n c1 s1" "\<forall>vol. lease_path (lease_of zero_platform vol) (lease_of s1 vol)"
    using storage_provider.sys_run_lease [OF assms(1-3,5) sys_init_inv [OF assms(4)]] assms(7) by auto
  then obtain s2 where s2: "sys_inv B cds disks_of (Suc n) c2 s2"
    "\<forall>vol. (lease_step who)\<^sup>=\<^sup>= (lease_of s1 vol) (lease_of s2 vol)"
    using storage_provider.actor_step_lease [OF assms(1-3,6) s1(1) assms(7)] by auto
  have "i = j" if "holder (lease_of s1 vol) = Some i" "holder (lease_of s2 vol) = Some j" for vol i j
    using s2(2) [rule_format, of vol] lease_step_holder [of who "lease_of s1 vol" "lease_of s2 vol" i] that by auto
  then show ?thesis using s1 s2 by (auto simp: sys_inv_def)
qed

text \<open>The example run: four steps attach the volume; in the fifth the holder's node acquires a use.\<close>

theorem lease_refinement_witness:
  "\<exists>c1 c2 s1 s2. (sys_step mem_bolt ex_states ex_audits mem_cloud ^^ 4) run_start c1
     \<and> actor_step mem_bolt ex_states ex_audits mem_cloud (ByNode ''vm-a'' (rUseID run_proof)) c1 c2
     \<and> platform_read mem_bolt ex_states (fst c1) = Inr s1 \<and> platform_read mem_bolt ex_states (fst c2) = Inr s2
     \<and> lease_path Free (lease_of s1 ''volume-01'') \<and> lease_of s1 ''volume-01'' = Held ''vm-a'' {||}
     \<and> lease_of s2 ''volume-01'' = Held ''vm-a'' {|rUseID run_proof|}
     \<and> lease_step (ByNode ''vm-a'' (rUseID run_proof)) (lease_of s1 ''volume-01'') (lease_of s2 ''volume-01'')"
proof -
  obtain db where out: "(other_step mem_bolt ex_states ex_audits mem_cloud {} ^^ 4) run_start (db, run_cloud)"
    and s: "platform_read mem_bolt ex_states db = Inr run_attached"
    using run_to_attached by blast
  have steps: "(sys_step mem_bolt ex_states ex_audits mem_cloud ^^ 4) run_start (db, run_cloud)"
    by (rule relpowp_mono [OF _ out]) (rule other_step_sys)
  have ctx: "eCtx (mem_env run_attached) = None" by (simp add: mem_env_def Let_def)
  obtain db' where run: "Call mem_bolt ex_states ex_audits mem_update ex_config (mem_env run_attached) run_node ''AcquireUse''
      run_proof db = ((respond_use run_used (Some run_granted), None), db')"
    and s': "platform_read mem_bolt ex_states db' = Inr (run_state run_granted (Some run_used))"
    using mem_Call [OF s run_acquire_proof ctx] by blast
  have act: "actor_of run_node run_proof = ByNode ''vm-a'' (rUseID run_proof)"
    by (simp add: actor_of_def ex_node_def)
  have step: "actor_step mem_bolt ex_states ex_audits mem_cloud (ByNode ''vm-a'' (rUseID run_proof)) (db, run_cloud) (db', run_cloud)"
    unfolding act [symmetric]
    by (rule actor_step.call [OF atomic_update_mem _ _ run]) (use s mem_env_ok in auto)
  have held: "lease_of run_attached ''volume-01'' = Held ''vm-a'' {||}"
    "lease_of (run_state run_granted (Some run_used)) ''volume-01'' = Held ''vm-a'' {|rUseID run_proof|}"
    by (simp_all add: lease_of_def live_attachment_def lease_of_attachment_def run_defs ex_defs live_def
        sorted_list_of_fset.rep_eq)
  from lease_refinement [OF mem_fake.storage_provider_axioms bolt_ok_mem codec_ok_ex_states run_init steps step]
  have "lease_path Free (lease_of run_attached ''volume-01'')
      \<and> (lease_step (ByNode ''vm-a'' (rUseID run_proof)) (lease_of run_attached ''volume-01'')
           (lease_of (run_state run_granted (Some run_used)) ''volume-01'')
         \<or> lease_of (run_state run_granted (Some run_used)) ''volume-01'' = lease_of run_attached ''volume-01'')"
    using s s' by auto
  then have "lease_path Free (lease_of run_attached ''volume-01'')"
    "lease_step (ByNode ''vm-a'' (rUseID run_proof)) (lease_of run_attached ''volume-01'')
       (lease_of (run_state run_granted (Some run_used)) ''volume-01'')"
    by (simp_all add: held)
  with steps step s s' held show ?thesis by (metis fst_conv)
qed

end
