(* ===== verification/Spec2Isabelle.thy ===== *)
theory Spec2Isabelle
  imports ReconcileSpec LinuxMounts Rejections Handshake Lease
begin

text \<open>
  A verification development for managed-k8s-storage, the storage subsystem of a managed Kubernetes service.
  This theory imports every other one and documents them.

  \<^bold>\<open>The program.\<close> Four parts work together. The \<^emph>\<open>platform\<close> (\<^verbatim>\<open>internal/platform\<close>) owns the records of volumes,
  attachments and durable uses; it serves API calls, each one transaction of a bbolt database
  (\<^verbatim>\<open>internal/store\<close>), and a reconciler drives the cloud (\<^verbatim>\<open>internal/provider\<close>) towards the recorded intent. The
  \<^emph>\<open>controller driver\<close> (\<^verbatim>\<open>internal/driver/controller.go\<close>) turns CSI requests of a cluster into API calls. The \<^emph>\<open>node driver\<close>
  (\<^verbatim>\<open>internal/driver/node.go\<close>) runs on each worker VM, keeps a journal of what it staged and published, and mounts through a
  \<^emph>\<open>host\<close> (\<^verbatim>\<open>internal/host\<close>). Both drivers reach the platform over HTTP with client certificates (\<^verbatim>\<open>internal/transport\<close>).
  A volume has one writer: an attachment ties it to one instance under a generation, the node acquires a durable use before it
  mounts and releases it after it has unmounted, and the reconciler detaches the disk only when no use is left.

  \<^bold>\<open>Theories and sources.\<close>
  \<^item> \<^verbatim>\<open>Prelude\<close>, \<^verbatim>\<open>GoText\<close>, \<^verbatim>\<open>GoPath\<close>, \<^verbatim>\<open>Sha256\<close>, \<^verbatim>\<open>Proc\<close>: Go maps as finite maps and the order of \<open>range\<close>, hexadecimal text,
    the parts of \<^verbatim>\<open>strconv\<close>, \<^verbatim>\<open>strings\<close>, \<^verbatim>\<open>path/filepath\<close> and \<^verbatim>\<open>crypto/sha256\<close> the code uses, and computations that change a
    state and may fail.
  \<^item> \<^verbatim>\<open>Model\<close>: \<^verbatim>\<open>internal/model/model.go\<close>, the identifiers, records and errors.
  \<^item> \<^verbatim>\<open>Store\<close>: \<^verbatim>\<open>internal/store/store.go\<close>; bbolt is the record \<open>bolt\<close> with the laws \<open>bolt_ok\<close>, \<^verbatim>\<open>encoding/json\<close> a codec with
    the round trip \<open>codec_ok\<close>, a transaction function anything with \<open>atomic_update\<close> (commit or roll back).
  \<^item> \<^verbatim>\<open>Provider\<close>: \<^verbatim>\<open>internal/provider/provider.go\<close>, the interface as the locale \<open>storage_provider\<close> and the emulator \<open>Fake\<close>.
  \<^item> \<^verbatim>\<open>Engine\<close>, \<^verbatim>\<open>Reconcile\<close>: \<^verbatim>\<open>internal/platform/engine.go\<close>. \<open>platform\<close> is its \<open>State\<close>, \<open>apply_op\<close> and \<open>node_op\<close> are \<open>apply\<close> and
    \<open>node\<close> with one definition per operation, \<open>Call\<close> and \<open>Reconcile\<close> the transactions around them.
  \<^item> \<^verbatim>\<open>Transport\<close>: \<^verbatim>\<open>internal/transport/http.go\<close>, handler, client and TLS configuration.
  \<^item> \<^verbatim>\<open>Driver\<close>, \<^verbatim>\<open>Controller\<close>, \<^verbatim>\<open>NodeDriver\<close>: \<^verbatim>\<open>internal/driver\<close>, one definition per RPC.
  \<^item> \<^verbatim>\<open>Host\<close>, \<^verbatim>\<open>Linux\<close>: \<^verbatim>\<open>internal/host\<close>, the simulated host over the store and the Linux host over the record \<open>os\<close> of command runs
    and system calls.
  \<^item> \<^verbatim>\<open>World\<close>: \<open>Local\<close> of \<^verbatim>\<open>internal/testkit/fixture.go\<close>, with the steps of everyone else around each call.
\<close>

text \<open>
  \<^bold>\<open>What is proved.\<close>
  \<^item> \<^verbatim>\<open>Wf\<close>, \<^verbatim>\<open>EngineCases\<close>, \<^verbatim>\<open>EngineProps\<close>, \<^verbatim>\<open>Lifecycle\<close>: the well-formedness of the platform state, one case rule per operation, the
    guarantees of a single call, and the preorder in which records evolve (phases are a \<open>linorder\<close>).
  \<^item> \<^verbatim>\<open>ReconcileProps\<close>, \<^verbatim>\<open>Safety\<close>, \<^verbatim>\<open>Converge\<close>, \<^verbatim>\<open>System\<close>: what one reconcile run does over any provider, the joint invariant of records
    and cloud, progress, and runs of calls and reconciles with failed transactions and lost cloud answers.
  \<^item> \<^verbatim>\<open>EngineSpec\<close>, \<^verbatim>\<open>SystemSpec\<close>, \<^verbatim>\<open>ReconcileSpec\<close>: the properties of the platform: exact guards, fencing, isolation, retries, audit,
    single writer, backed records, convergence.
  \<^item> \<^verbatim>\<open>Lease\<close>: the platform refines an abstract machine in which a volume is free, held by one instance or draining, and each step
    belongs to an actor.
  \<^item> \<^verbatim>\<open>TransportSpec\<close>, \<^verbatim>\<open>Rejections\<close>: what reaches the engine, what a remote call does and answers, and that errors keep their meaning.
  \<^item> \<^verbatim>\<open>Service\<close>, \<^verbatim>\<open>NodeProps\<close>, \<^verbatim>\<open>Cluster\<close>, \<^verbatim>\<open>NodeSpec\<close>, \<^verbatim>\<open>NodeResults\<close>: the node driver against its two contracts, then on every instance
    beside the platform and its cloud, with reboots: what is mounted, what is journalled, what success means.
  \<^item> \<^verbatim>\<open>DriverSpec\<close>, \<^verbatim>\<open>ControllerSpec\<close>, \<^verbatim>\<open>Issued\<close>, \<^verbatim>\<open>Handshake\<close>: accepted paths and use names, the controller's requests, absence of nil
    dereferences, the validity of issued identifiers, and the handshake from \<open>ControllerPublishVolume\<close> to \<open>AcquireUse\<close>.
  \<^item> \<^verbatim>\<open>LinuxProps\<close>, \<^verbatim>\<open>LinuxMounts\<close>: device numbers, the trusted device root, formatting, figures; and the mount table a staging or
    publication leaves, over tools with the laws \<open>mount_tools\<close>.

  \<^bold>\<open>Interfaces.\<close> \<open>storage_provider\<close> and \<open>reliable_provider\<close> (the cloud), \<open>disk_store\<close> (a store that carries the emulator),
  \<open>mount_host\<close>, \<open>recording_host\<close> and \<open>mount_store\<close> (a host and its mount table), \<open>storage_api\<close> and \<open>use_service\<close> (the API as the
  drivers see it), \<open>world_around\<close> and \<open>local_world\<close> (the platform as a provider of that API), \<open>node_driver\<close>, \<open>controller_driver\<close> and
  \<open>nodes\<close> (the clients). \<open>Fake\<close>, the simulated host and \<open>Local_Call\<close> provide them by \<open>sublocale\<close> over any database with the
  laws, and the interpretations on the in-memory database give the witnesses.

  \<^bold>\<open>Bounds.\<close> Generations are 64-bit words and \<open>Generation++\<close> wraps, so statements over runs are about fewer than $2^{64}$ steps; each step
  increments a generation at most once. \<open>newID\<close> is hexadecimal text of random bytes the caller of the model chooses, fresh where a
  statement needs it, and at most 16 where the validity of identifiers matters, as in the code. The device poll runs as often as the
  environment lets the timer fire (\<open>osRounds\<close>). \<open>symlink_walk\<close> is a \<open>partial_function\<close>, with its termination proved.
  The constants of SHA-256 come from an integer root search of 37 bits; the roots need no more.

  \<^bold>\<open>Not modelled.\<close> The processes under \<^verbatim>\<open>cmd\<close> and \<^verbatim>\<open>internal/runtime\<close> are flags, files, sockets and signals. The rest of the test kit is
  fixtures. bbolt, JSON, URL parsing, TLS, gRPC, the kernel and its tools are parameters with the laws named above; \<open>codec_ok\<close> idealises
  \<^verbatim>\<open>encoding/json\<close>, which replaces invalid UTF-8. Mutexes make each RPC of a node and each transaction of the platform one
  step at a time, so interleavings are sequences of calls, reconcile runs and the node driver's own steps.
\<close>

end
